theory Spec2Isabelle
  imports Complex_Main
begin

section \<open>The network view of force.js\<close>

text \<open>
  The module \<^verbatim>\<open>force.js\<close> keeps its state in module-level variables and mutates
  JavaScript objects that are shared by reference. The model passes the state
  explicitly as a record. Node objects live in a store (a list of objects, an object's
  address being its position in the list), so that two references to one object are
  one address.

  JavaScript numbers are modelled by \<open>real\<close> (coordinates, radii, zoom factors) and
  by \<open>int\<close> (edge weights, which the data supplies as integers); rounding of IEEE
  doubles, \<^verbatim>\<open>NaN\<close> and \<^verbatim>\<open>Infinity\<close> are outside the model.
\<close>

subsection \<open>Tuning constants\<close>

record tuning =
  NODE_MIN_R :: real
  NODE_MAX_R :: real
  LABEL_ZOOM :: real
  SIM_SPREAD :: real
  MAX_FORCE_LINKS :: nat
  MIN_RENDER_WEIGHT :: int

text \<open>The values of the module's \<^verbatim>\<open>const\<close> declarations (lines 53 to 58).\<close>

definition TUNING :: tuning where
  "TUNING = \<lparr> NODE_MIN_R = 1.5, NODE_MAX_R = 14, LABEL_ZOOM = 2.5, SIM_SPREAD = 500,
              MAX_FORCE_LINKS = 20000, MIN_RENDER_WEIGHT = 50 \<rparr>"

subsection \<open>Input data\<close>

text \<open>
  A title is a string of JavaScript: the list of its UTF-16 code units. \<open>utf16\<close> gives
  the code units of a string of ASCII characters. The identifiers of the nodes, which
  are only compared and looked up, are kept as plain strings.
\<close>

type_synonym js_string = "nat list"

definition utf16 :: "string \<Rightarrow> js_string" where
  "utf16 str = map of_char str"

text \<open>
  A game is the array \<^verbatim>\<open>[title, developer, rating, reviews, price, _, genres]\<close> of the
  shared data set. \<open>g_ref\<close> is the identity of the array object: \<^verbatim>\<open>===\<close> on two
  games compares identities, not contents.
\<close>

record game =
  g_ref :: nat
  g_title :: js_string
  g_rating :: real
  g_reviews :: real
  g_price :: real
  g_genres :: "nat list"

definition same_game :: "game option \<Rightarrow> game \<Rightarrow> bool" where
  "same_game ng g = (case ng of None \<Rightarrow> False | Some g' \<Rightarrow> g_ref g' = g_ref g)"

record raw_node =
  rn_id :: string
  rn_title :: "js_string option"
  rn_game :: "game option"
  rn_reviews :: "real option"

record raw_link =
  rl_source :: nat
  rl_target :: nat
  rl_weight :: int

record layout_data =
  ld_positions :: "string \<rightharpoonup> real \<times> real"
  ld_communities :: "(string \<rightharpoonup> nat) option"
  ld_num_communities :: "nat option"

record steam_data =
  sd_nodes :: "raw_node list"
  sd_links :: "raw_link list"
  sd_genreCount :: nat
  sd_filterActive :: bool
  sd_gamePassesFilter :: "game \<Rightarrow> bool"

subsection \<open>Node and link objects\<close>

type_synonym addr = nat

record sim_node =
  node_x :: real
  node_y :: real
  node_vx :: real
  node_vy :: real
  node_fx :: "real option"
  node_fy :: "real option"
  node_r :: real
  node_game :: "game option"
  node_origIdx :: nat
  node_id :: string
  node_title :: "js_string option"
  node_reviews :: real
  node_simIdx :: nat
  node_index :: nat

record render_link =
  lk_si :: nat
  lk_ti :: nat
  lk_weight :: int

text \<open>
  An end of a physics link is a node index when the link is created; the link force of
  d3 replaces it by a reference to the node object when the force is initialised.
\<close>

datatype endpoint = Idx nat | Ref addr

record force_link =
  fl_source :: endpoint
  fl_target :: endpoint
  fl_weight :: int

subsection \<open>The zoom transform and the scales of d3\<close>

text \<open>
  Modelled from the spec: the zoom transform of d3 (\<^verbatim>\<open>d3.zoomIdentity\<close> with its
  \<^verbatim>\<open>translate\<close> and \<^verbatim>\<open>scale\<close>) and the scales \<^verbatim>\<open>d3.scaleSqrt\<close> and
  \<^verbatim>\<open>d3.scaleLinear\<close>, not among the sources. A transform maps a world coordinate
  \<open>x\<close> to the screen coordinate \<open>x * k + t\<close>; a scale maps its domain linearly
  (after the square root, for \<^verbatim>\<open>scaleSqrt\<close>) onto its range, without clamping, and an
  empty domain to the middle of the range.
\<close>

record zoom_transform =
  t_k :: real
  t_x :: real
  t_y :: real

definition zoomIdentity :: zoom_transform where
  "zoomIdentity = \<lparr> t_k = 1, t_x = 0, t_y = 0 \<rparr>"

definition translate :: "real \<Rightarrow> real \<Rightarrow> zoom_transform \<Rightarrow> zoom_transform" where
  "translate dx dy t = \<lparr> t_k = t_k t, t_x = t_x t + t_k t * dx, t_y = t_y t + t_k t * dy \<rparr>"

definition scale :: "real \<Rightarrow> zoom_transform \<Rightarrow> zoom_transform" where
  "scale k t = \<lparr> t_k = t_k t * k, t_x = t_x t, t_y = t_y t \<rparr>"

definition pow_half :: "real \<Rightarrow> real" where
  "pow_half v = (if v < 0 then - sqrt (- v) else sqrt v)"

definition scaleSqrt :: "real \<Rightarrow> real \<Rightarrow> real \<Rightarrow> real \<Rightarrow> real \<Rightarrow> real" where
  "scaleSqrt d0 d1 r0 r1 v =
     (let a = pow_half d0; b = pow_half d1;
          t = (if b - a = 0 then 0.5 else (pow_half v - a) / (b - a))
      in r0 * (1 - t) + r1 * t)"

definition scaleLinear :: "real \<Rightarrow> real \<Rightarrow> real \<Rightarrow> real \<Rightarrow> real \<Rightarrow> real" where
  "scaleLinear d0 d1 r0 r1 v =
     (let t = (if d1 - d0 = 0 then 0.5 else (v - d0) / (d1 - d0))
      in r0 * (1 - t) + r1 * t)"

subsection \<open>The force simulation of d3\<close>

text \<open>
  Modelled from the spec: the d3 library (\<^verbatim>\<open>d3.forceSimulation\<close>, its forces, its
  timer and \<^verbatim>\<open>d3.zoom\<close>) is not among the sources. The layout engine of section 4.2
  of the specification is followed, with the simulation step as d3-force publishes it:
  a tick moves the energy \<open>alpha\<close> towards its target, applies every registered force
  and then integrates each node, a node with a fixed position \<open>fx\<close>, \<open>fy\<close> being put
  back on it with zero velocity.

  The link force is written out, because it reaches node objects through the ends of
  its links. The other forces (many-body, centring, collision, positioning) are left
  abstract: \<open>bodyForce\<close> gives the position and velocity each of them leaves on the
  nodes of the simulation, and nothing else of a node is theirs to write.
\<close>

datatype force =
    ManyBody real real real
  | Link "force_link list" real real real int
  | Center real
  | Collide real real
  | PosX nat real real real
  | PosY nat real real real

type_synonym kin = "real \<times> real \<times> real \<times> real"

record d3env =
  jiggle :: real
  bodyForce :: "force \<Rightarrow> real \<Rightarrow> sim_node list \<Rightarrow> kin list"

record d3_simulation =
  sim_nodes :: "addr list"
  sim_alpha :: real
  sim_alphaMin :: real
  sim_alphaDecay :: real
  sim_alphaTarget :: real
  sim_velocityDecay :: real
  sim_forces :: "(string \<times> force) list"
  sim_running :: bool
  sim_onTick :: bool

type_synonym store = "sim_node list"

text \<open>
  Modelled from the spec: \<^verbatim>\<open>initializeNodes\<close> of d3's simulation, not among the
  sources. Every node gets its index, and a fixed node its fixed position.
\<close>

definition initNode :: "nat \<Rightarrow> sim_node \<Rightarrow> sim_node" where
  "initNode i n =
     (let n1 = n\<lparr> node_index := i \<rparr>;
          n2 = (case node_fx n1 of None \<Rightarrow> n1 | Some f \<Rightarrow> n1\<lparr> node_x := f \<rparr>)
      in (case node_fy n2 of None \<Rightarrow> n2 | Some f \<Rightarrow> n2\<lparr> node_y := f \<rparr>))"

fun initializeNodes :: "nat \<Rightarrow> addr list \<Rightarrow> store \<Rightarrow> store" where
  "initializeNodes i [] h = h"
| "initializeNodes i (a # as) h = initializeNodes (Suc i) as (h[a := initNode i (h ! a)])"

text \<open>
  Modelled from the spec: \<^verbatim>\<open>d3.forceSimulation(nodes)\<close>, not among the sources, with
  the defaults of d3, no force yet and the timer started.
  \<open>sim_velocityDecay\<close> is the factor the tick multiplies a velocity by, which is one
  minus the argument of \<^verbatim>\<open>velocityDecay(_)\<close>.
\<close>

definition forceSimulation :: "addr list \<Rightarrow> store \<Rightarrow> d3_simulation \<times> store" where
  "forceSimulation nodes h =
     (\<lparr> sim_nodes = nodes, sim_alpha = 1, sim_alphaMin = 0.001,
        sim_alphaDecay = 1 - 0.001 powr (1 / 300), sim_alphaTarget = 0,
        sim_velocityDecay = 0.6, sim_forces = [], sim_running = True, sim_onTick = False \<rparr>,
      initializeNodes 0 nodes h)"

text \<open>
  Modelled from the spec: \<^verbatim>\<open>simulation.force(name, force)\<close> of d3, not among the
  sources. The forces are kept in a JavaScript \<^verbatim>\<open>Map\<close>: setting a name that is present keeps
  its place, a new name goes last, and \<^verbatim>\<open>null\<close> deletes the name.
\<close>

fun map_set :: "string \<Rightarrow> force \<Rightarrow> (string \<times> force) list \<Rightarrow> (string \<times> force) list" where
  "map_set k v [] = [(k, v)]"
| "map_set k v ((k', v') # kvs) = (if k = k' then (k, v) # kvs else (k', v') # map_set k v kvs)"

definition map_delete :: "string \<Rightarrow> (string \<times> force) list \<Rightarrow> (string \<times> force) list" where
  "map_delete k kvs = filter (\<lambda>kv. fst kv \<noteq> k) kvs"

definition set_force :: "string \<Rightarrow> force option \<Rightarrow> d3_simulation \<Rightarrow> d3_simulation" where
  "set_force name f sim =
     (case f of None \<Rightarrow> sim\<lparr> sim_forces := map_delete name (sim_forces sim) \<rparr>
      | Some f' \<Rightarrow> sim\<lparr> sim_forces := map_set name f' (sim_forces sim) \<rparr>)"

text \<open>
  Modelled from the spec: the initialisation of d3's link force, not among the sources.
  Initialising a link force resolves each end that is still an index to the node of
  that index; an end that is already an object is kept. An index without a node makes
  d3 throw (\<open>None\<close>).
\<close>

definition resolve :: "addr list \<Rightarrow> endpoint \<Rightarrow> endpoint option" where
  "resolve nodes e =
     (case e of Ref a \<Rightarrow> Some (Ref a)
      | Idx i \<Rightarrow> (if i < length nodes then Some (Ref (nodes ! i)) else None))"

fun forceLink_initialize :: "addr list \<Rightarrow> force_link list \<Rightarrow> force_link list option" where
  "forceLink_initialize nodes [] = Some []"
| "forceLink_initialize nodes (l # ls) =
     (case resolve nodes (fl_source l) of None \<Rightarrow> None
      | Some s \<Rightarrow>
          (case resolve nodes (fl_target l) of None \<Rightarrow> None
           | Some t \<Rightarrow>
               (case forceLink_initialize nodes ls of None \<Rightarrow> None
                | Some ls' \<Rightarrow> Some (l\<lparr> fl_source := s, fl_target := t \<rparr> # ls'))))"

text \<open>
  Modelled from the spec: the link force of d3, not among the sources (the spring along
  each physics edge of section 4.2). \<open>link_count\<close> is the number of link ends on the node of a given
  index, from which d3 takes the bias of a link; the strength of a link is the
  accessor that \<^verbatim>\<open>force.js\<close> passes: \<^verbatim>\<open>base + gain * Math.min(1, weight / maxWeight)\<close>.
\<close>

definition end_index :: "store \<Rightarrow> endpoint \<Rightarrow> nat option" where
  "end_index h e = (case e of Ref a \<Rightarrow> Some (node_index (h ! a)) | Idx i \<Rightarrow> None)"

definition link_count :: "store \<Rightarrow> force_link list \<Rightarrow> nat \<Rightarrow> nat" where
  "link_count h ls i =
     length (filter (\<lambda>l. end_index h (fl_source l) = Some i) ls) +
     length (filter (\<lambda>l. end_index h (fl_target l) = Some i) ls)"

definition link_strength :: "real \<Rightarrow> real \<Rightarrow> int \<Rightarrow> force_link \<Rightarrow> real" where
  "link_strength base gain maxWeight l =
     base + gain * min 1 (real_of_int (fl_weight l) / real_of_int maxWeight)"

definition link_pull :: "d3env \<Rightarrow> real \<Rightarrow> real \<Rightarrow> real \<Rightarrow> real \<Rightarrow> addr \<Rightarrow> addr \<Rightarrow> store \<Rightarrow> store" where
  "link_pull env alpha len strength bias sa ta h =
     (let s = h ! sa; t = h ! ta;
          x0 = node_x t + node_vx t - node_x s - node_vx s;
          x = (if x0 = 0 then jiggle env else x0);
          y0 = node_y t + node_vy t - node_y s - node_vy s;
          y = (if y0 = 0 then jiggle env else y0);
          l0 = sqrt (x * x + y * y);
          l = (l0 - len) / l0 * alpha * strength;
          dx = x * l; dy = y * l;
          h1 = h[ta := t\<lparr> node_vx := node_vx t - dx * bias, node_vy := node_vy t - dy * bias \<rparr>];
          s1 = h1 ! sa
      in h1[sa := s1\<lparr> node_vx := node_vx s1 + dx * (1 - bias),
                      node_vy := node_vy s1 + dy * (1 - bias) \<rparr>])"

definition link_force_one ::
  "d3env \<Rightarrow> real \<Rightarrow> force_link list \<Rightarrow> real \<Rightarrow> real \<Rightarrow> real \<Rightarrow> int \<Rightarrow> store \<Rightarrow> force_link \<Rightarrow> store" where
  "link_force_one env alpha ls len base gain maxWeight h l =
     (case (fl_source l, fl_target l) of
        (Ref sa, Ref ta) \<Rightarrow>
          (let cs = link_count h ls (node_index (h ! sa));
               ct = link_count h ls (node_index (h ! ta));
               bias = real cs / (real cs + real ct)
           in link_pull env alpha len (link_strength base gain maxWeight l) bias sa ta h)
      | _ \<Rightarrow> h)"

text \<open>
  Modelled from the spec: the other forces of d3, not among the sources, by what they
  may write. For one of them, the positions and velocities it computes from the nodes
  of the simulation are written back to those nodes, in order.
\<close>

definition write_kin :: "sim_node \<Rightarrow> kin \<Rightarrow> sim_node" where
  "write_kin n k =
     (case k of (px, py, pvx, pvy) \<Rightarrow>
        n\<lparr> node_x := px, node_y := py, node_vx := pvx, node_vy := pvy \<rparr>)"

fun write_back :: "addr list \<Rightarrow> kin list \<Rightarrow> store \<Rightarrow> store" where
  "write_back (a # as) (k # ks) h = write_back as ks (h[a := write_kin (h ! a) k])"
| "write_back _ _ h = h"

definition apply_force :: "d3env \<Rightarrow> real \<Rightarrow> addr list \<Rightarrow> store \<Rightarrow> force \<Rightarrow> store" where
  "apply_force env alpha nodes h f =
     (case f of
        Link ls len base gain maxWeight \<Rightarrow>
          foldl (link_force_one env alpha ls len base gain maxWeight) h ls
      | _ \<Rightarrow> write_back nodes (bodyForce env f alpha (map (\<lambda>a. h ! a) nodes)) h)"

text \<open>
  Modelled from the spec: the tick of d3's simulation, not among the sources. It
  advances the free nodes by one step and puts the fixed ones on their fixed position.
  The integration of one node:
  \<^verbatim>\<open>if (node.fx == null) node.x += node.vx *= velocityDecay; else node.x = node.fx, node.vx = 0;\<close>
  and the same for \<open>y\<close>.
\<close>

definition integrate :: "real \<Rightarrow> sim_node \<Rightarrow> sim_node" where
  "integrate vd n =
     (let n1 = (case node_fx n of
                  None \<Rightarrow> n\<lparr> node_vx := node_vx n * vd, node_x := node_x n + node_vx n * vd \<rparr>
                | Some f \<Rightarrow> n\<lparr> node_x := f, node_vx := 0 \<rparr>)
      in (case node_fy n1 of
            None \<Rightarrow> n1\<lparr> node_vy := node_vy n1 * vd, node_y := node_y n1 + node_vy n1 * vd \<rparr>
          | Some f \<Rightarrow> n1\<lparr> node_y := f, node_vy := 0 \<rparr>))"

definition integrate_at :: "real \<Rightarrow> store \<Rightarrow> addr \<Rightarrow> store" where
  "integrate_at vd h a = h[a := integrate vd (h ! a)]"

definition tick :: "d3env \<Rightarrow> d3_simulation \<Rightarrow> store \<Rightarrow> d3_simulation \<times> store" where
  "tick env sim h =
     (let alpha = sim_alpha sim + (sim_alphaTarget sim - sim_alpha sim) * sim_alphaDecay sim;
          h1 = foldl (apply_force env alpha (sim_nodes sim)) h (map snd (sim_forces sim));
          h2 = foldl (integrate_at (sim_velocityDecay sim)) h1 (sim_nodes sim)
      in (sim\<lparr> sim_alpha := alpha \<rparr>, h2))"

subsection \<open>The state of the module\<close>

text \<open>
  The module-level variables of \<^verbatim>\<open>force.js\<close>, with the store of node objects, the
  queue of callbacks handed to \<^verbatim>\<open>requestAnimationFrame\<close> and the presence of the
  drag listeners on the window. A reference to a node object is its address.
\<close>

datatype frame_cb = FrameActivate | FrameRender

record state =
  width :: real
  height :: real
  active :: bool
  simulation :: "d3_simulation option"
  heap :: store
  simNodes :: "addr list"
  renderLinks :: "render_link list"
  forceLinks :: "force_link list"
  layoutLoaded :: bool
  layoutError :: bool
  tickCount :: nat
  transform :: zoom_transform
  zoomBehavior :: bool
  draggedNode :: "addr option"
  hoveredNode :: "addr option"
  selectedNode :: "addr option"
  sizeMode :: string
  layoutMode :: string
  groupMode :: string
  nodeDegree :: "(nat \<rightharpoonup> nat) option"
  skipEdgeFrames :: int
  communitiesData :: "(string \<rightharpoonup> nat) option"
  numCommunities :: nat
  medianWeight :: int
  touchHoldTimer :: "addr option"
  pendingFrames :: "frame_cb list"
  dragListeners :: bool

text \<open>
  The state when the script has been evaluated. \<^verbatim>\<open>width\<close> and \<^verbatim>\<open>height\<close> are
  undefined until \<^verbatim>\<open>resize\<close> runs, which \<^verbatim>\<open>init\<close> does first.
\<close>

definition init_state :: state where
  "init_state =
     \<lparr> width = 0, height = 0, active = False, simulation = None, heap = [], simNodes = [],
       renderLinks = [], forceLinks = [], layoutLoaded = False, layoutError = False,
       tickCount = 0, transform = zoomIdentity, zoomBehavior = False, draggedNode = None,
       hoveredNode = None, selectedNode = None, sizeMode = ''reviews'',
       layoutMode = ''default'', groupMode = ''genre'', nodeDegree = None,
       skipEdgeFrames = 0, communitiesData = None, numCommunities = 0, medianWeight = 0,
       touchHoldTimer = None, pendingFrames = [], dragListeners = False \<rparr>"

definition nodes_of :: "state \<Rightarrow> sim_node list" where
  "nodes_of s = map (\<lambda>a. heap s ! a) (simNodes s)"

subsection \<open>Building the model: \<^verbatim>\<open>loadAndBuild\<close>\<close>

text \<open>
  \<^verbatim>\<open>Array.prototype.sort\<close> with a comparator is a stable sort: \<open>a\<close> goes before
  \<open>b\<close> when \<open>cmp a b < 0\<close>, and elements that compare equal keep their order.
\<close>

fun insert_by :: "('a \<Rightarrow> 'a \<Rightarrow> int) \<Rightarrow> 'a \<Rightarrow> 'a list \<Rightarrow> 'a list" where
  "insert_by cmp a [] = [a]"
| "insert_by cmp a (b # bs) = (if cmp a b \<le> 0 then a # b # bs else b # insert_by cmp a bs)"

definition sort_by :: "('a \<Rightarrow> 'a \<Rightarrow> int) \<Rightarrow> 'a list \<Rightarrow> 'a list" where
  "sort_by cmp xs = foldr (insert_by cmp) xs []"

text \<open>The comparator of line 144: \<^verbatim>\<open>(a, b) => b.weight - a.weight\<close>.\<close>

definition byWeightDesc :: "render_link \<Rightarrow> render_link \<Rightarrow> int" where
  "byWeightDesc a b = lk_weight b - lk_weight a"

text \<open>Lines 96 to 101: the largest review count among the nodes that have a position.\<close>

definition maxReviewsOf :: "(string \<rightharpoonup> real \<times> real) \<Rightarrow> raw_node list \<Rightarrow> real" where
  "maxReviewsOf positions nodes =
     foldl (\<lambda>m n. (case rn_game n of
                      None \<Rightarrow> m
                    | Some g \<Rightarrow> (case positions (rn_id n) of None \<Rightarrow> m
                                 | Some p \<Rightarrow> max m (g_reviews g)))) 0 nodes"

text \<open>
  Lines 107 to 129: one node object for every input node that has a position, in input
  order, with the map from the input index to the index in \<^verbatim>\<open>simNodes\<close>.
\<close>

definition newNode :: "tuning \<Rightarrow> (real \<Rightarrow> real) \<Rightarrow> nat \<Rightarrow> nat \<Rightarrow> raw_node \<Rightarrow> real \<times> real \<Rightarrow> sim_node" where
  "newNode tun rScale i k n pos =
     (let reviews = (case rn_game n of Some g \<Rightarrow> g_reviews g
                     | None \<Rightarrow> (case rn_reviews n of None \<Rightarrow> 0 | Some v \<Rightarrow> v))
      in \<lparr> node_x = (fst pos - 0.5) * SIM_SPREAD tun * 2,
           node_y = (snd pos - 0.5) * SIM_SPREAD tun * 2,
           node_vx = 0, node_vy = 0, node_fx = None, node_fy = None,
           node_r = rScale reviews, node_game = rn_game n, node_origIdx = i,
           node_id = rn_id n, node_title = rn_title n, node_reviews = reviews,
           node_simIdx = k, node_index = 0 \<rparr>)"

fun buildSimNodes ::
  "tuning \<Rightarrow> (string \<rightharpoonup> real \<times> real) \<Rightarrow> (real \<Rightarrow> real) \<Rightarrow> nat \<Rightarrow> raw_node list \<Rightarrow>
   (nat \<rightharpoonup> nat) \<times> sim_node list \<Rightarrow> (nat \<rightharpoonup> nat) \<times> sim_node list" where
  "buildSimNodes tun positions rScale i [] acc = acc"
| "buildSimNodes tun positions rScale i (n # rest) (m, ns) =
     (case positions (rn_id n) of
        None \<Rightarrow> buildSimNodes tun positions rScale (Suc i) rest (m, ns)
      | Some pos \<Rightarrow>
          buildSimNodes tun positions rScale (Suc i) rest
            (m(i \<mapsto> length ns), ns @ [newNode tun rScale i (length ns) n pos]))"

text \<open>Lines 131 to 133 write the index of each node into it once more.\<close>

definition fixSimIdx :: "sim_node list \<Rightarrow> sim_node list" where
  "fixSimIdx ns = map (\<lambda>(k, n). n\<lparr> node_simIdx := k \<rparr>) (enumerate 0 ns)"

text \<open>
  Lines 136 to 143: a link is kept when both its ends have a node and its weight is not
  below the minimum render weight.
\<close>

fun buildRenderLinks :: "tuning \<Rightarrow> (nat \<rightharpoonup> nat) \<Rightarrow> raw_link list \<Rightarrow> render_link list" where
  "buildRenderLinks tun m [] = []"
| "buildRenderLinks tun m (l # ls) =
     (case m (rl_source l) of
        None \<Rightarrow> buildRenderLinks tun m ls
      | Some s \<Rightarrow>
          (case m (rl_target l) of
             None \<Rightarrow> buildRenderLinks tun m ls
           | Some t \<Rightarrow>
               (if rl_weight l < MIN_RENDER_WEIGHT tun then buildRenderLinks tun m ls
                else \<lparr> lk_si = s, lk_ti = t, lk_weight = rl_weight l \<rparr>
                       # buildRenderLinks tun m ls)))"

text \<open>Lines 147 to 151: the weight at the middle index, when there is a link at all.\<close>

definition computeMedian :: "render_link list \<Rightarrow> int \<Rightarrow> int" where
  "computeMedian rl old =
     (if length rl > 0 then (let weights = map lk_weight rl in weights ! (length weights div 2))
      else old)"

text \<open>Lines 154 to 158: the number of link ends on each node.\<close>

definition bumpDegree :: "(nat \<rightharpoonup> nat) \<Rightarrow> nat \<Rightarrow> (nat \<rightharpoonup> nat)" where
  "bumpDegree d i = d(i \<mapsto> (case d i of None \<Rightarrow> 0 | Some c \<Rightarrow> c) + 1)"

definition computeDegrees :: "render_link list \<Rightarrow> (nat \<rightharpoonup> nat)" where
  "computeDegrees rl = foldl (\<lambda>d l. bumpDegree (bumpDegree d (lk_si l)) (lk_ti l)) Map.empty rl"

text \<open>Lines 161 to 169: fresh link objects for the heaviest links, for the physics.\<close>

definition buildForceLinks :: "tuning \<Rightarrow> render_link list \<Rightarrow> force_link list" where
  "buildForceLinks tun rl =
     (let forceCount = min (length rl) (MAX_FORCE_LINKS tun)
      in map (\<lambda>i. \<lparr> fl_source = Idx (lk_si (rl ! i)), fl_target = Idx (lk_ti (rl ! i)),
                     fl_weight = lk_weight (rl ! i) \<rparr>) [0 ..< forceCount])"

subsection \<open>Rendering\<close>

definition toScreenX :: "state \<Rightarrow> real \<Rightarrow> real" where
  "toScreenX s sx = sx * t_k (transform s) + t_x (transform s)"

definition toScreenY :: "state \<Rightarrow> real \<Rightarrow> real" where
  "toScreenY s sy = sy * t_k (transform s) + t_y (transform s)"

definition fromScreenX :: "state \<Rightarrow> real \<Rightarrow> real" where
  "fromScreenX s px = (px - t_x (transform s)) / t_k (transform s)"

definition fromScreenY :: "state \<Rightarrow> real \<Rightarrow> real" where
  "fromScreenY s py = (py - t_y (transform s)) / t_k (transform s)"

text \<open>
  What \<^verbatim>\<open>render\<close> does to the state (lines 324 and 344 to 351): nothing when the
  view is inactive or not loaded; otherwise it counts down the frames that skip the
  edges and, when the count reaches zero, requests one more frame.
\<close>

definition render :: "state \<Rightarrow> state" where
  "render s =
     (if \<not> active s \<or> \<not> layoutLoaded s then s
      else if skipEdgeFrames s > 0 then
        (let s1 = s\<lparr> skipEdgeFrames := skipEdgeFrames s - 1 \<rparr>
         in if skipEdgeFrames s1 = 0
            then s1\<lparr> pendingFrames := pendingFrames s1 @ [FrameRender] \<rparr> else s1)
      else s)"

text \<open>Lines 356 to 358: the weight below which an edge is not drawn, by zoom band.\<close>

definition lodThreshold :: "tuning \<Rightarrow> real \<Rightarrow> int \<Rightarrow> real" where
  "lodThreshold tun k m =
     (if k < 0.8 then real_of_int m
      else if k < 1.5 then real_of_int m * 0.6
      else if k < 3.0 then real_of_int m * 0.3
      else real_of_int (MIN_RENDER_WEIGHT tun))"

definition edgeStyle :: "int \<Rightarrow> string" where
  "edgeStyle w =
     (if w \<ge> 500 then ''#FF4488'' else if w \<ge> 200 then ''#FF8833''
      else if w \<ge> 100 then ''#DDDD33'' else ''#66AADD'')"

text \<open>
  The loop of lines 379 to 411 decides for each render link, in this order: culled by
  the level of detail, culled by the filter, culled by the viewport, or drawn in the
  colour of its weight. Reading a node that does not exist makes the loop throw.
\<close>

datatype edge_fate = CulledLOD | CulledFilter | CulledViewport | Drawn string | EdgeError

definition edgeFate :: "tuning \<Rightarrow> steam_data option \<Rightarrow> state \<Rightarrow> render_link \<Rightarrow> edge_fate" where
  "edgeFate tun data s link =
     (if real_of_int (lk_weight link) < lodThreshold tun (t_k (transform s)) (medianWeight s)
      then CulledLOD
      else if \<not> (lk_si link < length (simNodes s) \<and> lk_ti link < length (simNodes s))
      then EdgeError
      else
        (let sn = heap s ! (simNodes s ! lk_si link);
             tn = heap s ! (simNodes s ! lk_ti link);
             filterActive = (case data of None \<Rightarrow> False | Some d \<Rightarrow> sd_filterActive d);
             passes = (case data of None \<Rightarrow> (\<lambda>g. True) | Some d \<Rightarrow> sd_gamePassesFilter d);
             filtered = (case (node_game sn, node_game tn) of
                           (Some gs, Some gt) \<Rightarrow> filterActive \<and> \<not> passes gs \<and> \<not> passes gt
                         | _ \<Rightarrow> False);
             sx = toScreenX s (node_x sn); sy = toScreenY s (node_y sn);
             ex = toScreenX s (node_x tn); ey = toScreenY s (node_y tn);
             vx0 = - 40; vy0 = - 40; vx1 = width s + 40; vy1 = height s + 40
         in if filtered then CulledFilter
            else if (sx < vx0 \<and> ex < vx0) \<or> (sx > vx1 \<and> ex > vx1) \<or>
                    (sy < vy0 \<and> ey < vy0) \<or> (sy > vy1 \<and> ey > vy1)
            then CulledViewport
            else Drawn (edgeStyle (lk_weight link))))"

text \<open>
  The edge pass of one frame: it runs when the view is active and loaded, the frames
  that skip the edges are used up and there is a render link.
\<close>

definition edgePass :: "tuning \<Rightarrow> steam_data option \<Rightarrow> state \<Rightarrow> edge_fate list" where
  "edgePass tun data s =
     (if active s \<and> layoutLoaded s \<and> skipEdgeFrames s \<le> 0 \<and> length (renderLinks s) > 0
      then map (edgeFate tun data s) (renderLinks s) else [])"

definition edgesCulledLOD :: "tuning \<Rightarrow> steam_data option \<Rightarrow> state \<Rightarrow> nat" where
  "edgesCulledLOD tun data s = length (filter (\<lambda>f. f = CulledLOD) (edgePass tun data s))"

definition edgesPassingLOD :: "tuning \<Rightarrow> steam_data option \<Rightarrow> state \<Rightarrow> nat" where
  "edgesPassingLOD tun data s = length (filter (\<lambda>f. f \<noteq> CulledLOD) (edgePass tun data s))"

subsection \<open>Fitting the network to the viewport\<close>

text \<open>
  The zoom handler of line 707, which d3 calls with the transform that
  \<^verbatim>\<open>zoomBehavior.transform\<close> was given (that call does not clamp the scale).
\<close>

definition onZoom :: "zoom_transform \<Rightarrow> state \<Rightarrow> state" where
  "onZoom t s =
     (let s1 = s\<lparr> transform := t \<rparr>
      in (case simulation s1 of
            None \<Rightarrow> render s1
          | Some sim \<Rightarrow> if sim_alpha sim < 0.005 then render s1 else s1))"

text \<open>
  The bounding box of lines 258 to 264. A bound is \<open>None\<close> while it is still the
  infinity it starts from.
\<close>

definition lower :: "real option \<Rightarrow> real \<Rightarrow> real option" where
  "lower b v = (case b of None \<Rightarrow> Some v | Some c \<Rightarrow> if v < c then Some v else Some c)"

definition upper :: "real option \<Rightarrow> real \<Rightarrow> real option" where
  "upper b v = (case b of None \<Rightarrow> Some v | Some c \<Rightarrow> if v > c then Some v else Some c)"

type_synonym bbox = "real option \<times> real option \<times> real option \<times> real option"

definition grow :: "bbox \<Rightarrow> sim_node \<Rightarrow> bbox" where
  "grow b n =
     (case b of (x0, y0, x1, y1) \<Rightarrow>
        (lower x0 (node_x n), lower y0 (node_y n), upper x1 (node_x n), upper y1 (node_y n)))"

definition boundingBox :: "sim_node list \<Rightarrow> bbox" where
  "boundingBox ns = foldl grow (None, None, None, None) ns"

definition orElse :: "real \<Rightarrow> real \<Rightarrow> real" where
  "orElse v d = (if v = 0 then d else v)"

definition fitTransform :: "real \<Rightarrow> real \<Rightarrow> real \<Rightarrow> sim_node list \<Rightarrow> zoom_transform option" where
  "fitTransform w h pad ns =
     (case boundingBox ns of
        (Some x0, Some y0, Some x1, Some y1) \<Rightarrow>
          (let dataW = orElse (x1 - x0) 100;
               dataH = orElse (y1 - y0) 100;
               k = min ((w - pad) / dataW) ((h - pad) / dataH);
               cx = (x0 + x1) / 2;
               cy = (y0 + y1) / 2
           in Some (scale k (translate (w / 2 - cx * k) (h / 2 - cy * k) zoomIdentity)))
      | _ \<Rightarrow> None)"

definition fitToScreen :: "state \<Rightarrow> state" where
  "fitToScreen s =
     (if length (simNodes s) = 0 then s
      else (case fitTransform (width s) (height s) 140 (nodes_of s) of
              None \<Rightarrow> s
            | Some t \<Rightarrow>
                (let s1 = s\<lparr> transform := t \<rparr>
                 in if zoomBehavior s1 then onZoom t s1 else s1)))"

subsection \<open>Controls of the simulation\<close>

text \<open>
  Modelled from the spec: \<^verbatim>\<open>restart\<close>, \<^verbatim>\<open>stop\<close>, \<^verbatim>\<open>alpha\<close> and \<^verbatim>\<open>alphaTarget\<close> of
  d3's simulation, not among the sources: the timer is started or stopped, and the
  energy or its target is set.
\<close>

definition restart :: "d3_simulation \<Rightarrow> d3_simulation" where
  "restart sim = sim\<lparr> sim_running := True \<rparr>"

definition stop :: "d3_simulation \<Rightarrow> d3_simulation" where
  "stop sim = sim\<lparr> sim_running := False \<rparr>"

definition set_alpha :: "real \<Rightarrow> d3_simulation \<Rightarrow> d3_simulation" where
  "set_alpha v sim = sim\<lparr> sim_alpha := v \<rparr>"

definition set_alphaTarget :: "real \<Rightarrow> d3_simulation \<Rightarrow> d3_simulation" where
  "set_alphaTarget v sim = sim\<lparr> sim_alphaTarget := v \<rparr>"

definition withSim :: "(d3_simulation \<Rightarrow> d3_simulation) \<Rightarrow> state \<Rightarrow> state" where
  "withSim f s = s\<lparr> simulation := map_option f (simulation s) \<rparr>"

subsection \<open>Creating the simulation\<close>

definition maxWeightOf :: "force_link list \<Rightarrow> int" where
  "maxWeightOf ls = (case ls of [] \<Rightarrow> 1 | l # _ \<Rightarrow> fl_weight l)"

text \<open>
  The four forces with the parameters that \<^verbatim>\<open>initSimulation\<close> and the fresh layout
  of \<^verbatim>\<open>exportRender\<close> both register: charge, link, center and collide.
\<close>

definition defaultForces :: "tuning \<Rightarrow> force_link list \<Rightarrow> int \<Rightarrow> d3_simulation \<Rightarrow> d3_simulation" where
  "defaultForces tun ls maxWeight sim0 =
     (let sim1 = set_force ''charge'' (Some (ManyBody (- 10) (SIM_SPREAD tun * 1.5) 0.9)) sim0;
          sim2 = set_force ''link'' (Some (Link ls 25 0.008 0.04 maxWeight)) sim1;
          sim3 = set_force ''center'' (Some (Center 0.008)) sim2
      in set_force ''collide'' (Some (Collide 0.5 0.15)) sim3)"

text \<open>
  \<^verbatim>\<open>initSimulation\<close> (lines 226 to 247). The link force resolves the ends of the
  objects of \<^verbatim>\<open>forceLinks\<close> in place, so the module's array holds the resolved links
  afterwards. The result is \<open>None\<close> when d3 throws on a link end without a node.
\<close>

definition initSimulation :: "tuning \<Rightarrow> state \<Rightarrow> state option" where
  "initSimulation tun s =
     (let maxWeight = maxWeightOf (forceLinks s)
      in (case forceSimulation (simNodes s) (heap s) of
            (sim0, h0) \<Rightarrow>
              (case forceLink_initialize (simNodes s) (forceLinks s) of
                 None \<Rightarrow> None
               | Some ls \<Rightarrow>
                   (let sim4 = defaultForces tun ls maxWeight sim0;
                        sim5 = sim4\<lparr> sim_alphaDecay := 0.028, sim_alphaMin := 0.005,
                                     sim_velocityDecay := 1 - 0.45, sim_alpha := 0.3,
                                     sim_onTick := True, sim_running := False \<rparr>
                    in Some (s\<lparr> heap := h0, forceLinks := ls, simulation := Some sim5 \<rparr>)))))"

text \<open>
  \<^verbatim>\<open>loadAndBuild\<close> (lines 71 to 184). \<open>resp\<close> is the layout file as fetched and parsed
  (\<open>None\<close> when the request or the parsing fails) and \<open>steamData\<close> is
  \<^verbatim>\<open>window._steamData\<close>. Every exception ends in the \<^verbatim>\<open>catch\<close> block, which sets
  \<^verbatim>\<open>layoutError\<close>. New node objects are allocated at the end of the store.
\<close>

definition loadAndBuild :: "tuning \<Rightarrow> layout_data option \<Rightarrow> steam_data option \<Rightarrow> state \<Rightarrow> state" where
  "loadAndBuild tun resp steamData s =
     (case resp of
        None \<Rightarrow> s\<lparr> layoutError := True \<rparr>
      | Some layoutData \<Rightarrow>
          (let positions = ld_positions layoutData;
               s1 = (case ld_communities layoutData of
                       None \<Rightarrow> s
                     | Some c \<Rightarrow>
                         s\<lparr> communitiesData := Some c,
                            numCommunities := (case ld_num_communities layoutData of
                                                 None \<Rightarrow> 0 | Some n \<Rightarrow> n) \<rparr>)
           in (case steamData of
                 None \<Rightarrow> s1\<lparr> layoutError := True \<rparr>
               | Some sd \<Rightarrow>
                   (let nodes = sd_nodes sd;
                        links = sd_links sd;
                        maxReviews = maxReviewsOf positions nodes;
                        rScale = scaleSqrt 0 maxReviews (NODE_MIN_R tun) (NODE_MAX_R tun);
                        built = buildSimNodes tun positions rScale 0 nodes (Map.empty, []);
                        simIdxByOrigIdx = fst built;
                        objs = fixSimIdx (snd built);
                        base = length (heap s1);
                        s2 = s1\<lparr> heap := heap s1 @ objs,
                                 simNodes := [base ..< base + length objs] \<rparr>;
                        rl = sort_by byWeightDesc (buildRenderLinks tun simIdxByOrigIdx links);
                        s3 = s2\<lparr> renderLinks := rl \<rparr>;
                        s4 = s3\<lparr> medianWeight := computeMedian rl (medianWeight s3) \<rparr>;
                        s5 = s4\<lparr> nodeDegree := Some (computeDegrees rl) \<rparr>;
                        s6 = s5\<lparr> forceLinks := buildForceLinks tun rl \<rparr>;
                        s7 = s6\<lparr> layoutLoaded := True \<rparr>
                    in (case initSimulation tun s7 of
                          None \<Rightarrow> s7\<lparr> layoutError := True \<rparr>
                        | Some s8 \<Rightarrow>
                            (if active s8 then
                               withSim (restart \<circ> set_alpha 0.3) (fitToScreen s8)
                             else s8))))))"

subsection \<open>The timer of the simulation\<close>

text \<open>\<^verbatim>\<open>onTick\<close> (lines 249 to 252), the listener of the simulation's tick event.\<close>

definition onTick :: "state \<Rightarrow> state" where
  "onTick s =
     (let s1 = s\<lparr> tickCount := tickCount s + 1 \<rparr>
      in if active s1 then render s1 else s1)"

text \<open>
  Modelled from the spec: the timer of d3's simulation, not among the sources. One
  firing of the timer, which only a running simulation has: a tick,
  the tick event, and the timer stops once the energy is below its minimum.
\<close>

definition timerStep :: "d3env \<Rightarrow> state \<Rightarrow> state" where
  "timerStep env s =
     (case simulation s of
        None \<Rightarrow> s
      | Some sim \<Rightarrow>
          (if \<not> sim_running sim then s
           else (case tick env sim (heap s) of
                   (sim1, h1) \<Rightarrow>
                     (let s1 = s\<lparr> simulation := Some sim1, heap := h1 \<rparr>;
                          s2 = (if sim_onTick sim1 then onTick s1 else s1)
                      in if sim_alpha sim1 < sim_alphaMin sim1 then withSim stop s2 else s2))))"

subsection \<open>Node sizes and the mode setters\<close>

definition sizeValue :: "state \<Rightarrow> sim_node \<Rightarrow> real" where
  "sizeValue s n =
     (if sizeMode s = ''rating'' then (case node_game n of Some g \<Rightarrow> g_rating g | None \<Rightarrow> 50)
      else if sizeMode s = ''price'' then (case node_game n of Some g \<Rightarrow> g_price g | None \<Rightarrow> 0)
      else if sizeMode s = ''connections'' then
        (case nodeDegree s of
           None \<Rightarrow> 0
         | Some deg \<Rightarrow> (case deg (node_simIdx n) of None \<Rightarrow> 0 | Some c \<Rightarrow> real c))
      else node_reviews n)"

definition set_radius :: "store \<Rightarrow> addr \<times> real \<Rightarrow> store" where
  "set_radius h av = h[fst av := (h ! fst av)\<lparr> node_r := snd av \<rparr>]"

text \<open>\<^verbatim>\<open>recalcNodeSizes\<close> (lines 187 to 223).\<close>

definition recalcNodeSizes :: "tuning \<Rightarrow> state \<Rightarrow> state" where
  "recalcNodeSizes tun s =
     (if length (simNodes s) = 0 then s
      else
        (let vals = map (sizeValue s) (nodes_of s);
             maxVal = foldl (\<lambda>m v. if v > m then v else m) 0 vals;
             sc = (if sizeMode s = ''rating''
                   then scaleLinear 0 100 (NODE_MIN_R tun) (NODE_MAX_R tun)
                   else scaleSqrt 0 (orElse maxVal 1) (NODE_MIN_R tun) (NODE_MAX_R tun));
             s1 = s\<lparr> heap := foldl set_radius (heap s) (zip (simNodes s) (map sc vals)) \<rparr>
         in withSim (set_force ''collide'' (Some (Collide 0.5 0.15))) s1))"

text \<open>\<^verbatim>\<open>setSizeMode\<close> (lines 1031 to 1042).\<close>

definition setSizeMode :: "tuning \<Rightarrow> string \<Rightarrow> state \<Rightarrow> state" where
  "setSizeMode tun mode s =
     (let s1 = recalcNodeSizes tun (s\<lparr> sizeMode := mode \<rparr>)
      in if simulation s1 \<noteq> None \<and> active s1 then withSim (restart \<circ> set_alpha 0.05) s1
         else if active s1 then render s1
         else s1)"

text \<open>
  The force parameters of each layout mode (lines 1050 to 1096). Registering the link
  force initialises it again on \<^verbatim>\<open>forceLinks\<close>.
\<close>

definition layoutForces ::
  "tuning \<Rightarrow> steam_data option \<Rightarrow> string \<Rightarrow> force_link list \<Rightarrow> int \<Rightarrow> d3_simulation \<Rightarrow> d3_simulation" where
  "layoutForces tun data mode ls maxWeight sim =
     (if mode = ''tight'' then
        set_force ''y'' None (set_force ''x'' None
          (set_force ''center'' (Some (Center 0.03))
            (set_force ''link'' (Some (Link ls 12 0.02 0.08 maxWeight))
              (set_force ''charge'' (Some (ManyBody (- 5) (SIM_SPREAD tun * 0.8) 0.9)) sim))))
      else if mode = ''spread'' then
        set_force ''y'' None (set_force ''x'' None
          (set_force ''center'' (Some (Center 0.002))
            (set_force ''link'' (Some (Link ls 50 0.003 0.015 maxWeight))
              (set_force ''charge'' (Some (ManyBody (- 25) (SIM_SPREAD tun * 3) 0.8)) sim))))
      else if mode = ''clustered'' then
        (let genreCount = (case data of None \<Rightarrow> 14 | Some d \<Rightarrow> sd_genreCount d);
             maxG = min 14 genreCount;
             angleStep = (2 * pi) / real maxG;
             clusterR = SIM_SPREAD tun * 0.6
         in set_force ''y'' (Some (PosY maxG angleStep clusterR 0.04))
              (set_force ''x'' (Some (PosX maxG angleStep clusterR 0.04))
                (set_force ''center'' (Some (Center 0.005))
                  (set_force ''link'' (Some (Link ls 20 0.006 0.03 maxWeight))
                    (set_force ''charge'' (Some (ManyBody (- 8) (SIM_SPREAD tun * 1.2) 0.9)) sim)))))
      else
        set_force ''y'' None (set_force ''x'' None
          (set_force ''center'' (Some (Center 0.008))
            (set_force ''link'' (Some (Link ls 25 0.008 0.04 maxWeight))
              (set_force ''charge'' (Some (ManyBody (- 10) (SIM_SPREAD tun * 1.5) 0.9)) sim)))))"

text \<open>
  \<^verbatim>\<open>setLayoutMode\<close> (lines 1044 to 1099). Should d3 throw on a link end without a
  node, the call ends there, the mode already stored.
\<close>

definition setLayoutMode :: "tuning \<Rightarrow> steam_data option \<Rightarrow> string \<Rightarrow> state \<Rightarrow> state" where
  "setLayoutMode tun data mode s =
     (let s1 = s\<lparr> layoutMode := mode \<rparr>
      in if simulation s1 = None \<or> \<not> active s1 then s1
         else
           (let maxWeight = maxWeightOf (forceLinks s1)
            in (case forceLink_initialize (simNodes s1) (forceLinks s1) of
                  None \<Rightarrow> s1
                | Some ls \<Rightarrow>
                    withSim (restart \<circ> set_alpha 0.4 \<circ> layoutForces tun data mode ls maxWeight)
                      (s1\<lparr> forceLinks := ls \<rparr>))))"

text \<open>\<^verbatim>\<open>setGroupMode\<close> (lines 1101 to 1110).\<close>

definition setGroupMode :: "string \<Rightarrow> state \<Rightarrow> state" where
  "setGroupMode mode s =
     (if \<not> (mode \<in> set [''genre'', ''community'']) then s
      else (let s1 = s\<lparr> groupMode := mode \<rparr> in if active s1 then render s1 else s1))"

subsection \<open>Pointer, keyboard and life cycle\<close>

text \<open>
  A call either returns (\<open>Ok\<close>) or throws a \<^verbatim>\<open>TypeError\<close> on a \<^verbatim>\<open>null\<close> simulation
  (\<open>Throws\<close>); both carry the state reached.
\<close>

datatype outcome = Ok state | Throws state

definition stateOf :: "outcome \<Rightarrow> state" where
  "stateOf r = (case r of Ok s \<Rightarrow> s | Throws s \<Rightarrow> s)"

text \<open>\<^verbatim>\<open>hitTest\<close> (lines 664 to 686); the closest distance starts at infinity (\<open>None\<close>).\<close>

definition hitStep :: "state \<Rightarrow> real \<Rightarrow> real \<Rightarrow> addr option \<times> real option \<Rightarrow> addr \<Rightarrow> addr option \<times> real option" where
  "hitStep s lx ly acc a =
     (let node = heap s ! a;
          dx = node_x node - lx;
          dy = node_y node - ly;
          d = sqrt (dx * dx + dy * dy);
          hitR = node_r node + (20 / t_k (transform s)) * 0.5
      in if d < hitR \<and> (case snd acc of None \<Rightarrow> True | Some c \<Rightarrow> d < c)
         then (Some a, Some d) else acc)"

definition hitTest :: "real \<Rightarrow> real \<Rightarrow> state \<Rightarrow> addr option" where
  "hitTest mx my s =
     (if \<not> layoutLoaded s then None
      else fst (foldl (hitStep s (fromScreenX s mx) (fromScreenY s my)) (None, None) (simNodes s)))"

text \<open>\<^verbatim>\<open>startDrag\<close>, \<^verbatim>\<open>onDragMove\<close> and \<^verbatim>\<open>onDragEnd\<close> (lines 719 to 758).\<close>

definition startDrag :: "addr \<Rightarrow> state \<Rightarrow> outcome" where
  "startDrag a s =
     (let n = heap s ! a;
          s1 = s\<lparr> draggedNode := Some a,
                  heap := (heap s)[a := n\<lparr> node_fx := Some (node_x n), node_fy := Some (node_y n) \<rparr>] \<rparr>
      in (case simulation s1 of
            None \<Rightarrow> Throws s1
          | Some sim \<Rightarrow>
              Ok (s1\<lparr> simulation := Some (restart (set_alphaTarget 0.3 sim)),
                      dragListeners := True \<rparr>)))"

definition onDragMove :: "real \<Rightarrow> real \<Rightarrow> state \<Rightarrow> state" where
  "onDragMove mx my s =
     (case draggedNode s of
        None \<Rightarrow> s
      | Some a \<Rightarrow>
          s\<lparr> heap := (heap s)[a := (heap s ! a)\<lparr> node_fx := Some (fromScreenX s mx),
                                                 node_fy := Some (fromScreenY s my) \<rparr>] \<rparr>)"

definition onDragEnd :: "state \<Rightarrow> outcome" where
  "onDragEnd s =
     (case draggedNode s of
        None \<Rightarrow> Ok s
      | Some a \<Rightarrow>
          (let s1 = s\<lparr> heap := (heap s)[a := (heap s ! a)\<lparr> node_fx := None, node_fy := None \<rparr>],
                       draggedNode := None \<rparr>
           in (case simulation s1 of
                 None \<Rightarrow> Throws s1
               | Some sim \<Rightarrow>
                   Ok (s1\<lparr> simulation := Some (set_alphaTarget 0 sim),
                           dragListeners := False \<rparr>))))"

text \<open>The filter of the zoom behaviour on a pointer press (lines 696 to 703).\<close>

definition onPointerDown :: "real \<Rightarrow> real \<Rightarrow> state \<Rightarrow> outcome" where
  "onPointerDown mx my s = (case hitTest mx my s of None \<Rightarrow> Ok s | Some a \<Rightarrow> startDrag a s)"

text \<open>\<^verbatim>\<open>onMouseMove\<close> and \<^verbatim>\<open>onMouseLeave\<close> (lines 761 to 800).\<close>

definition renderIfIdle :: "state \<Rightarrow> state" where
  "renderIfIdle s =
     (case simulation s of
        None \<Rightarrow> render s
      | Some sim \<Rightarrow> if sim_alpha sim < 0.005 then render s else s)"

definition onMouseMove :: "real \<Rightarrow> real \<Rightarrow> state \<Rightarrow> state" where
  "onMouseMove mx my s =
     (if draggedNode s \<noteq> None then s
      else if \<not> layoutLoaded s then s
      else (let hit = hitTest mx my s
            in if hit \<noteq> hoveredNode s then renderIfIdle (s\<lparr> hoveredNode := hit \<rparr>) else s))"

definition onMouseLeave :: "state \<Rightarrow> state" where
  "onMouseLeave s =
     (if draggedNode s \<noteq> None then s else renderIfIdle (s\<lparr> hoveredNode := None \<rparr>))"

text \<open>The callback of the touch-hold timer (lines 829 to 832), when the timer fires.\<close>

definition touchHoldFire :: "state \<Rightarrow> state" where
  "touchHoldFire s =
     (case touchHoldTimer s of
        None \<Rightarrow> s
      | Some hit \<Rightarrow> renderIfIdle (s\<lparr> touchHoldTimer := None, hoveredNode := Some hit \<rparr>))"

text \<open>\<^verbatim>\<open>resize\<close>, with the size of the window, and \<^verbatim>\<open>onResize\<close>.\<close>

definition resize :: "real \<Rightarrow> real \<Rightarrow> state \<Rightarrow> state" where
  "resize w h s = s\<lparr> width := w, height := h \<rparr>"

definition onResize :: "real \<Rightarrow> real \<Rightarrow> state \<Rightarrow> state" where
  "onResize w h s =
     (if \<not> active s then s
      else (let s1 = resize w h s in if layoutLoaded s1 then render s1 else s1))"

text \<open>\<^verbatim>\<open>onKeyDown\<close> (lines 911 to 920).\<close>

definition onKeyDown :: "string \<Rightarrow> state \<Rightarrow> state" where
  "onKeyDown key s =
     (if \<not> active s then s
      else if key = ''r'' \<or> key = ''R'' then withSim (restart \<circ> set_alpha 0.5) s
      else if key = ''f'' \<or> key = ''F'' then fitToScreen s
      else s)"

text \<open>
  \<^verbatim>\<open>activate\<close> (lines 993 to 1013) requests a frame; \<open>runFrame\<close> is the browser running
  the oldest requested frame: the callback of \<^verbatim>\<open>activate\<close> or the one of line 349.
\<close>

definition activate :: "real \<Rightarrow> real \<Rightarrow> state \<Rightarrow> state" where
  "activate w h s =
     (let s1 = resize w h (s\<lparr> active := True, skipEdgeFrames := 3 \<rparr>)
      in s1\<lparr> pendingFrames := pendingFrames s1 @ [FrameActivate] \<rparr>)"

definition frameCallback :: "frame_cb \<Rightarrow> state \<Rightarrow> state" where
  "frameCallback cb s =
     (case cb of
        FrameRender \<Rightarrow> (if active s then render s else s)
      | FrameActivate \<Rightarrow>
          (if \<not> active s then s
           else if layoutLoaded s then
             (let s1 = fitToScreen s;
                  s2 = (case simulation s1 of
                          None \<Rightarrow> s1
                        | Some sim \<Rightarrow> if sim_alpha sim > 0.005 then withSim restart s1 else s1)
              in render s2)
           else s))"

definition runFrame :: "state \<Rightarrow> state" where
  "runFrame s =
     (case pendingFrames s of
        [] \<Rightarrow> s
      | cb # rest \<Rightarrow> frameCallback cb (s\<lparr> pendingFrames := rest \<rparr>))"

text \<open>\<^verbatim>\<open>deactivate\<close> (lines 1015 to 1024).\<close>

definition deactivate :: "state \<Rightarrow> state" where
  "deactivate s =
     (let s1 = s\<lparr> active := False \<rparr>;
          s2 = withSim stop s1
      in (case touchHoldTimer s2 of None \<Rightarrow> s2 | Some t \<Rightarrow> s2\<lparr> touchHoldTimer := None \<rparr>))"

definition onFilterChange :: "state \<Rightarrow> state" where
  "onFilterChange s = (if \<not> active s then s else render s)"

subsection \<open>Search: \<^verbatim>\<open>selectGame\<close>\<close>

text \<open>
  \<^verbatim>\<open>String.prototype.toLowerCase\<close> belongs to JavaScript and is not among the
  sources. It is the parameter \<open>toLowerCase\<close> of the search, a function on strings of
  which nothing is assumed, so that what is proved of the search holds for the
  lower-casing of the whole of Unicode that JavaScript does.

  Line 1281: a node matches a lower-cased title when it has a title that is not empty
  and whose lower-casing is that title.
\<close>

definition titleMatches :: "(js_string \<Rightarrow> js_string) \<Rightarrow> js_string \<Rightarrow> sim_node \<Rightarrow> bool" where
  "titleMatches toLowerCase title n =
     (case node_title n of None \<Rightarrow> False | Some t \<Rightarrow> t \<noteq> [] \<and> toLowerCase t = title)"

text \<open>
  The two loops of lines 1275 to 1283: the first node with this very game object, or
  else the first node with the game's title, letter case aside.
\<close>

definition findTarget :: "(js_string \<Rightarrow> js_string) \<Rightarrow> game \<Rightarrow> state \<Rightarrow> addr option" where
  "findTarget toLowerCase g s =
     (let title = toLowerCase (g_title g)
      in (case find (\<lambda>a. same_game (node_game (heap s ! a)) g) (simNodes s) of
            Some a \<Rightarrow> Some a
          | None \<Rightarrow> find (\<lambda>a. titleMatches toLowerCase title (heap s ! a)) (simNodes s)))"

text \<open>
  \<^verbatim>\<open>selectGame\<close> (lines 1269 to 1301), with its return value. The animated transition
  that the zoom behaviour runs afterwards towards the same transform is not modelled.
\<close>

definition selectGame :: "(js_string \<Rightarrow> js_string) \<Rightarrow> game \<Rightarrow> state \<Rightarrow> bool \<times> state" where
  "selectGame toLowerCase g s =
     (if \<not> layoutLoaded s \<or> length (simNodes s) = 0 then (False, s)
      else (case findTarget toLowerCase g s of
              None \<Rightarrow> (False, s)
            | Some a \<Rightarrow>
                (let target = heap s ! a;
                     targetK = 6;
                     tx = width s / 2 - node_x target * targetK;
                     ty = height s / 2 - node_y target * targetK;
                     s1 = s\<lparr> transform := scale targetK (translate tx ty zoomIdentity) \<rparr>;
                     s2 = s1\<lparr> selectedNode := Some a, hoveredNode := Some a \<rparr>
                 in (True, render s2))))"

subsection \<open>The export: \<^verbatim>\<open>exportRender\<close>\<close>

text \<open>
  The canvas that \<^verbatim>\<open>exportRender\<close> returns is described by its size, the fit it
  computed and the edge segments and node circles drawn on it; the labels, which depend
  on the measures of the font, are left out.
\<close>

record export_canvas =
  c_width :: real
  c_height :: real
  c_k :: real
  c_tx :: real
  c_ty :: real
  c_segments :: "(string \<times> real \<times> real \<times> real \<times> real) list"
  c_circles :: "(real \<times> real \<times> real) list"

datatype export_result = Null | Canvas export_canvas | ExportThrows

text \<open>Line 1157: \<^verbatim>\<open>for (let i = 0; i < 500 && sim.alpha() > 0.001; i++) sim.tick();\<close>\<close>

fun settle :: "d3env \<Rightarrow> nat \<Rightarrow> d3_simulation \<Rightarrow> store \<Rightarrow> d3_simulation \<times> store" where
  "settle env 0 sim h = (sim, h)"
| "settle env (Suc n) sim h =
     (if sim_alpha sim > 0.001
      then (case tick env sim h of (sim', h') \<Rightarrow> settle env n sim' h')
      else (sim, h))"

text \<open>
  The branch \<^verbatim>\<open>layoutSource === 'fresh'\<close> (lines 1141 to 1157): copies of the node
  objects are allocated at the end of the store, the physics links are copied field by
  field, and a new simulation runs on the copies. The result is \<open>None\<close> when d3 throws.
\<close>

definition freshLayout :: "d3env \<Rightarrow> tuning \<Rightarrow> state \<Rightarrow> (addr list \<times> store) option" where
  "freshLayout env tun s =
     (let base = length (heap s);
          copies = nodes_of s;
          nodes = [base ..< base + length copies];
          maxWeight = maxWeightOf (forceLinks s);
          freshLinks = map (\<lambda>l. \<lparr> fl_source = fl_source l, fl_target = fl_target l,
                                   fl_weight = fl_weight l \<rparr>) (forceLinks s)
      in (case forceSimulation nodes (heap s @ copies) of
            (sim0, h1) \<Rightarrow>
              (case forceLink_initialize nodes freshLinks of
                 None \<Rightarrow> None
               | Some ls \<Rightarrow>
                   (let sim4 = defaultForces tun ls maxWeight sim0;
                        sim5 = sim4\<lparr> sim_alphaDecay := 0.028, sim_alphaMin := 0.001,
                                     sim_velocityDecay := 1 - 0.45, sim_alpha := 1,
                                     sim_running := False \<rparr>
                    in Some (nodes, snd (settle env 500 sim5 h1))))))"

definition drawExport :: "real \<Rightarrow> real \<Rightarrow> render_link list \<Rightarrow> sim_node list \<Rightarrow> export_canvas option" where
  "drawExport w h links ns =
     (case boundingBox ns of
        (Some x0, Some y0, Some x1, Some y1) \<Rightarrow>
          (let dataW = orElse (x1 - x0) 100;
               dataH = orElse (y1 - y0) 100;
               padPx = real_of_int \<lfloor>w * 0.04 + 0.5\<rfloor>;
               k = min ((w - padPx * 2) / dataW) ((h - padPx * 2) / dataH);
               tx = w / 2 - ((x0 + x1) / 2) * k;
               ty = h / 2 - ((y0 + y1) / 2) * k;
               seg = (\<lambda>l. if lk_si l < length ns \<and> lk_ti l < length ns
                           then [(edgeStyle (lk_weight l),
                                  node_x (ns ! lk_si l) * k + tx, node_y (ns ! lk_si l) * k + ty,
                                  node_x (ns ! lk_ti l) * k + tx, node_y (ns ! lk_ti l) * k + ty)]
                           else []);
               circle = (\<lambda>n. (node_x n * k + tx, node_y n * k + ty, max 1 (node_r n * min k 4)))
           in Some \<lparr> c_width = w, c_height = h, c_k = k, c_tx = tx, c_ty = ty,
                     c_segments = concat (map seg links), c_circles = map circle ns \<rparr>)
      | _ \<Rightarrow> None)"

text \<open>
  \<^verbatim>\<open>exportRender\<close> (lines 1126 to 1267). The bounding box of a node list that is not
  empty always exists, so the last \<open>ExportThrows\<close> is never reached.
\<close>

definition exportRender ::
  "d3env \<Rightarrow> tuning \<Rightarrow> real \<Rightarrow> real \<Rightarrow> string \<Rightarrow> state \<Rightarrow> export_result \<times> state" where
  "exportRender env tun w h layoutSource s =
     (if \<not> layoutLoaded s \<or> length (simNodes s) = 0 then (Null, s)
      else
        (case (if layoutSource = ''fresh'' then freshLayout env tun s
               else Some (simNodes s, heap s)) of
           None \<Rightarrow> (ExportThrows, s)
         | Some (nodes, h1) \<Rightarrow>
             (case drawExport w h (renderLinks s) (map (\<lambda>a. h1 ! a) nodes) of
                None \<Rightarrow> (ExportThrows, s\<lparr> heap := h1 \<rparr>)
              | Some c \<Rightarrow> (Canvas c, s\<lparr> heap := h1 \<rparr>))))"

subsection \<open>Events while the view is not shown\<close>

text \<open>
  The events that can reach the module other than a call of \<^verbatim>\<open>activate\<close> and a
  pointer press on the canvas.
\<close>

datatype event =
    EvFrame
  | EvTimer
  | EvKeyDown string
  | EvSetSizeMode string
  | EvSetLayoutMode string
  | EvSetGroupMode string
  | EvFilterChange
  | EvResize real real
  | EvDragMove real real
  | EvDragEnd
  | EvMouseMove real real
  | EvMouseLeave
  | EvTouchHold
  | EvLoaded "layout_data option" "steam_data option"

definition handle :: "d3env \<Rightarrow> tuning \<Rightarrow> steam_data option \<Rightarrow> state \<Rightarrow> event \<Rightarrow> state" where
  "handle env tun data s e =
     (case e of
        EvFrame \<Rightarrow> runFrame s
      | EvTimer \<Rightarrow> timerStep env s
      | EvKeyDown key \<Rightarrow> onKeyDown key s
      | EvSetSizeMode mode \<Rightarrow> setSizeMode tun mode s
      | EvSetLayoutMode mode \<Rightarrow> setLayoutMode tun data mode s
      | EvSetGroupMode mode \<Rightarrow> setGroupMode mode s
      | EvFilterChange \<Rightarrow> onFilterChange s
      | EvResize w h \<Rightarrow> onResize w h s
      | EvDragMove mx my \<Rightarrow> onDragMove mx my s
      | EvDragEnd \<Rightarrow> stateOf (onDragEnd s)
      | EvMouseMove mx my \<Rightarrow> onMouseMove mx my s
      | EvMouseLeave \<Rightarrow> onMouseLeave s
      | EvTouchHold \<Rightarrow> touchHoldFire s
      | EvLoaded resp steamData \<Rightarrow> loadAndBuild tun resp steamData s)"

definition stopped :: "state \<Rightarrow> bool" where
  "stopped s = (case simulation s of None \<Rightarrow> True | Some sim \<Rightarrow> \<not> sim_running sim)"

subsection \<open>Auxiliary notions for the statements\<close>

text \<open>
  The parts of a successful build, named: the index map with the new node objects, and
  the render links. \<open>idx_below m n\<close> says that every index the map gives is below
  \<open>n\<close>. \<open>unresolved\<close> is the physics link made from a render link, \<open>resolved\<close> the
  same link once d3 has put the node objects in.
\<close>

definition builtPair :: "tuning \<Rightarrow> layout_data \<Rightarrow> steam_data \<Rightarrow> (nat \<rightharpoonup> nat) \<times> sim_node list" where
  "builtPair tun ld sd =
     buildSimNodes tun (ld_positions ld)
       (scaleSqrt 0 (maxReviewsOf (ld_positions ld) (sd_nodes sd)) (NODE_MIN_R tun) (NODE_MAX_R tun))
       0 (sd_nodes sd) (Map.empty, [])"

definition builtLinks :: "tuning \<Rightarrow> layout_data \<Rightarrow> steam_data \<Rightarrow> render_link list" where
  "builtLinks tun ld sd =
     sort_by byWeightDesc (buildRenderLinks tun (fst (builtPair tun ld sd)) (sd_links sd))"

definition idx_below :: "(nat \<rightharpoonup> nat) \<Rightarrow> nat \<Rightarrow> bool" where
  "idx_below m n = (\<forall>i k. m i = Some k \<longrightarrow> k < n)"

definition resolved :: "addr list \<Rightarrow> render_link \<Rightarrow> force_link" where
  "resolved nodes l = \<lparr> fl_source = Ref (nodes ! lk_si l), fl_target = Ref (nodes ! lk_ti l),
                        fl_weight = lk_weight l \<rparr>"

definition unresolved :: "render_link \<Rightarrow> force_link" where
  "unresolved l = \<lparr> fl_source = Idx (lk_si l), fl_target = Idx (lk_ti l), fl_weight = lk_weight l \<rparr>"

subsection \<open>Concrete inputs\<close>

text \<open>
  Scenario A of the specification: nodes A, B and C at the normalised positions
  (0,0), (1,0) and (0,1), with the edges (A,B) of weight 10 and (B,C) of weight 600.
  \<open>scenarioData w W\<close> is the same graph with the weights \<open>w\<close> and \<open>W\<close> on the two
  edges. The specification runs the scenario with a minimum render weight of 5
  (\<open>tuningA\<close>); in the module the minimum is the constant 50 of \<open>TUNING\<close>.
\<close>

definition plainNode :: "string \<Rightarrow> raw_node" where
  "plainNode name =
     \<lparr> rn_id = name, rn_title = Some (utf16 name), rn_game = None, rn_reviews = Some 0 \<rparr>"

definition layoutA :: layout_data where
  "layoutA = \<lparr> ld_positions = [''A'' \<mapsto> (0, 0), ''B'' \<mapsto> (1, 0), ''C'' \<mapsto> (0, 1)],
               ld_communities = None, ld_num_communities = None \<rparr>"

definition dataA :: steam_data where
  "dataA = \<lparr> sd_nodes = [plainNode ''A'', plainNode ''B'', plainNode ''C''],
             sd_links = [\<lparr> rl_source = 0, rl_target = 1, rl_weight = 10 \<rparr>,
                         \<lparr> rl_source = 1, rl_target = 2, rl_weight = 600 \<rparr>],
             sd_genreCount = 0, sd_filterActive = False, sd_gamePassesFilter = (\<lambda>g. True) \<rparr>"

definition scenarioData :: "int \<Rightarrow> int \<Rightarrow> steam_data" where
  "scenarioData w W =
     \<lparr> sd_nodes = [plainNode ''A'', plainNode ''B'', plainNode ''C''],
       sd_links = [\<lparr> rl_source = 0, rl_target = 1, rl_weight = w \<rparr>,
                   \<lparr> rl_source = 1, rl_target = 2, rl_weight = W \<rparr>],
       sd_genreCount = 0, sd_filterActive = False, sd_gamePassesFilter = (\<lambda>g. True) \<rparr>"

definition tuningA :: tuning where
  "tuningA = TUNING\<lparr> MIN_RENDER_WEIGHT := 5 \<rparr>"

text \<open>The same three nodes with two edges of one weight, under the module's constants.\<close>

definition dataTie :: steam_data where
  "dataTie = \<lparr> sd_nodes = [plainNode ''A'', plainNode ''B'', plainNode ''C''],
               sd_links = [\<lparr> rl_source = 0, rl_target = 1, rl_weight = 100 \<rparr>,
                           \<lparr> rl_source = 1, rl_target = 2, rl_weight = 100 \<rparr>],
               sd_genreCount = 0, sd_filterActive = False, sd_gamePassesFilter = (\<lambda>g. True) \<rparr>"

definition tuningA1 :: tuning where
  "tuningA1 = tuningA\<lparr> MAX_FORCE_LINKS := 1 \<rparr>"

text \<open>Three edges of weights 60, 600 and 100, all above the module's minimum of 50.\<close>

definition dataB :: steam_data where
  "dataB = \<lparr> sd_nodes = [plainNode ''A'', plainNode ''B'', plainNode ''C''],
             sd_links = [\<lparr> rl_source = 0, rl_target = 1, rl_weight = 60 \<rparr>,
                         \<lparr> rl_source = 1, rl_target = 2, rl_weight = 600 \<rparr>,
                         \<lparr> rl_source = 0, rl_target = 2, rl_weight = 100 \<rparr>],
             sd_genreCount = 0, sd_filterActive = False, sd_gamePassesFilter = (\<lambda>g. True) \<rparr>"

text \<open>No edge at all.\<close>

definition dataNoLinks :: steam_data where
  "dataNoLinks = \<lparr> sd_nodes = [plainNode ''A'', plainNode ''B'', plainNode ''C''],
                   sd_links = [], sd_genreCount = 0, sd_filterActive = False,
                   sd_gamePassesFilter = (\<lambda>g. True) \<rparr>"

text \<open>
  A state seen in an active view of 800 by 600 pixels whose edge frames are no longer
  skipped, at zoom factor \<open>k\<close> around the centre of the viewport.
\<close>

definition viewAt :: "real \<Rightarrow> state \<Rightarrow> state" where
  "viewAt k s = s\<lparr> active := True, skipEdgeFrames := 0, width := 800, height := 600,
                   transform := \<lparr> t_k = k, t_x = 400, t_y = 300 \<rparr> \<rparr>"

text \<open>
  The module after loading Scenario A, and after loading the three-edge graph, both
  under the constants of the module.
\<close>

definition builtA :: state where
  "builtA = loadAndBuild TUNING (Some layoutA) (Some dataA) init_state"

definition builtB :: state where
  "builtB = loadAndBuild TUNING (Some layoutA) (Some dataB) init_state"

text \<open>
  \<open>nodesValid\<close>: every reference in \<^verbatim>\<open>simNodes\<close> is the address of an object of the
  store. \<open>positionOf\<close> and \<open>pinOf\<close> read the position and the fixed position of the
  object at an address; \<open>forcesApplied\<close> is the store of a tick after its forces and
  before its integration.
\<close>

definition nodesValid :: "state \<Rightarrow> bool" where
  "nodesValid s = list_all (\<lambda>a. a < length (heap s)) (simNodes s)"

definition positionOf :: "addr \<Rightarrow> state \<Rightarrow> real \<times> real" where
  "positionOf a s = (node_x (heap s ! a), node_y (heap s ! a))"

definition pinOf :: "addr \<Rightarrow> state \<Rightarrow> real option \<times> real option" where
  "pinOf a s = (node_fx (heap s ! a), node_fy (heap s ! a))"

definition forcesApplied :: "d3env \<Rightarrow> d3_simulation \<Rightarrow> store \<Rightarrow> store" where
  "forcesApplied env sim h =
     foldl (apply_force env (sim_alpha sim + (sim_alphaTarget sim - sim_alpha sim) * sim_alphaDecay sim)
              (sim_nodes sim)) h (map snd (sim_forces sim))"

text \<open>
  Two environments for d3: in \<open>envStill\<close> the abstract forces leave every node as it is,
  in \<open>envPush\<close> they set the velocity of every node to 10 in both directions.
\<close>

definition kinOf :: "sim_node \<Rightarrow> kin" where
  "kinOf n = (node_x n, node_y n, node_vx n, node_vy n)"

definition envStill :: d3env where
  "envStill = \<lparr> jiggle = 1 / 1000000, bodyForce = (\<lambda>f alpha ns. map kinOf ns) \<rparr>"

definition envPush :: d3env where
  "envPush = \<lparr> jiggle = 1 / 1000000,
               bodyForce = (\<lambda>f alpha ns. map (\<lambda>n. (node_x n, node_y n, 10, 10)) ns) \<rparr>"


definition lowerASCII :: "js_string \<Rightarrow> js_string" where
  "lowerASCII str = map (\<lambda>c. if 65 \<le> c \<and> c \<le> 90 then c + 32 else c) str"

definition gameB :: game where
  "gameB = \<lparr> g_ref = 7, g_title = utf16 ''b'', g_rating = 90, g_reviews = 1000, g_price = 10,
             g_genres = [0] \<rparr>"


text \<open>
  Relations between a node before and after an operation, and between two stores of
  one length: \<open>agree A R h h'\<close> relates the objects at every address in \<open>A\<close> by \<open>R\<close>.
\<close>

definition keepsPos :: "sim_node \<Rightarrow> sim_node \<Rightarrow> bool" where
  "keepsPos n n' = (node_x n' = node_x n \<and> node_y n' = node_y n)"

definition keepsPin :: "sim_node \<Rightarrow> sim_node \<Rightarrow> bool" where
  "keepsPin n n' = (node_fx n' = node_fx n \<and> node_fy n' = node_fy n)"

definition agree :: "addr set \<Rightarrow> (sim_node \<Rightarrow> sim_node \<Rightarrow> bool) \<Rightarrow> store \<Rightarrow> store \<Rightarrow> bool" where
  "agree A R h h' = (length h' = length h \<and> (\<forall>a \<in> A. R (h ! a) (h' ! a)))"

definition keepsBoth :: "sim_node \<Rightarrow> sim_node \<Rightarrow> bool" where
  "keepsBoth n n' = (keepsPos n n' \<and> keepsPin n n')"

text \<open>
  \<open>heldAt a px py s\<close>: the object at address \<open>a\<close> is a node of the simulation and has
  the fixed position \<open>(px, py)\<close>.
\<close>

definition heldAt :: "addr \<Rightarrow> real \<Rightarrow> real \<Rightarrow> state \<Rightarrow> bool" where
  "heldAt a px py s =
     ((case simulation s of None \<Rightarrow> False | Some sim \<Rightarrow> a \<in> set (sim_nodes sim)) \<and>
      a < length (heap s) \<and> pinOf a s = (Some px, Some py))"

text \<open>
  \<open>linkBC\<close> is the physics link of Scenario A once d3 has resolved its ends: from the
  object of node B, at address 1, to the object of node C, at address 2. \<open>pulled h\<close>
  describes a store of six objects in which the objects at these two addresses carry
  the indices 1 and 2 and, each moved by its velocity, lie more than the link distance
  25 apart, the second to the left of and below the first on the screen.
\<close>

definition linkBC :: force_link where
  "linkBC = \<lparr> fl_source = Ref 1, fl_target = Ref 2, fl_weight = 600 \<rparr>"

definition pulled :: "store \<Rightarrow> bool" where
  "pulled h =
     (let ex = node_x (h ! 2) + node_vx (h ! 2) - node_x (h ! 1) - node_vx (h ! 1);
          ey = node_y (h ! 2) + node_vy (h ! 2) - node_y (h ! 1) - node_vy (h ! 1)
      in length h = 6 \<and> node_index (h ! 1) = 1 \<and> node_index (h ! 2) = 2 \<and>
         ex < 0 \<and> 0 < ey \<and> 625 < ex * ex + ey * ey)"

text \<open>
  \<open>quiet\<close>: the view is not active and its simulation, if there is one, is stopped.
  \<open>foundA\<close> is Scenario A activated in a viewport of 800 by 600 pixels, with node B
  found by a search, which selects and hovers it and puts it at the centre of the
  viewport; \<open>busyA\<close> is that state with a drag started on node B.
\<close>

definition quiet :: "state \<Rightarrow> bool" where
  "quiet s = (\<not> active s \<and> stopped s)"

definition foundA :: state where
  "foundA = snd (selectGame lowerASCII gameB (activate 800 600 builtA))"

definition busyA :: state where
  "busyA = stateOf (startDrag 1 foundA)"


section \<open>Properties\<close>

subsection \<open>The stable sort\<close>

lemma set_insert_by: "set (insert_by cmp a xs) = insert a (set xs)"
  by (induction xs) auto

lemma set_sort_by: "set (sort_by cmp xs) = set xs"
  unfolding sort_by_def by (induction xs) (auto simp: set_insert_by)

lemma length_insert_by: "length (insert_by cmp a xs) = Suc (length xs)"
  by (induction xs) auto

lemma length_sort_by: "length (sort_by cmp xs) = length xs"
  unfolding sort_by_def by (induction xs) (auto simp: length_insert_by)

lemma sorted_insert_by:
  "sorted_wrt (\<lambda>a b. lk_weight b \<le> lk_weight a) xs \<Longrightarrow>
   sorted_wrt (\<lambda>a b. lk_weight b \<le> lk_weight a) (insert_by byWeightDesc a xs)"
  by (induction xs) (auto simp: set_insert_by byWeightDesc_def)

lemma sorted_sort_by:
  "sorted_wrt (\<lambda>a b. lk_weight b \<le> lk_weight a) (sort_by byWeightDesc xs)"
  unfolding sort_by_def by (induction xs) (auto simp: sorted_insert_by)

subsection \<open>What the helpers leave alone\<close>

lemma render_frame:
  "renderLinks (render s) = renderLinks s" "forceLinks (render s) = forceLinks s"
  "medianWeight (render s) = medianWeight s" "simNodes (render s) = simNodes s"
  "heap (render s) = heap s" "simulation (render s) = simulation s"
  "transform (render s) = transform s" "hoveredNode (render s) = hoveredNode s"
  "selectedNode (render s) = selectedNode s" "draggedNode (render s) = draggedNode s"
  "active (render s) = active s" "layoutLoaded (render s) = layoutLoaded s"
  "width (render s) = width s" "height (render s) = height s"
  "sizeMode (render s) = sizeMode s" "layoutMode (render s) = layoutMode s"
  "groupMode (render s) = groupMode s" "touchHoldTimer (render s) = touchHoldTimer s"
  "zoomBehavior (render s) = zoomBehavior s"
  by (simp_all add: render_def Let_def)

lemma onZoom_frame:
  "renderLinks (onZoom t s) = renderLinks s" "forceLinks (onZoom t s) = forceLinks s"
  "medianWeight (onZoom t s) = medianWeight s" "simNodes (onZoom t s) = simNodes s"
  "heap (onZoom t s) = heap s" "simulation (onZoom t s) = simulation s"
  "hoveredNode (onZoom t s) = hoveredNode s"
  "selectedNode (onZoom t s) = selectedNode s" "draggedNode (onZoom t s) = draggedNode s"
  "active (onZoom t s) = active s" "layoutLoaded (onZoom t s) = layoutLoaded s"
  "transform (onZoom t s) = t" "width (onZoom t s) = width s" "height (onZoom t s) = height s"
  by (simp_all add: onZoom_def Let_def render_frame split: option.splits)

lemma fitToScreen_frame:
  "renderLinks (fitToScreen s) = renderLinks s" "forceLinks (fitToScreen s) = forceLinks s"
  "medianWeight (fitToScreen s) = medianWeight s" "simNodes (fitToScreen s) = simNodes s"
  "heap (fitToScreen s) = heap s" "simulation (fitToScreen s) = simulation s"
  "hoveredNode (fitToScreen s) = hoveredNode s"
  "selectedNode (fitToScreen s) = selectedNode s" "draggedNode (fitToScreen s) = draggedNode s"
  "active (fitToScreen s) = active s" "layoutLoaded (fitToScreen s) = layoutLoaded s"
  "width (fitToScreen s) = width s" "height (fitToScreen s) = height s"
  by (simp_all add: fitToScreen_def Let_def onZoom_frame split: option.splits)

lemma withSim_frame:
  "renderLinks (withSim f s) = renderLinks s" "forceLinks (withSim f s) = forceLinks s"
  "medianWeight (withSim f s) = medianWeight s" "simNodes (withSim f s) = simNodes s"
  "heap (withSim f s) = heap s" "transform (withSim f s) = transform s"
  "hoveredNode (withSim f s) = hoveredNode s"
  "selectedNode (withSim f s) = selectedNode s" "draggedNode (withSim f s) = draggedNode s"
  "active (withSim f s) = active s" "layoutLoaded (withSim f s) = layoutLoaded s"
  "width (withSim f s) = width s" "height (withSim f s) = height s"
  "simulation (withSim f s) = map_option f (simulation s)"
  by (simp_all add: withSim_def)

lemma initSimulation_frame:
  assumes "initSimulation tun s = Some s'"
  shows "renderLinks s' = renderLinks s" "medianWeight s' = medianWeight s"
    "simNodes s' = simNodes s" "active s' = active s" "layoutLoaded s' = layoutLoaded s"
    "transform s' = transform s"
  using assms by (auto simp: initSimulation_def Let_def split: prod.splits option.splits)

subsection \<open>The build\<close>

lemma loadAndBuild_renderLinks:
  "renderLinks (loadAndBuild tun (Some ld) (Some sd) s) = builtLinks tun ld sd"
  by (auto simp: loadAndBuild_def Let_def builtLinks_def builtPair_def fitToScreen_frame
      withSim_frame initSimulation_frame split: option.splits)

lemma loadAndBuild_medianWeight:
  "medianWeight (loadAndBuild tun (Some ld) (Some sd) s) =
     computeMedian (builtLinks tun ld sd) (medianWeight s)"
  by (auto simp: loadAndBuild_def Let_def builtLinks_def builtPair_def fitToScreen_frame
      withSim_frame initSimulation_frame split: option.splits)

lemma buildSimNodes_below:
  "idx_below (fst acc) (length (snd acc)) \<Longrightarrow>
   idx_below (fst (buildSimNodes tun ps rs i ns acc)) (length (snd (buildSimNodes tun ps rs i ns acc)))"
proof (induction ns arbitrary: i acc)
  case Nil
  then show ?case by simp
next
  case (Cons n ns)
  obtain m xs where acc: "acc = (m, xs)" by (cases acc)
  show ?case
  proof (cases "ps (rn_id n)")
    case None
    then show ?thesis using Cons acc by simp
  next
    case (Some pos)
    define acc' where "acc' = (m(i \<mapsto> length xs), xs @ [newNode tun rs i (length xs) n pos])"
    have "idx_below (fst acc') (length (snd acc'))"
      using Cons.prems acc by (auto simp: idx_below_def less_Suc_eq acc'_def)
    from Cons.IH [OF this, of "Suc i"] show ?thesis
      unfolding acc acc'_def using Some by simp
  qed
qed

lemma builtPair_below: "idx_below (fst (builtPair tun ld sd)) (length (snd (builtPair tun ld sd)))"
  unfolding builtPair_def by (rule buildSimNodes_below) (simp add: idx_below_def)

lemma buildRenderLinks_below:
  "idx_below m n \<Longrightarrow> l \<in> set (buildRenderLinks tun m ls) \<Longrightarrow> lk_si l < n \<and> lk_ti l < n"
  by (induction ls) (auto simp: idx_below_def split: option.splits if_splits)

lemma buildRenderLinks_weight:
  "l \<in> set (buildRenderLinks tun m ls) \<Longrightarrow> MIN_RENDER_WEIGHT tun \<le> lk_weight l"
  by (induction ls) (auto split: option.splits if_splits)

lemma builtLinks_below:
  "l \<in> set (builtLinks tun ld sd) \<Longrightarrow>
   lk_si l < length (snd (builtPair tun ld sd)) \<and> lk_ti l < length (snd (builtPair tun ld sd))"
  unfolding builtLinks_def set_sort_by
  using buildRenderLinks_below [OF builtPair_below] by blast

lemma builtLinks_weight:
  "l \<in> set (builtLinks tun ld sd) \<Longrightarrow> MIN_RENDER_WEIGHT tun \<le> lk_weight l"
  unfolding builtLinks_def set_sort_by by (rule buildRenderLinks_weight)

lemma buildForceLinks_take: "buildForceLinks tun rl = map unresolved (take (MAX_FORCE_LINKS tun) rl)"
proof -
  have "map (\<lambda>i. unresolved (rl ! i)) [0 ..< min (length rl) (MAX_FORCE_LINKS tun)]
        = map unresolved (take (MAX_FORCE_LINKS tun) rl)"
    by (rule nth_equalityI) simp_all
  then show ?thesis by (simp add: buildForceLinks_def Let_def unresolved_def)
qed

lemma forceLink_initialize_unresolved:
  "(\<And>l. l \<in> set ls \<Longrightarrow> lk_si l < length nodes \<and> lk_ti l < length nodes) \<Longrightarrow>
   forceLink_initialize nodes (map unresolved ls) = Some (map (resolved nodes) ls)"
  by (induction ls) (auto simp: unresolved_def resolved_def resolve_def)

lemma length_fixSimIdx: "length (fixSimIdx ns) = length ns"
  by (simp add: fixSimIdx_def)

lemma loadAndBuild_forceLinks:
  "forceLinks (loadAndBuild tun (Some ld) (Some sd) s) =
     map (resolved (simNodes (loadAndBuild tun (Some ld) (Some sd) s)))
       (take (MAX_FORCE_LINKS tun) (builtLinks tun ld sd))"
proof -
  define s1 where "s1 = (case ld_communities ld of None \<Rightarrow> s
       | Some c \<Rightarrow> s\<lparr> communitiesData := Some c,
            numCommunities := (case ld_num_communities ld of None \<Rightarrow> 0 | Some n \<Rightarrow> n) \<rparr>)"
  define base where "base = length (heap s1)"
  define nodes where "nodes = [base ..< base + length (snd (builtPair tun ld sd))]"
  define rl where "rl = builtLinks tun ld sd"
  have len: "length nodes = length (snd (builtPair tun ld sd))" by (simp add: nodes_def)
  have ok: "forceLink_initialize nodes (map unresolved (take (MAX_FORCE_LINKS tun) rl))
            = Some (map (resolved nodes) (take (MAX_FORCE_LINKS tun) rl))"
    by (rule forceLink_initialize_unresolved)
       (metis builtLinks_below in_set_takeD len rl_def)
  show ?thesis
    using ok
    by (auto simp: loadAndBuild_def Let_def builtLinks_def [symmetric] builtPair_def [symmetric]
        fitToScreen_frame withSim_frame initSimulation_def buildForceLinks_take
        length_fixSimIdx s1_def [symmetric] base_def [symmetric] nodes_def [symmetric]
        rl_def [symmetric]
        split: option.splits prod.splits)
qed

subsection \<open>The concrete inputs, evaluated\<close>

lemma builtPair_A_idx:
  "fst (builtPair tun layoutA dataA) = [0 \<mapsto> 0, 1 \<mapsto> 1, 2 \<mapsto> 2]"
  by (simp add: builtPair_def layoutA_def dataA_def plainNode_def numeral_2_eq_2)

lemma builtPair_Tie_idx:
  "fst (builtPair tun layoutA dataTie) = [0 \<mapsto> 0, 1 \<mapsto> 1, 2 \<mapsto> 2]"
  by (simp add: builtPair_def layoutA_def dataTie_def plainNode_def numeral_2_eq_2)

lemma links_A:
  "sd_links dataA = [\<lparr> rl_source = 0, rl_target = 1, rl_weight = 10 \<rparr>,
                     \<lparr> rl_source = 1, rl_target = 2, rl_weight = 600 \<rparr>]"
  by (simp add: dataA_def)

lemma links_Tie:
  "sd_links dataTie = [\<lparr> rl_source = 0, rl_target = 1, rl_weight = 100 \<rparr>,
                       \<lparr> rl_source = 1, rl_target = 2, rl_weight = 100 \<rparr>]"
  by (simp add: dataTie_def)

lemma builtLinks_A:
  "builtLinks TUNING layoutA dataA = [\<lparr> lk_si = 1, lk_ti = 2, lk_weight = 600 \<rparr>]"
  by (simp add: builtLinks_def builtPair_A_idx links_A sort_by_def byWeightDesc_def TUNING_def)

lemma builtPair_scenario_idx:
  "fst (builtPair tun layoutA (scenarioData w W)) = [0 \<mapsto> 0, 1 \<mapsto> 1, 2 \<mapsto> 2]"
  by (simp add: builtPair_def layoutA_def scenarioData_def plainNode_def numeral_2_eq_2)

lemma links_scenario:
  "sd_links (scenarioData w W) = [\<lparr> rl_source = 0, rl_target = 1, rl_weight = w \<rparr>,
                                  \<lparr> rl_source = 1, rl_target = 2, rl_weight = W \<rparr>]"
  by (simp add: scenarioData_def)

lemma builtLinks_scenario:
  "MIN_RENDER_WEIGHT tun \<le> w \<Longrightarrow> w < W \<Longrightarrow>
   builtLinks tun layoutA (scenarioData w W) =
     [\<lparr> lk_si = 1, lk_ti = 2, lk_weight = W \<rparr>, \<lparr> lk_si = 0, lk_ti = 1, lk_weight = w \<rparr>]"
  by (simp add: builtLinks_def builtPair_scenario_idx links_scenario sort_by_def byWeightDesc_def)

lemma builtLinks_Tie:
  "builtLinks TUNING layoutA dataTie =
     [\<lparr> lk_si = 0, lk_ti = 1, lk_weight = 100 \<rparr>, \<lparr> lk_si = 1, lk_ti = 2, lk_weight = 100 \<rparr>]"
  by (simp add: builtLinks_def builtPair_Tie_idx links_Tie sort_by_def byWeightDesc_def TUNING_def)

lemma builtLinks_A5:
  "MIN_RENDER_WEIGHT tun = 5 \<Longrightarrow> builtLinks tun layoutA dataA =
     [\<lparr> lk_si = 1, lk_ti = 2, lk_weight = 600 \<rparr>, \<lparr> lk_si = 0, lk_ti = 1, lk_weight = 10 \<rparr>]"
  by (simp add: builtLinks_def builtPair_A_idx links_A sort_by_def byWeightDesc_def)

lemma links_B:
  "sd_links dataB = [\<lparr> rl_source = 0, rl_target = 1, rl_weight = 60 \<rparr>,
                         \<lparr> rl_source = 1, rl_target = 2, rl_weight = 600 \<rparr>,
                         \<lparr> rl_source = 0, rl_target = 2, rl_weight = 100 \<rparr>]"
  by (simp add: dataB_def)

lemma builtPair_B_idx:
  "fst (builtPair tun layoutA dataB) = [0 \<mapsto> 0, 1 \<mapsto> 1, 2 \<mapsto> 2]"
  by (simp add: builtPair_def layoutA_def dataB_def plainNode_def numeral_2_eq_2)

lemma builtLinks_B:
  "builtLinks TUNING layoutA dataB =
     [\<lparr> lk_si = 1, lk_ti = 2, lk_weight = 600 \<rparr>, \<lparr> lk_si = 0, lk_ti = 2, lk_weight = 100 \<rparr>,
      \<lparr> lk_si = 0, lk_ti = 1, lk_weight = 60 \<rparr>]"
  by (simp add: builtLinks_def builtPair_B_idx links_B sort_by_def byWeightDesc_def TUNING_def)

lemma builtLinks_NoLinks: "builtLinks tun layoutA dataNoLinks = []"
  by (simp add: builtLinks_def dataNoLinks_def sort_by_def)

subsection \<open>Edge ordering\<close>

text \<open>
  Claim C1, as amended. After a build that loaded its data, the render links are in
  descending order of weight, links of equal weight being allowed next to each other,
  and the physics links are the first \<open>min(MAX_FORCE_LINKS, renderLinks.length)\<close> render
  links: there are exactly that many, and the physics link at each index below that
  number has the weight of the render link at the index and, for its ends, the node
  objects at the indices that the render link names.
\<close>

theorem loadAndBuild_edge_order:
  "let s' = loadAndBuild tun (Some ld) (Some sd) s;
       n = min (MAX_FORCE_LINKS tun) (length (renderLinks s'))
   in sorted_wrt (\<lambda>a b. lk_weight b \<le> lk_weight a) (renderLinks s') \<and>
      length (forceLinks s') = n \<and>
      (\<forall>i<n. fl_source (forceLinks s' ! i) = Ref (simNodes s' ! lk_si (renderLinks s' ! i)) \<and>
             fl_target (forceLinks s' ! i) = Ref (simNodes s' ! lk_ti (renderLinks s' ! i)) \<and>
             fl_weight (forceLinks s' ! i) = lk_weight (renderLinks s' ! i))"
  by (simp add: Let_def loadAndBuild_renderLinks loadAndBuild_forceLinks builtLinks_def
      sorted_sort_by resolved_def min.commute)

text \<open>
  Scenario A with room for one physics link: two render links, and the one physics link
  is the heavier of them, between the objects of the nodes B and C.
\<close>

theorem loadAndBuild_edge_order_witness:
  "let s' = loadAndBuild tuningA1 (Some layoutA) (Some dataA) init_state
   in length (renderLinks s') = 2 \<and> length (forceLinks s') = 1 \<and> (0::nat) < 1 \<and>
      fl_source (forceLinks s' ! 0) = Ref (simNodes s' ! 1) \<and>
      fl_target (forceLinks s' ! 0) = Ref (simNodes s' ! 2) \<and>
      fl_weight (forceLinks s' ! 0) = 600"
  using loadAndBuild_edge_order [of tuningA1 layoutA dataA init_state]
  by (simp add: Let_def loadAndBuild_renderLinks builtLinks_A5 tuningA1_def tuningA_def TUNING_def)

text \<open>
  Claim C1 as stated asks for a strictly descending order. Two edges of weight 100 are
  both kept, so the render links are not strictly descending.
\<close>

theorem loadAndBuild_strict_order_counterexample:
  "\<not> sorted_wrt (\<lambda>a b. lk_weight b < lk_weight a)
       (renderLinks (loadAndBuild TUNING (Some layoutA) (Some dataTie) init_state))"
  by (simp add: loadAndBuild_renderLinks builtLinks_Tie)

subsection \<open>The median weight\<close>

text \<open>
  Claim C2, as amended. The build sorts the render links by descending weight and
  stores as median the weight at index \<open>floor(n / 2)\<close> of the \<open>n\<close> sorted links,
  adjacent weights not being averaged. When there is no render link the variable is
  not assigned: it keeps the value it had before the build, which is the 0 that the
  module declares it with when nothing has been built before.
\<close>

theorem loadAndBuild_median:
  "(let s' = loadAndBuild tun (Some ld) (Some sd) s; rl = renderLinks s'
    in sorted_wrt (\<lambda>a b. lk_weight b \<le> lk_weight a) rl \<and>
       medianWeight s' =
         (if rl = [] then medianWeight s else map lk_weight rl ! (length rl div 2))) \<and>
   medianWeight init_state = 0"
  by (simp add: Let_def loadAndBuild_renderLinks loadAndBuild_medianWeight computeMedian_def
      builtLinks_def sorted_sort_by init_state_def)

text \<open>
  Under the constants of the module, two edges of weights 100 and 6000 have the median
  100, the weight at index 1, and not the average 3050; a first build without edges
  leaves the median 0.
\<close>

theorem loadAndBuild_median_witness:
  "medianWeight (loadAndBuild TUNING (Some layoutA) (Some (scenarioData 100 6000)) init_state) = 100 \<and>
   medianWeight (loadAndBuild TUNING (Some layoutA) (Some dataNoLinks) init_state) = 0"
  using loadAndBuild_median [of TUNING layoutA "scenarioData 100 6000" init_state]
        loadAndBuild_median [of TUNING layoutA dataNoLinks init_state]
  by (simp add: Let_def loadAndBuild_renderLinks builtLinks_scenario builtLinks_NoLinks TUNING_def)

text \<open>
  Claim C2 as stated gives the median of an empty render set a configured floor value.
  There is none: under the same constants, a build without edges leaves the median 0
  when it is the first build and 100 when it follows the build of the edges 60, 600
  and 100, whose median it keeps.
\<close>

theorem loadAndBuild_stale_median_counterexample:
  "renderLinks (loadAndBuild TUNING (Some layoutA) (Some dataNoLinks) init_state) = [] \<and>
   medianWeight (loadAndBuild TUNING (Some layoutA) (Some dataNoLinks) init_state) = 0 \<and>
   renderLinks (loadAndBuild TUNING (Some layoutA) (Some dataNoLinks) builtB) = [] \<and>
   medianWeight (loadAndBuild TUNING (Some layoutA) (Some dataNoLinks) builtB) = 100"
  by (simp add: loadAndBuild_renderLinks loadAndBuild_medianWeight builtLinks_NoLinks
      computeMedian_def init_state_def builtB_def builtLinks_B)


lemma min_weight_TUNING: "MIN_RENDER_WEIGHT TUNING = 50"
  by (simp add: TUNING_def)

lemma min_weight_tuningA: "MIN_RENDER_WEIGHT tuningA = 5"
  by (simp add: tuningA_def)

lemma edgeFate_LOD:
  "(edgeFate tun data s l = CulledLOD) =
   (real_of_int (lk_weight l) < lodThreshold tun (t_k (transform s)) (medianWeight s))"
  by (auto simp: edgeFate_def Let_def split: prod.splits option.splits)

lemma edgesPassingLOD_eq:
  "edgesPassingLOD tun data s =
     (if active s \<and> layoutLoaded s \<and> skipEdgeFrames s \<le> 0 \<and> renderLinks s \<noteq> []
      then length (filter (\<lambda>l. \<not> real_of_int (lk_weight l)
                 < lodThreshold tun (t_k (transform s)) (medianWeight s)) (renderLinks s))
      else 0)"
  by (simp add: edgesPassingLOD_def edgePass_def filter_map o_def edgeFate_LOD)

lemma edgesCulledLOD_eq:
  "edgesCulledLOD tun data s =
     (if active s \<and> layoutLoaded s \<and> skipEdgeFrames s \<le> 0 \<and> renderLinks s \<noteq> []
      then length (filter (\<lambda>l. real_of_int (lk_weight l)
                 < lodThreshold tun (t_k (transform s)) (medianWeight s)) (renderLinks s))
      else 0)"
  by (simp add: edgesCulledLOD_def edgePass_def filter_map o_def edgeFate_LOD)

lemma length_filter_mono:
  "(\<And>x. x \<in> set xs \<Longrightarrow> P x \<Longrightarrow> Q x) \<Longrightarrow> length (filter P xs) \<le> length (filter Q xs)"
  by (induction xs) auto

lemma computeMedian_mem:
  "rl \<noteq> [] \<Longrightarrow> computeMedian rl m0 \<in> lk_weight ` set rl"
proof -
  assume ne: "rl \<noteq> []"
  then have "length rl div 2 < length rl" by simp
  then have "map lk_weight rl ! (length rl div 2) \<in> set (map lk_weight rl)"
    by (metis length_map nth_mem)
  then show ?thesis using ne by (simp add: computeMedian_def Let_def)
qed

lemma lodThreshold_mono:
  assumes "0 \<le> m" "k1 \<le> k2" "k2 < 3"
  shows "lodThreshold tun k2 m \<le> lodThreshold tun k1 m"
proof -
  have m: "0 \<le> real_of_int m" using assms(1) by simp
  have a: "real_of_int m * 0.6 \<le> real_of_int m" using m by simp
  have b: "real_of_int m * 0.3 \<le> real_of_int m * 0.6" using m by simp
  have c: "real_of_int m * 0.3 \<le> real_of_int m" using m by simp
  show ?thesis using assms(2,3) a b c by (auto simp: lodThreshold_def)
qed

subsection \<open>Level of detail\<close>

text \<open>
  Claim C5. Take a state whose render-link weights are all at least the minimum render
  weight and whose median weight is the one the build computes from these links. The
  number of render links that pass the level-of-detail test of the edge pass does not
  decrease when the zoom factor grows, whatever bands (below 0.8, below 1.5, below 3,
  from 3 on) the two zoom factors lie in.
\<close>

theorem lod_monotone:
  assumes weights: "\<forall>l \<in> set (renderLinks s). MIN_RENDER_WEIGHT TUNING \<le> lk_weight l"
      and median: "medianWeight s = computeMedian (renderLinks s) m0"
      and zoom: "t_k t1 \<le> t_k t2"
  shows "edgesPassingLOD TUNING data (s\<lparr> transform := t1 \<rparr>)
           \<le> edgesPassingLOD TUNING data (s\<lparr> transform := t2 \<rparr>)"
proof (cases "renderLinks s = []")
  case True
  then show ?thesis by (simp add: edgesPassingLOD_eq)
next
  case False
  from computeMedian_mem [OF False, of m0] obtain l where
    l: "l \<in> set (renderLinks s)" "medianWeight s = lk_weight l"
    using median by auto
  have m0: "0 \<le> medianWeight s" using weights l by (auto simp: TUNING_def)
  have "length (filter (\<lambda>l. \<not> real_of_int (lk_weight l) < lodThreshold TUNING (t_k t1) (medianWeight s)) (renderLinks s))
      \<le> length (filter (\<lambda>l. \<not> real_of_int (lk_weight l) < lodThreshold TUNING (t_k t2) (medianWeight s)) (renderLinks s))"
  proof (rule length_filter_mono)
    fix x assume x: "x \<in> set (renderLinks s)"
      and p: "\<not> real_of_int (lk_weight x) < lodThreshold TUNING (t_k t1) (medianWeight s)"
    show "\<not> real_of_int (lk_weight x) < lodThreshold TUNING (t_k t2) (medianWeight s)"
    proof (cases "t_k t2 < 3")
      case True
      from lodThreshold_mono [OF m0 zoom True, of TUNING] p show ?thesis by linarith
    next
      case False
      then have "lodThreshold TUNING (t_k t2) (medianWeight s) = real_of_int (MIN_RENDER_WEIGHT TUNING)"
        by (simp add: lodThreshold_def)
      moreover have "MIN_RENDER_WEIGHT TUNING \<le> lk_weight x" using weights x by blast
      ultimately show ?thesis by simp
    qed
  qed
  then show ?thesis by (simp add: edgesPassingLOD_eq False)
qed

lemma loadAndBuild_layoutLoaded:
  "layoutLoaded (loadAndBuild tun (Some ld) (Some sd) s)"
  by (auto simp: loadAndBuild_def Let_def fitToScreen_frame
      withSim_frame initSimulation_frame split: option.splits)

lemma viewAt_fields:
  "renderLinks (viewAt k s) = renderLinks s" "medianWeight (viewAt k s) = medianWeight s"
  "active (viewAt k s)" "layoutLoaded (viewAt k s) = layoutLoaded s"
  "skipEdgeFrames (viewAt k s) = 0" "t_k (transform (viewAt k s)) = k"
  by (simp_all add: viewAt_def)

text \<open>
  Built from edges of weights 600, 100 and 60, the median is 100: at zoom 0.5 two edges
  pass, at zoom 1 all three.
\<close>

theorem lod_monotone_witness:
  "list_all (\<lambda>l. MIN_RENDER_WEIGHT TUNING \<le> lk_weight l) (renderLinks (viewAt 1 builtB)) \<and>
   medianWeight (viewAt 1 builtB) = computeMedian (renderLinks (viewAt 1 builtB)) 0 \<and>
   t_k \<lparr> t_k = 1 / 2, t_x = 400, t_y = 300 \<rparr> \<le> t_k \<lparr> t_k = 1, t_x = 400, t_y = 300 \<rparr> \<and>
   edgesPassingLOD TUNING (Some dataB) (viewAt 1 builtB\<lparr> transform := \<lparr> t_k = 1 / 2, t_x = 400, t_y = 300 \<rparr> \<rparr>) = 2 \<and>
   edgesPassingLOD TUNING (Some dataB) (viewAt 1 builtB\<lparr> transform := \<lparr> t_k = 1, t_x = 400, t_y = 300 \<rparr> \<rparr>) = 3 \<and>
   (2::nat) \<le> 3"
proof -
  have w: "\<forall>l \<in> set (renderLinks (viewAt 1 builtB)). MIN_RENDER_WEIGHT TUNING \<le> lk_weight l"
    by (simp add: viewAt_fields builtB_def loadAndBuild_renderLinks builtLinks_B min_weight_TUNING)
  have m: "medianWeight (viewAt 1 builtB) = computeMedian (renderLinks (viewAt 1 builtB)) 0"
    by (simp add: viewAt_fields builtB_def loadAndBuild_renderLinks loadAndBuild_medianWeight
        init_state_def)
  have z: "t_k \<lparr> t_k = 1 / 2, t_x = 400, t_y = 300 \<rparr> \<le> t_k \<lparr> t_k = 1, t_x = 400, t_y = 300 \<rparr>"
    by simp
  have e1: "edgesPassingLOD TUNING (Some dataB) (viewAt 1 builtB\<lparr> transform := \<lparr> t_k = 1 / 2, t_x = 400, t_y = 300 \<rparr> \<rparr>) = 2"
    by (simp add: edgesPassingLOD_eq viewAt_fields builtB_def loadAndBuild_renderLinks
        loadAndBuild_medianWeight loadAndBuild_layoutLoaded builtLinks_B computeMedian_def
        lodThreshold_def min_weight_TUNING)
  have e2: "edgesPassingLOD TUNING (Some dataB) (viewAt 1 builtB\<lparr> transform := \<lparr> t_k = 1, t_x = 400, t_y = 300 \<rparr> \<rparr>) = 3"
    by (simp add: edgesPassingLOD_eq viewAt_fields builtB_def loadAndBuild_renderLinks
        loadAndBuild_medianWeight loadAndBuild_layoutLoaded builtLinks_B computeMedian_def
        lodThreshold_def min_weight_TUNING)
  from lod_monotone [OF w m z, of "Some dataB"] w m z e1 e2 show ?thesis
    by (simp add: list_all_iff)
qed

text \<open>
  Claim C4, as amended. Take the graph of Scenario A with weights \<open>w\<close> and \<open>W\<close> on its
  edges (A,B) and (B,C), where \<open>w\<close> is below \<open>W\<close> and reaches the minimum render weight
  (the weights 10 and 600 of the scenario with the minimum 5 that the specification
  supposes; weights such as 100 and 6000 with the minimum 50 that the module has).
  The render links are \<open>[(B,C,W), (A,B,w)]\<close>, the median weight is \<open>w\<close>, and both edges
  pass the level-of-detail test at every zoom factor: at low zoom the threshold is the
  median \<open>w\<close>, and an edge is culled only when its weight is below the threshold. With
  the weights 10 and 600 themselves the module, whose minimum is 50, keeps the edge
  (B,C) alone: the median is 600, and that edge is drawn at every zoom factor.
\<close>

theorem scenarioA_lod:
  assumes "0 \<le> w" and "MIN_RENDER_WEIGHT tun \<le> w" and "w < W"
  shows "(let s = loadAndBuild tun (Some layoutA) (Some (scenarioData w W)) init_state
          in renderLinks s = [\<lparr> lk_si = 1, lk_ti = 2, lk_weight = W \<rparr>,
                              \<lparr> lk_si = 0, lk_ti = 1, lk_weight = w \<rparr>] \<and>
             medianWeight s = w \<and>
             edgesPassingLOD tun (Some (scenarioData w W)) (viewAt k s) = 2) \<and>
         renderLinks builtA = [\<lparr> lk_si = 1, lk_ti = 2, lk_weight = 600 \<rparr>] \<and>
         medianWeight builtA = 600 \<and>
         edgesPassingLOD TUNING (Some dataA) (viewAt k builtA) = 1"
proof -
  have "real_of_int w * 0.6 \<le> real_of_int w" "real_of_int w * 0.3 \<le> real_of_int w"
    using assms(1) by simp_all
  then have "edgesPassingLOD tun (Some (scenarioData w W))
               (viewAt k (loadAndBuild tun (Some layoutA) (Some (scenarioData w W)) init_state)) = 2"
    using assms
    by (simp add: edgesPassingLOD_eq viewAt_fields loadAndBuild_renderLinks
        loadAndBuild_medianWeight loadAndBuild_layoutLoaded builtLinks_scenario
        computeMedian_def lodThreshold_def)
  moreover have "edgesPassingLOD TUNING (Some dataA) (viewAt k builtA) = 1"
    by (simp add: edgesPassingLOD_eq viewAt_fields builtA_def loadAndBuild_renderLinks
        loadAndBuild_medianWeight loadAndBuild_layoutLoaded builtLinks_A computeMedian_def
        lodThreshold_def min_weight_TUNING)
  ultimately show ?thesis
    using assms
    by (simp add: Let_def builtA_def loadAndBuild_renderLinks loadAndBuild_medianWeight
        builtLinks_scenario builtLinks_A computeMedian_def)
qed

text \<open>
  Under the constants of the module, the edges of weights 100 and 6000 both pass at the
  zoom factors 0.5 and 5, where the one edge left of the weights 10 and 600 passes.
\<close>

theorem scenarioA_lod_witness:
  "edgesPassingLOD TUNING (Some (scenarioData 100 6000))
     (viewAt (1 / 2) (loadAndBuild TUNING (Some layoutA) (Some (scenarioData 100 6000)) init_state)) = 2 \<and>
   edgesPassingLOD TUNING (Some (scenarioData 100 6000))
     (viewAt 5 (loadAndBuild TUNING (Some layoutA) (Some (scenarioData 100 6000)) init_state)) = 2 \<and>
   edgesPassingLOD TUNING (Some dataA) (viewAt (1 / 2) builtA) = 1 \<and>
   edgesPassingLOD TUNING (Some dataA) (viewAt 5 builtA) = 1"
  using scenarioA_lod [of 100 TUNING 6000 "1 / 2"] scenarioA_lod [of 100 TUNING 6000 5]
  by (simp add: Let_def min_weight_TUNING)

text \<open>
  Claim C4 as stated, in the module as it is. Built from Scenario A, the render links
  are not both edges but the edge (B,C) alone, the median is 600 and not 10, and at
  high zoom one edge is drawn, not two. And where two edges are rendered (weights 100
  and 6000), low zoom does not leave the heavier edge alone: the weights of the edges
  that are not culled at zoom 0.5 are 6000 and 100.
\<close>

theorem scenarioA_low_zoom_counterexample:
  "renderLinks builtA = [\<lparr> lk_si = 1, lk_ti = 2, lk_weight = 600 \<rparr>] \<and>
   medianWeight builtA = 600 \<and>
   edgesPassingLOD TUNING (Some dataA) (viewAt 5 builtA) = 1 \<and>
   map lk_weight
     (filter (\<lambda>l. edgeFate TUNING (Some (scenarioData 100 6000))
                     (viewAt (1 / 2) (loadAndBuild TUNING (Some layoutA)
                                        (Some (scenarioData 100 6000)) init_state)) l \<noteq> CulledLOD)
        (renderLinks (viewAt (1 / 2) (loadAndBuild TUNING (Some layoutA)
                                        (Some (scenarioData 100 6000)) init_state))))
     = [6000, 100]"
  by (simp add: edgesPassingLOD_eq edgeFate_LOD viewAt_fields builtA_def loadAndBuild_renderLinks
        loadAndBuild_medianWeight loadAndBuild_layoutLoaded builtLinks_A builtLinks_scenario
        computeMedian_def lodThreshold_def min_weight_TUNING)


subsection \<open>The store after the build\<close>


lemma snd_builtPair_A:
  "snd (builtPair tun layoutA dataA) =
     [newNode tun (scaleSqrt 0 0 (NODE_MIN_R tun) (NODE_MAX_R tun)) 0 0 (plainNode ''A'') (0, 0),
      newNode tun (scaleSqrt 0 0 (NODE_MIN_R tun) (NODE_MAX_R tun)) 1 1 (plainNode ''B'') (1, 0),
      newNode tun (scaleSqrt 0 0 (NODE_MIN_R tun) (NODE_MAX_R tun)) 2 2 (plainNode ''C'') (0, 1)]"
  by (simp add: builtPair_def layoutA_def dataA_def maxReviewsOf_def plainNode_def numeral_2_eq_2)

lemma loadAndBuild_simNodes:
  "simNodes (loadAndBuild tun (Some ld) (Some sd) s) =
     [length (heap s) ..< length (heap s) + length (snd (builtPair tun ld sd))]"
  by (auto simp: loadAndBuild_def Let_def builtPair_def fitToScreen_frame length_fixSimIdx
      withSim_frame initSimulation_frame split: option.splits)

lemma loadAndBuild_heap:
  "heap (loadAndBuild tun (Some ld) (Some sd) s) =
     initializeNodes 0 [length (heap s) ..< length (heap s) + length (snd (builtPair tun ld sd))]
       (heap s @ fixSimIdx (snd (builtPair tun ld sd)))"
proof -
  define s1 where "s1 = (case ld_communities ld of None \<Rightarrow> s
       | Some c \<Rightarrow> s\<lparr> communitiesData := Some c,
            numCommunities := (case ld_num_communities ld of None \<Rightarrow> 0 | Some n \<Rightarrow> n) \<rparr>)"
  have h1: "heap s1 = heap s" by (simp add: s1_def split: option.splits)
  define base where "base = length (heap s1)"
  define nodes where "nodes = [base ..< base + length (snd (builtPair tun ld sd))]"
  define rl where "rl = builtLinks tun ld sd"
  have len: "length nodes = length (snd (builtPair tun ld sd))" by (simp add: nodes_def)
  have ok: "forceLink_initialize nodes (map unresolved (take (MAX_FORCE_LINKS tun) rl))
            = Some (map (resolved nodes) (take (MAX_FORCE_LINKS tun) rl))"
    by (rule forceLink_initialize_unresolved)
       (metis builtLinks_below in_set_takeD len rl_def)
  have "heap (loadAndBuild tun (Some ld) (Some sd) s) =
     initializeNodes 0 nodes (heap s1 @ fixSimIdx (snd (builtPair tun ld sd)))"
    using ok
    by (auto simp: loadAndBuild_def Let_def builtLinks_def [symmetric] builtPair_def [symmetric]
        fitToScreen_frame withSim_frame initSimulation_def buildForceLinks_take forceSimulation_def
        length_fixSimIdx s1_def [symmetric] base_def [symmetric] nodes_def [symmetric]
        rl_def [symmetric]
        split: option.splits prod.splits)
  then show ?thesis by (simp add: nodes_def base_def h1)
qed

lemma simNodes_builtA: "simNodes builtA = [0, 1, 2]"
  by (simp add: builtA_def loadAndBuild_simNodes snd_builtPair_A init_state_def upt_rec numeral_2_eq_2)

lemma heap_builtA_titles: "map node_title (heap builtA) = [Some [65], Some [66], Some [67]]"
  by (simp add: builtA_def loadAndBuild_heap snd_builtPair_A init_state_def upt_rec
      fixSimIdx_def newNode_def plainNode_def initNode_def Let_def utf16_def)

lemma heap_builtA_x: "map node_x (heap builtA) = [- 500, 500, - 500]"
  by (simp add: builtA_def loadAndBuild_heap snd_builtPair_A init_state_def upt_rec
      fixSimIdx_def newNode_def plainNode_def initNode_def Let_def TUNING_def)

lemma heap_builtA_y: "map node_y (heap builtA) = [- 500, - 500, 500]"
  by (simp add: builtA_def loadAndBuild_heap snd_builtPair_A init_state_def upt_rec
      fixSimIdx_def newNode_def plainNode_def initNode_def Let_def TUNING_def)

lemma heap_builtA_games: "map node_game (heap builtA) = [None, None, None]"
  by (simp add: builtA_def loadAndBuild_heap snd_builtPair_A init_state_def upt_rec
      fixSimIdx_def newNode_def plainNode_def initNode_def Let_def)

lemma lower_letters: "lowerASCII [66] = [98]" "lowerASCII [65] = [97]" "lowerASCII [67] = [99]"
  "lowerASCII [98] = [98]" "lowerASCII [122] = [122]"
  by (simp_all add: lowerASCII_def)



lemma recalcNodeSizes_frame:
  "sizeMode (recalcNodeSizes tun s) = sizeMode s" "active (recalcNodeSizes tun s) = active s"
  "layoutMode (recalcNodeSizes tun s) = layoutMode s" "groupMode (recalcNodeSizes tun s) = groupMode s"
  by (simp_all add: recalcNodeSizes_def Let_def withSim_def)

lemma withSim_modes:
  "sizeMode (withSim f s) = sizeMode s" "layoutMode (withSim f s) = layoutMode s"
  "groupMode (withSim f s) = groupMode s"
  by (simp_all add: withSim_def)

lemma setSizeMode_sizeMode: "sizeMode (setSizeMode tun mode s) = mode"
  by (simp add: setSizeMode_def Let_def recalcNodeSizes_frame withSim_modes render_frame)

lemma setLayoutMode_layoutMode: "layoutMode (setLayoutMode tun data mode s) = mode"
  by (simp add: setLayoutMode_def Let_def withSim_modes split: option.splits)

lemma setGroupMode_rejects:
  "mode \<noteq> ''genre'' \<Longrightarrow> mode \<noteq> ''community'' \<Longrightarrow> setGroupMode mode s = s"
  by (simp add: setGroupMode_def)

subsection \<open>Mode setters\<close>

text \<open>
  Claim C3 asks every mode setter to reject an unrecognised mode and to keep the mode
  it had. \<^verbatim>\<open>setGroupMode\<close> does. \<^verbatim>\<open>setSizeMode\<close> and \<^verbatim>\<open>setLayoutMode\<close> store
  whatever string they are given: after the size mode \<open>connections\<close> and the layout
  mode \<open>tight\<close> were set, the string \<open>bogus\<close> replaces each of them.
\<close>

theorem setSizeMode_stores_unrecognized:
  "sizeMode (setSizeMode TUNING ''connections'' builtA) = ''connections'' \<and>
   sizeMode (setSizeMode TUNING ''bogus'' (setSizeMode TUNING ''connections'' builtA)) = ''bogus'' \<and>
   layoutMode (setLayoutMode TUNING (Some dataA) ''bogus''
                 (setLayoutMode TUNING (Some dataA) ''tight'' builtA)) = ''bogus'' \<and>
   groupMode (setGroupMode ''bogus'' (setGroupMode ''community'' builtA)) = ''community''"
  by (simp add: setSizeMode_sizeMode setLayoutMode_layoutMode setGroupMode_rejects
      setGroupMode_def Let_def render_frame)

subsection \<open>Search\<close>





text \<open>
  The module never has nodes without a loaded layout: this holds when the script has
  been evaluated, and a build keeps it.
\<close>

lemma loaded_or_empty_init: "layoutLoaded init_state \<or> simNodes init_state = []"
  by (simp add: init_state_def)

lemma loaded_or_empty_loadAndBuild:
  "layoutLoaded s \<or> simNodes s = [] \<Longrightarrow>
   layoutLoaded (loadAndBuild tun resp data s) \<or> simNodes (loadAndBuild tun resp data s) = []"
proof (cases resp)
  case None
  assume "layoutLoaded s \<or> simNodes s = []"
  with None show ?thesis by (simp add: loadAndBuild_def)
next
  case (Some ld)
  assume inv: "layoutLoaded s \<or> simNodes s = []"
  show ?thesis
  proof (cases data)
    case None
    with Some inv show ?thesis
      by (cases "ld_communities ld") (simp_all add: loadAndBuild_def Let_def)
  next
    case (Some sd)
    with \<open>resp = Some ld\<close> show ?thesis using loadAndBuild_layoutLoaded [of tun ld sd s] by simp
  qed
qed


lemma layoutLoaded_builtA: "layoutLoaded builtA"
  by (simp add: builtA_def loadAndBuild_layoutLoaded)

lemma heap_builtA_nth:
  "node_title (heap builtA ! 0) = Some [65]" "node_title (heap builtA ! Suc 0) = Some [66]"
  "node_title (heap builtA ! 2) = Some [67]"
  "node_game (heap builtA ! 0) = None" "node_game (heap builtA ! Suc 0) = None"
  "node_game (heap builtA ! 2) = None"
  using heap_builtA_titles heap_builtA_games
  by (auto simp: list_eq_iff_nth_eq map_eq_Cons_conv)

lemma title_gameB: "g_title gameB = [98]"
  by (simp add: gameB_def utf16_def)




subsection \<open>Fit to screen\<close>











lemma length_heap_builtA: "length (heap builtA) = 3"
  using arg_cong [OF heap_builtA_x, of length] by simp

lemma nodes_of_builtA: "nodes_of builtA = heap builtA"
  by (rule nth_equalityI)
     (auto simp: nodes_of_def simNodes_builtA length_heap_builtA nth_Cons' numeral_3_eq_3
        numeral_2_eq_2 less_Suc_eq)







lemma heap_builtA_0: "node_x (heap builtA ! 0) = - 500" "node_y (heap builtA ! 0) = - 500"
  using heap_builtA_x heap_builtA_y by (auto simp: map_eq_Cons_conv)




subsection \<open>What a tick writes\<close>


lemma agree_refl: "(\<And>n. R n n) \<Longrightarrow> agree A R h h"
  by (simp add: agree_def)

lemma agree_trans:
  "(\<And>a b c. R a b \<Longrightarrow> R b c \<Longrightarrow> R a c) \<Longrightarrow> agree A R h h1 \<Longrightarrow> agree A R h1 h2 \<Longrightarrow> agree A R h h2"
  by (auto simp: agree_def)

lemma agree_update:
  "(\<And>n. R n n) \<Longrightarrow> (b \<in> A \<Longrightarrow> R (h ! b) v) \<Longrightarrow> agree A R h (h[b := v])"
  by (cases "b < length h") (auto simp: agree_def nth_list_update list_update_beyond)

lemma agree_foldl:
  assumes refl: "\<And>n. R n n" and trans: "\<And>a b c. R a b \<Longrightarrow> R b c \<Longrightarrow> R a c"
    and step: "\<And>h x. x \<in> set xs \<Longrightarrow> agree A R h (f h x)"
  shows "agree A R h (foldl f h xs)"
  using step
proof (induction xs arbitrary: h)
  case Nil
  then show ?case by (simp add: agree_refl refl)
next
  case (Cons x xs)
  have 1: "agree A R h (f h x)" using Cons.prems by simp
  have 2: "agree A R (f h x) (foldl f (f h x) xs)" using Cons by simp
  show ?case using agree_trans [OF trans 1 2] by simp
qed

lemma keepsPos_refl: "keepsPos n n" by (simp add: keepsPos_def)
lemma keepsPin_refl: "keepsPin n n" by (simp add: keepsPin_def)
lemma keepsPos_trans: "keepsPos a b \<Longrightarrow> keepsPos b c \<Longrightarrow> keepsPos a c" by (simp add: keepsPos_def)
lemma keepsPin_trans: "keepsPin a b \<Longrightarrow> keepsPin b c \<Longrightarrow> keepsPin a c" by (simp add: keepsPin_def)

lemma keepsBoth_refl: "keepsBoth n n" by (simp add: keepsBoth_def keepsPos_def keepsPin_def)
lemma keepsBoth_trans: "keepsBoth a b \<Longrightarrow> keepsBoth b c \<Longrightarrow> keepsBoth a c"
  by (simp add: keepsBoth_def keepsPos_def keepsPin_def)

lemma agree_velocity:
  "agree A keepsBoth h (h[b := (h ! b)\<lparr> node_vx := u, node_vy := v \<rparr>])"
  by (rule agree_update [OF keepsBoth_refl]) (simp add: keepsBoth_def keepsPos_def keepsPin_def)

lemma link_pull_agree: "agree A keepsBoth h (link_pull env alpha len strength bias sa ta h)"
  unfolding link_pull_def Let_def
  by (rule agree_trans [OF keepsBoth_trans agree_velocity agree_velocity])

lemma link_force_one_agree:
  "agree A keepsBoth h (link_force_one env alpha ls len base gain mw h l)"
  by (simp add: link_force_one_def Let_def link_pull_agree agree_refl keepsBoth_refl
      split: endpoint.splits)

lemma link_fold_agree:
  "agree A keepsBoth h (foldl (link_force_one env alpha ls len base gain mw) h ms)"
  by (rule agree_foldl) (auto simp: keepsBoth_refl link_force_one_agree intro: keepsBoth_trans)

lemma agree_weaken:
  "agree A R h h' \<Longrightarrow> B \<subseteq> A \<Longrightarrow> (\<And>n n'. R n n' \<Longrightarrow> Q n n') \<Longrightarrow> agree B Q h h'"
  by (auto simp: agree_def)

lemma agree_eq_trans: "agree A (=) h h1 \<Longrightarrow> agree A (=) h1 h2 \<Longrightarrow> agree A (=) h h2"
  by (simp add: agree_def)

lemma write_back_agree_out:
  "agree (- set nodes) (=) h (write_back nodes ks h)"
proof (induction nodes ks h rule: write_back.induct)
  case (1 a as k ks h)
  have s1: "agree (- set (a # as)) (=) h (h[a := write_kin (h ! a) k])"
    by (rule agree_update) simp_all
  have s2: "agree (- set (a # as)) (=) (h[a := write_kin (h ! a) k])
                   (write_back as ks (h[a := write_kin (h ! a) k]))"
    by (rule agree_weaken [OF 1]) auto
  from agree_eq_trans [OF s1 s2] show ?case by simp
qed (simp_all add: agree_def)

lemma write_back_agree_pin:
  "agree A keepsPin h (write_back nodes ks h)"
proof (induction nodes ks h rule: write_back.induct)
  case (1 a as k ks h)
  have "agree A keepsPin h (h[a := write_kin (h ! a) k])"
    by (rule agree_update) (simp_all add: keepsPin_def write_kin_def split: prod.splits)
  then show ?case using 1 by (auto simp: agree_def keepsPin_def)
qed (simp_all add: agree_def keepsPin_def)

lemma apply_force_agree_pin: "agree A keepsPin h (apply_force env alpha nodes h f)"
proof (cases f)
  case (Link ls len base gain mw)
  from link_fold_agree [of A h env alpha ls len base gain mw ls]
  show ?thesis using Link by (simp add: apply_force_def agree_def keepsBoth_def)
qed (simp_all add: apply_force_def write_back_agree_pin)

lemma apply_force_agree_pos: "agree (- set nodes) keepsPos h (apply_force env alpha nodes h f)"
proof (cases f)
  case (Link ls len base gain mw)
  from link_fold_agree [of "- set nodes" h env alpha ls len base gain mw ls]
  show ?thesis using Link by (simp add: apply_force_def agree_def keepsBoth_def)
qed (auto simp: apply_force_def keepsPos_def intro: agree_weaken [OF write_back_agree_out])

lemma integrate_keepsPin: "keepsPin n (integrate vd n)"
  by (simp add: integrate_def keepsPin_def Let_def split: option.splits)

lemma integrate_at_agree_pin: "agree A keepsPin h (integrate_at vd h a)"
  unfolding integrate_at_def by (rule agree_update) (simp_all add: keepsPin_refl integrate_keepsPin)

lemma integrate_at_agree_pos: "a \<in> set nodes \<Longrightarrow> agree (- set nodes) keepsPos h (integrate_at vd h a)"
  unfolding integrate_at_def by (rule agree_update) (simp_all add: keepsPos_refl)

lemma tick_agree_pin: "agree A keepsPin h (snd (tick env sim h))"
proof -
  have 1: "agree A keepsPin h (forcesApplied env sim h)"
    unfolding forcesApplied_def
    by (rule agree_foldl) (auto simp: keepsPin_def apply_force_agree_pin)
  have 2: "agree A keepsPin (forcesApplied env sim h)
             (foldl (integrate_at (sim_velocityDecay sim)) (forcesApplied env sim h) (sim_nodes sim))"
    by (rule agree_foldl) (auto simp: keepsPin_def integrate_at_agree_pin)
  from agree_trans [OF keepsPin_trans 1 2] show ?thesis
    by (simp add: tick_def Let_def forcesApplied_def)
qed

lemma tick_agree_pos: "agree (- set (sim_nodes sim)) keepsPos h (snd (tick env sim h))"
proof -
  have 1: "agree (- set (sim_nodes sim)) keepsPos h (forcesApplied env sim h)"
    unfolding forcesApplied_def
    by (rule agree_foldl) (auto simp: keepsPos_def apply_force_agree_pos)
  have 2: "agree (- set (sim_nodes sim)) keepsPos (forcesApplied env sim h)
             (foldl (integrate_at (sim_velocityDecay sim)) (forcesApplied env sim h) (sim_nodes sim))"
    by (rule agree_foldl) (auto simp: keepsPos_def integrate_at_agree_pos)
  from agree_trans [OF keepsPos_trans 1 2] show ?thesis
    by (simp add: tick_def Let_def forcesApplied_def)
qed

lemma tick_heap: "snd (tick env sim h) =
    foldl (integrate_at (sim_velocityDecay sim)) (forcesApplied env sim h) (sim_nodes sim)"
  by (simp add: tick_def Let_def forcesApplied_def)

lemma tick_sim_fields:
  "sim_nodes (fst (tick env sim h)) = sim_nodes sim"
  "sim_running (fst (tick env sim h)) = sim_running sim"
  "sim_onTick (fst (tick env sim h)) = sim_onTick sim"
  "sim_velocityDecay (fst (tick env sim h)) = sim_velocityDecay sim"
  "sim_forces (fst (tick env sim h)) = sim_forces sim"
  by (simp_all add: tick_def Let_def)

lemma settle_agree_pos:
  "agree (- set (sim_nodes sim)) keepsPos h (snd (settle env n sim h))"
proof (induction n arbitrary: sim h)
  case 0
  then show ?case by (simp add: agree_refl keepsPos_refl)
next
  case (Suc n)
  show ?case
  proof (cases "sim_alpha sim > 0.001")
    case False
    then show ?thesis by (simp add: agree_refl keepsPos_refl)
  next
    case True
    obtain sim' h' where t: "tick env sim h = (sim', h')" by (cases "tick env sim h")
    have n: "sim_nodes sim' = sim_nodes sim" using tick_sim_fields(1) [of env sim h] t by simp
    have 1: "agree (- set (sim_nodes sim)) keepsPos h h'" using tick_agree_pos [of sim h env] t by simp
    have 2: "agree (- set (sim_nodes sim)) keepsPos h' (snd (settle env n sim' h'))"
      using Suc [of sim' h'] n by simp
    from agree_trans [OF keepsPos_trans 1 2] show ?thesis using True t by simp
  qed
qed

lemma initializeNodes_agree_out: "agree (- set nodes) (=) h (initializeNodes i nodes h)"
proof (induction nodes arbitrary: i h)
  case Nil
  then show ?case by (simp add: agree_def)
next
  case (Cons a as)
  have s1: "agree (- set (a # as)) (=) h (h[a := initNode i (h ! a)])"
    by (rule agree_update) simp_all
  have s2: "agree (- set (a # as)) (=) (h[a := initNode i (h ! a)])
                   (initializeNodes (Suc i) as (h[a := initNode i (h ! a)]))"
    by (rule agree_weaken [OF Cons.IH]) auto
  from agree_eq_trans [OF s1 s2] show ?case by simp
qed



subsection \<open>The export\<close>

lemma set_force_nodes: "sim_nodes (set_force name f sim) = sim_nodes sim"
  by (simp add: set_force_def split: option.splits)

lemma defaultForces_fields:
  "sim_nodes (defaultForces tun ls mw sim) = sim_nodes sim"
  "sim_running (defaultForces tun ls mw sim) = sim_running sim"
  by (simp_all add: defaultForces_def Let_def set_force_nodes set_force_def)

lemma freshLayout_positions:
  assumes "freshLayout env tun s = Some (nodes, h1)"
  shows "agree {..< length (heap s)} keepsPos (heap s @ nodes_of s) h1"
proof -
  define base where "base = length (heap s)"
  define ns where "ns = [base ..< base + length (nodes_of s)]"
  define h0 where "h0 = heap s @ nodes_of s"
  define hA where "hA = initializeNodes 0 ns h0"
  have out: "{..< length (heap s)} \<subseteq> - set ns" by (auto simp: ns_def base_def)
  from assms obtain ls where
    h1: "h1 = snd (settle env 500
           ((defaultForces tun ls (maxWeightOf (forceLinks s)) (fst (forceSimulation ns h0)))
              \<lparr> sim_alphaDecay := 0.028, sim_alphaMin := 0.001, sim_velocityDecay := 1 - 0.45,
                sim_alpha := 1, sim_running := False \<rparr>) hA)"
    by (auto simp: freshLayout_def Let_def forceSimulation_def
        base_def ns_def h0_def hA_def split: option.splits)
  define sim where "sim = (defaultForces tun ls (maxWeightOf (forceLinks s)) (fst (forceSimulation ns h0)))
              \<lparr> sim_alphaDecay := 0.028, sim_alphaMin := 0.001, sim_velocityDecay := 1 - 0.45,
                sim_alpha := 1, sim_running := False \<rparr>"
  have sim: "sim_nodes sim = ns" by (simp add: sim_def defaultForces_fields forceSimulation_def)
  have 1: "agree {..< length (heap s)} keepsPos h0 hA"
    unfolding hA_def
    by (rule agree_weaken [OF initializeNodes_agree_out out]) (simp add: keepsPos_def)
  have 2: "agree {..< length (heap s)} keepsPos hA h1"
    unfolding h1 sim_def [symmetric]
    by (rule agree_weaken [OF settle_agree_pos]) (use out sim in auto)
  from agree_trans [OF keepsPos_trans 1 2] show ?thesis by (simp add: h0_def)
qed

lemma exportRender_cases:
  "exportRender env tun w h src s = (r, s') \<Longrightarrow>
   s' = s \<or> (\<exists>nodes h1. src = ''fresh'' \<and> freshLayout env tun s = Some (nodes, h1) \<and> s' = s\<lparr> heap := h1 \<rparr>)"
  by (auto simp: exportRender_def split: if_splits option.splits prod.splits)

text \<open>
  What \<^verbatim>\<open>exportRender\<close> does leave alone. In a state whose node references are
  addresses of the store, the position of every live node, the viewport transform and
  the simulation are after the call what they were before, for every width and height
  and every value of \<^verbatim>\<open>layoutSource\<close>: the fresh layout integrates positions only on
  the copies it allocates, and any other value of \<^verbatim>\<open>layoutSource\<close> changes nothing
  at all. When the layout is not loaded or there is no node, the result is \<^verbatim>\<open>null\<close>.
\<close>

lemma exportRender_frame:
  assumes "nodesValid s"
  shows "let r = exportRender env tun w h src s
         in (\<forall>a \<in> set (simNodes s). positionOf a (snd r) = positionOf a s) \<and>
            simNodes (snd r) = simNodes s \<and> transform (snd r) = transform s \<and>
            simulation (snd r) = simulation s \<and>
            (src \<noteq> ''fresh'' \<longrightarrow> snd r = s) \<and>
            (\<not> layoutLoaded s \<or> simNodes s = [] \<longrightarrow> fst r = Null \<and> snd r = s)"
proof -
  obtain r s' where r: "exportRender env tun w h src s = (r, s')"
    by (cases "exportRender env tun w h src s")
  have null: "\<not> layoutLoaded s \<or> simNodes s = [] \<longrightarrow> r = Null \<and> s' = s"
    using r by (auto simp: exportRender_def)
  from exportRender_cases [OF r] show ?thesis
  proof
    assume "s' = s"
    then show ?thesis using r null by (simp add: Let_def)
  next
    assume "\<exists>nodes h1. src = ''fresh'' \<and> freshLayout env tun s = Some (nodes, h1) \<and> s' = s\<lparr> heap := h1 \<rparr>"
    then obtain nodes h1 where f: "src = ''fresh''" "freshLayout env tun s = Some (nodes, h1)"
      "s' = s\<lparr> heap := h1 \<rparr>" by blast
    have pos: "\<forall>a \<in> set (simNodes s). positionOf a s' = positionOf a s"
    proof
      fix a assume "a \<in> set (simNodes s)"
      then have a: "a < length (heap s)" using assms by (simp add: nodesValid_def list_all_iff)
      from freshLayout_positions [OF f(2)] a
      have "keepsPos ((heap s @ nodes_of s) ! a) (h1 ! a)" by (simp add: agree_def)
      then show "positionOf a s' = positionOf a s"
        using a by (simp add: positionOf_def f(3) keepsPos_def nth_append)
    qed
    show ?thesis using r pos null f by (simp add: Let_def)
  qed
qed

lemma loadAndBuild_nodesValid: "nodesValid (loadAndBuild tun (Some ld) (Some sd) s)"
proof -
  have "length (initializeNodes i nodes h) = length h" for i nodes h
    using initializeNodes_agree_out [of nodes h i] by (simp add: agree_def)
  then show ?thesis
    by (simp add: nodesValid_def list_all_iff loadAndBuild_simNodes loadAndBuild_heap
        length_fixSimIdx)
qed

lemma nodesValid_builtA: "nodesValid builtA"
  by (simp add: builtA_def loadAndBuild_nodesValid)

lemma positionOf_builtA_0: "positionOf 0 builtA = (- 500, - 500)"
  by (simp add: positionOf_def heap_builtA_0)


subsection \<open>Fixed and free nodes in a tick\<close>


lemma integrate_pinned:
  "node_fx n = Some px \<Longrightarrow> node_fy n = Some py \<Longrightarrow>
   node_x (integrate vd n) = px \<and> node_y (integrate vd n) = py \<and>
   node_fx (integrate vd n) = Some px \<and> node_fy (integrate vd n) = Some py"
  by (simp add: integrate_def Let_def)

lemma integrate_free:
  "node_fx n = None \<Longrightarrow> node_fy n = None \<Longrightarrow>
   node_x (integrate vd n) = node_x n + node_vx n * vd \<and>
   node_y (integrate vd n) = node_y n + node_vy n * vd"
  by (simp add: integrate_def Let_def)

lemma integrate_at_length: "length (integrate_at vd h b) = length h"
  by (simp add: integrate_at_def)

lemma integrate_at_nth:
  "integrate_at vd h b ! a = (if a = b \<and> b < length h then integrate vd (h ! b) else h ! a)"
  by (cases "b < length h") (auto simp: integrate_at_def nth_list_update list_update_beyond)

lemma integrate_fold_pinned:
  assumes "node_fx (h ! a) = Some px" "node_fy (h ! a) = Some py" "a < length h"
    and "a \<in> set nodes \<or> (node_x (h ! a) = px \<and> node_y (h ! a) = py)"
  shows "node_x (foldl (integrate_at vd) h nodes ! a) = px \<and>
         node_y (foldl (integrate_at vd) h nodes ! a) = py"
  using assms
proof (induction nodes arbitrary: h)
  case Nil
  then show ?case by simp
next
  case (Cons b bs)
  define h' where "h' = integrate_at vd h b"
  have len: "a < length h'" using Cons.prems(3) by (simp add: h'_def integrate_at_length)
  have pin: "node_fx (h' ! a) = Some px" "node_fy (h' ! a) = Some py"
    using integrate_at_agree_pin [of UNIV h vd b] Cons.prems(1,2)
    by (simp_all add: agree_def keepsPin_def h'_def)
  have "a \<in> set bs \<or> (node_x (h' ! a) = px \<and> node_y (h' ! a) = py)"
  proof (cases "a = b")
    case True
    then show ?thesis
      using Cons.prems(1,2,3) integrate_pinned [of "h ! a" px py vd]
      by (simp add: h'_def integrate_at_nth)
  next
    case False
    then show ?thesis using Cons.prems(4) by (auto simp: h'_def integrate_at_nth)
  qed
  from Cons.IH [OF pin len this] show ?case by (simp add: h'_def)
qed

lemma integrate_fold_out:
  "a \<notin> set nodes \<Longrightarrow> foldl (integrate_at vd) h nodes ! a = h ! a"
  by (induction nodes arbitrary: h) (simp_all add: integrate_at_nth)

lemma integrate_fold_distinct:
  "distinct nodes \<Longrightarrow> a \<in> set nodes \<Longrightarrow> a < length h \<Longrightarrow>
   foldl (integrate_at vd) h nodes ! a = integrate vd (h ! a)"
proof (induction nodes arbitrary: h)
  case Nil
  then show ?case by simp
next
  case (Cons b bs)
  show ?case
  proof (cases "a = b")
    case True
    have "a \<notin> set bs" using Cons.prems(1) True by simp
    from integrate_fold_out [OF this, of vd "integrate_at vd h b"]
    show ?thesis using True Cons.prems(3) by (simp add: integrate_at_nth)
  next
    case False
    then have m: "a \<in> set bs" using Cons.prems(2) by simp
    have d: "distinct bs" using Cons.prems(1) by simp
    have l: "a < length (integrate_at vd h b)" using Cons.prems(3) by (simp add: integrate_at_length)
    from Cons.IH [OF d m l] False show ?thesis by (simp add: integrate_at_nth)
  qed
qed

lemma tick_length: "length (snd (tick env sim h)) = length h"
  using tick_agree_pin [of "{}" h env sim] by (simp add: agree_def)

lemma forcesApplied_pin:
  "node_fx (forcesApplied env sim h ! a) = node_fx (h ! a) \<and>
   node_fy (forcesApplied env sim h ! a) = node_fy (h ! a) \<and>
   length (forcesApplied env sim h) = length h"
proof -
  have "agree UNIV keepsPin h (forcesApplied env sim h)"
    unfolding forcesApplied_def
    by (rule agree_foldl) (auto simp: keepsPin_def apply_force_agree_pin)
  then show ?thesis by (simp add: agree_def keepsPin_def)
qed

lemma tick_pinned:
  assumes "node_fx (h ! a) = Some px" "node_fy (h ! a) = Some py" "a < length h"
    and "a \<in> set (sim_nodes sim)"
  shows "node_x (snd (tick env sim h) ! a) = px \<and> node_y (snd (tick env sim h) ! a) = py \<and>
         node_fx (snd (tick env sim h) ! a) = Some px \<and> node_fy (snd (tick env sim h) ! a) = Some py"
proof -
  have f: "node_fx (forcesApplied env sim h ! a) = Some px"
          "node_fy (forcesApplied env sim h ! a) = Some py"
          "a < length (forcesApplied env sim h)"
    using forcesApplied_pin [of env sim h a] assms(1,2,3) by simp_all
  have "node_x (snd (tick env sim h) ! a) = px \<and> node_y (snd (tick env sim h) ! a) = py"
    unfolding tick_heap by (rule integrate_fold_pinned [OF f]) (simp add: assms(4))
  moreover have "keepsPin (h ! a) (snd (tick env sim h) ! a)"
    using tick_agree_pin [of UNIV h env sim] by (simp add: agree_def)
  ultimately show ?thesis using assms(1,2) by (simp add: keepsPin_def)
qed

lemma tick_free:
  assumes "node_fx (h ! a) = None" "node_fy (h ! a) = None" "a < length h"
    and "a \<in> set (sim_nodes sim)" "distinct (sim_nodes sim)"
  shows "node_x (snd (tick env sim h) ! a) =
           node_x (forcesApplied env sim h ! a) + node_vx (forcesApplied env sim h ! a) * sim_velocityDecay sim \<and>
         node_y (snd (tick env sim h) ! a) =
           node_y (forcesApplied env sim h ! a) + node_vy (forcesApplied env sim h ! a) * sim_velocityDecay sim"
proof -
  have f: "node_fx (forcesApplied env sim h ! a) = None"
          "node_fy (forcesApplied env sim h ! a) = None"
          "a < length (forcesApplied env sim h)"
    using forcesApplied_pin [of env sim h a] assms(1,2,3) by simp_all
  show ?thesis
    unfolding tick_heap integrate_fold_distinct [OF assms(5,4) f(3)]
    by (rule integrate_free [OF f(1,2)])
qed


subsection \<open>Dragging a node\<close>


lemma onTick_frame:
  "heap (onTick s) = heap s" "simulation (onTick s) = simulation s"
  "transform (onTick s) = transform s" "active (onTick s) = active s"
  "simNodes (onTick s) = simNodes s"
  by (simp_all add: onTick_def Let_def render_frame)

lemma timerStep_heap:
  "simulation s = Some sim \<Longrightarrow>
   heap (timerStep env s) = (if sim_running sim then snd (tick env sim (heap s)) else heap s)"
  by (simp add: timerStep_def Let_def onTick_frame withSim_frame split: prod.splits)

lemma timerStep_simulation:
  "simulation s = Some sim \<Longrightarrow>
   \<exists>sim'. simulation (timerStep env s) = Some sim' \<and> sim_nodes sim' = sim_nodes sim"
  using tick_sim_fields(1) [of env sim "heap s"]
  by (auto simp: timerStep_def Let_def onTick_frame withSim_frame stop_def split: prod.splits)

lemma timerStep_transform: "transform (timerStep env s) = transform s"
  by (simp add: timerStep_def Let_def onTick_frame withSim_frame split: option.splits prod.splits)

lemma timerStep_heldAt:
  assumes "heldAt a px py s"
  shows "heldAt a px py (timerStep env s)"
proof -
  from assms obtain sim where sim: "simulation s = Some sim" "a \<in> set (sim_nodes sim)"
    and len: "a < length (heap s)"
    and pin: "node_fx (heap s ! a) = Some px" "node_fy (heap s ! a) = Some py"
    by (auto simp: heldAt_def pinOf_def split: option.splits)
  from timerStep_simulation [OF sim(1), where env = env] obtain sim' where
    sim': "simulation (timerStep env s) = Some sim'" "sim_nodes sim' = sim_nodes sim" by blast
  show ?thesis
    using sim' sim(2) len pin tick_pinned [OF pin len sim(2), where env = env] tick_length [of env sim "heap s"]
    by (simp add: heldAt_def pinOf_def timerStep_heap [OF sim(1)])
qed

lemma timerStep_position:
  assumes "heldAt a px py s"
    and "positionOf a s = (px, py) \<or> (case simulation s of None \<Rightarrow> False | Some sim \<Rightarrow> sim_running sim)"
  shows "positionOf a (timerStep env s) = (px, py)"
proof -
  from assms(1) obtain sim where sim: "simulation s = Some sim" "a \<in> set (sim_nodes sim)"
    and len: "a < length (heap s)"
    and pin: "node_fx (heap s ! a) = Some px" "node_fy (heap s ! a) = Some py"
    by (auto simp: heldAt_def pinOf_def split: option.splits)
  show ?thesis
    using assms(2) sim(1) tick_pinned [OF pin len sim(2), where env = env]
    by (auto simp: positionOf_def timerStep_heap [OF sim(1)])
qed

lemma funpow_heldAt:
  "heldAt a px py s \<Longrightarrow> positionOf a s = (px, py) \<Longrightarrow>
   heldAt a px py ((timerStep env ^^ n) s) \<and> positionOf a ((timerStep env ^^ n) s) = (px, py)"
  by (induction n) (auto simp: timerStep_heldAt timerStep_position)

text \<open>
  Claim C6. Let the object at address \<open>a\<close> be a node of the simulation. Starting a
  drag on it fixes it at its position \<open>(x, y)\<close>, and after any number of firings of
  the simulation's timer it is still exactly at \<open>(x, y)\<close>. When a drag move has set
  the fixed position to the pointer, the node is at that position after every later
  tick. After the drag has ended the node has no fixed position, and the next tick
  moves it as a free node: to the position the forces gave it plus its decayed
  velocity.
\<close>

theorem drag_pin_unpin:
  assumes sim: "simulation s = Some sim" and mem: "a \<in> set (sim_nodes sim)"
    and dist: "distinct (sim_nodes sim)" and len: "a < length (heap s)"
  shows "\<exists>s1. startDrag a s = Ok s1 \<and>
           pinOf a s1 = (Some (fst (positionOf a s)), Some (snd (positionOf a s))) \<and>
           (\<forall>n. positionOf a ((timerStep env ^^ n) s1) = positionOf a s) \<and>
           (\<forall>mx my n. positionOf a ((timerStep env ^^ Suc n) (onDragMove mx my s1))
                         = (fromScreenX s1 mx, fromScreenY s1 my)) \<and>
           (\<exists>s2 sim2. onDragEnd s1 = Ok s2 \<and> simulation s2 = Some sim2 \<and> sim_running sim2 \<and>
              pinOf a s2 = (None, None) \<and>
              positionOf a (timerStep env s2) =
                (node_x (forcesApplied env sim2 (heap s2) ! a)
                   + node_vx (forcesApplied env sim2 (heap s2) ! a) * sim_velocityDecay sim2,
                 node_y (forcesApplied env sim2 (heap s2) ! a)
                   + node_vy (forcesApplied env sim2 (heap s2) ! a) * sim_velocityDecay sim2))"
proof -
  define px where "px = node_x (heap s ! a)"
  define py where "py = node_y (heap s ! a)"
  define sim1 where "sim1 = restart (set_alphaTarget 0.3 sim)"
  define s1 where "s1 = s\<lparr> draggedNode := Some a,
      heap := (heap s)[a := (heap s ! a)\<lparr> node_fx := Some px, node_fy := Some py \<rparr>],
      simulation := Some sim1, dragListeners := True \<rparr>"
  have start: "startDrag a s = Ok s1"
    using sim by (simp add: startDrag_def Let_def s1_def sim1_def px_def py_def)
  have s1f: "simulation s1 = Some sim1" "draggedNode s1 = Some a"
    "heap s1 = (heap s)[a := (heap s ! a)\<lparr> node_fx := Some px, node_fy := Some py \<rparr>]"
    by (simp_all add: s1_def)
  have sim1f: "sim_nodes sim1 = sim_nodes sim" "sim_running sim1"
    by (simp_all add: sim1_def restart_def set_alphaTarget_def)
  have pos1: "positionOf a s1 = (px, py)" "positionOf a s = (px, py)"
    using len by (simp_all add: positionOf_def s1f px_def py_def)
  have pin1: "pinOf a s1 = (Some px, Some py)" using len by (simp add: pinOf_def s1f)
  have held1: "heldAt a px py s1"
    using len mem by (simp add: heldAt_def s1f sim1f pin1)
  have stay: "\<forall>n. positionOf a ((timerStep env ^^ n) s1) = positionOf a s"
    using funpow_heldAt [OF held1 pos1(1), where env = env] pos1(2) by simp
  have move: "positionOf a ((timerStep env ^^ Suc n) (onDragMove mx my s1))
                = (fromScreenX s1 mx, fromScreenY s1 my)" for mx my n
  proof -
    define s2 where "s2 = onDragMove mx my s1"
    have s2f: "simulation s2 = Some sim1"
      "heap s2 = (heap s1)[a := (heap s1 ! a)\<lparr> node_fx := Some (fromScreenX s1 mx),
                                              node_fy := Some (fromScreenY s1 my) \<rparr>]"
      by (simp_all add: s2_def onDragMove_def s1f)
    have held2: "heldAt a (fromScreenX s1 mx) (fromScreenY s1 my) s2"
      using len mem by (simp add: heldAt_def s2f sim1f pinOf_def s1f)
    have run2: "case simulation s2 of None \<Rightarrow> False | Some sim \<Rightarrow> sim_running sim"
      by (simp add: s2f sim1f)
    have h3: "heldAt a (fromScreenX s1 mx) (fromScreenY s1 my) (timerStep env s2)"
      by (rule timerStep_heldAt [OF held2])
    have p3: "positionOf a (timerStep env s2) = (fromScreenX s1 mx, fromScreenY s1 my)"
      by (rule timerStep_position [OF held2]) (simp add: run2)
    from funpow_heldAt [OF h3 p3, where env = env and n = n] show ?thesis
      by (simp add: s2_def funpow_swap1)
  qed
  define sim2 where "sim2 = set_alphaTarget 0 sim1"
  define s2 where "s2 = s1\<lparr> heap := (heap s1)[a := (heap s1 ! a)\<lparr> node_fx := None, node_fy := None \<rparr>],
      draggedNode := None, simulation := Some sim2, dragListeners := False \<rparr>"
  have stop: "onDragEnd s1 = Ok s2"
    by (simp add: onDragEnd_def s1f Let_def s2_def sim2_def)
  have s2f: "simulation s2 = Some sim2"
    "heap s2 = (heap s1)[a := (heap s1 ! a)\<lparr> node_fx := None, node_fy := None \<rparr>]"
    by (simp_all add: s2_def)
  have sim2f: "sim_nodes sim2 = sim_nodes sim" "sim_running sim2"
    by (simp_all add: sim2_def set_alphaTarget_def sim1f)
  have len2: "a < length (heap s2)" using len by (simp add: s2f s1f)
  have free2: "node_fx (heap s2 ! a) = None" "node_fy (heap s2 ! a) = None"
    using len by (simp_all add: s2f s1f)
  have pin2: "pinOf a s2 = (None, None)" using free2 by (simp add: pinOf_def)
  have mem2: "a \<in> set (sim_nodes sim2)" "distinct (sim_nodes sim2)"
    using mem dist by (simp_all add: sim2f)
  have evolve: "positionOf a (timerStep env s2) =
                (node_x (forcesApplied env sim2 (heap s2) ! a)
                   + node_vx (forcesApplied env sim2 (heap s2) ! a) * sim_velocityDecay sim2,
                 node_y (forcesApplied env sim2 (heap s2) ! a)
                   + node_vy (forcesApplied env sim2 (heap s2) ! a) * sim_velocityDecay sim2)"
    using tick_free [OF free2 len2 mem2, where env = env] sim2f(2)
    by (simp add: positionOf_def timerStep_heap [OF s2f(1)])
  show ?thesis
    using start pin1 pos1(2) stay move stop s2f(1) sim2f(2) pin2 evolve by auto
qed


subsection \<open>Scenario A under a pushing force\<close>


lemma loadAndBuild_sim:
  assumes "\<not> active s"
  shows "\<exists>sim ls mw. simulation (loadAndBuild tun (Some ld) (Some sd) s) = Some sim \<and>
           sim_nodes sim = simNodes (loadAndBuild tun (Some ld) (Some sd) s) \<and>
           \<not> sim_running sim \<and> sim_velocityDecay sim = 1 - 0.45 \<and>
           sim_forces sim = [(''charge'', ManyBody (- 10) (SIM_SPREAD tun * 1.5) 0.9),
                             (''link'', Link ls 25 0.008 0.04 mw),
                             (''center'', Center 0.008), (''collide'', Collide 0.5 0.15)]"
proof -
  define s1 where "s1 = (case ld_communities ld of None \<Rightarrow> s
       | Some c \<Rightarrow> s\<lparr> communitiesData := Some c,
            numCommunities := (case ld_num_communities ld of None \<Rightarrow> 0 | Some n \<Rightarrow> n) \<rparr>)"
  have a1: "\<not> active s1" using assms by (simp add: s1_def split: option.splits)
  define base where "base = length (heap s1)"
  define nodes where "nodes = [base ..< base + length (snd (builtPair tun ld sd))]"
  define rl where "rl = builtLinks tun ld sd"
  have len: "length nodes = length (snd (builtPair tun ld sd))" by (simp add: nodes_def)
  have ok: "forceLink_initialize nodes (map unresolved (take (MAX_FORCE_LINKS tun) rl))
            = Some (map (resolved nodes) (take (MAX_FORCE_LINKS tun) rl))"
    by (rule forceLink_initialize_unresolved)
       (metis builtLinks_below in_set_takeD len rl_def)
  show ?thesis
    using ok a1
    by (simp add: loadAndBuild_def Let_def builtLinks_def [symmetric] builtPair_def [symmetric]
        initSimulation_def buildForceLinks_take forceSimulation_def defaultForces_def
        set_force_def length_fixSimIdx s1_def [symmetric] base_def [symmetric]
        nodes_def [symmetric] rl_def [symmetric])
qed

lemma write_back_keepsPos:
  "list_all2 (\<lambda>b k. fst k = node_x (h0 ! b) \<and> fst (snd k) = node_y (h0 ! b)) nodes ks \<Longrightarrow>
   agree UNIV keepsPos h0 h \<Longrightarrow> agree UNIV keepsPos h0 (write_back nodes ks h)"
proof (induction nodes ks h rule: write_back.induct)
  case (1 a as k ks h)
  have k: "fst k = node_x (h0 ! a)" "fst (snd k) = node_y (h0 ! a)" using "1.prems"(1) by simp_all
  have u: "agree UNIV keepsPos h (h[a := write_kin (h ! a) k])"
    by (rule agree_update [OF keepsPos_refl])
       (use k "1.prems"(2) in \<open>auto simp: keepsPos_def write_kin_def agree_def split: prod.splits\<close>)
  have "agree UNIV keepsPos h0 (h[a := write_kin (h ! a) k])"
    by (rule agree_trans [OF keepsPos_trans "1.prems"(2) u])
  moreover have "list_all2 (\<lambda>b k. fst k = node_x (h0 ! b) \<and> fst (snd k) = node_y (h0 ! b)) as ks"
    using "1.prems"(1) by simp
  ultimately show ?case using "1.IH" by simp
qed simp_all

lemma write_back_nth:
  "distinct nodes \<Longrightarrow> length ks = length nodes \<Longrightarrow> i < length nodes \<Longrightarrow> nodes ! i < length h \<Longrightarrow>
   write_back nodes ks h ! (nodes ! i) = write_kin (h ! (nodes ! i)) (ks ! i)"
proof (induction nodes ks h arbitrary: i rule: write_back.induct)
  case (1 a as k ks h)
  define h' where "h' = h[a := write_kin (h ! a) k]"
  show ?case
  proof (cases i)
    case 0
    have "a \<notin> set as" using "1.prems"(1) by simp
    then have "write_back as ks h' ! a = h' ! a"
      using write_back_agree_out [of as h' ks] by (simp add: agree_def)
    then show ?thesis using 0 "1.prems"(4) by (simp add: h'_def)
  next
    case (Suc j)
    have ne: "as ! j \<noteq> a" using "1.prems"(1,3) Suc by auto
    have "write_back as ks h' ! (as ! j) = write_kin (h' ! (as ! j)) (ks ! j)"
      unfolding h'_def by (rule "1.IH") (use "1.prems" Suc in auto)
    then show ?thesis using Suc ne by (simp add: h'_def)
  qed
qed simp_all

lemma bodyForce_envPush: "bodyForce envPush f alpha ns = map (\<lambda>n. (node_x n, node_y n, 10, 10)) ns"
  by (simp add: envPush_def)

lemma apply_force_envPush_pos:
  "agree UNIV keepsPos h (apply_force envPush alpha nodes h f)"
proof (cases f)
  case (Link ls len base gain mw)
  from link_fold_agree [of UNIV h envPush alpha ls len base gain mw ls]
  show ?thesis using Link by (simp add: apply_force_def agree_def keepsBoth_def)
qed (auto simp: apply_force_def bodyForce_envPush list_all2_map1 list_all2_map2 list_all2_same
       intro!: write_back_keepsPos agree_refl keepsPos_refl)

lemma apply_force_envPush_vel:
  assumes "case f of Link ls len base gain mw \<Rightarrow> False | _ \<Rightarrow> True"
    and "distinct nodes" "a \<in> set nodes" "a < length h"
  shows "node_vx (apply_force envPush alpha nodes h f ! a) = 10 \<and>
         node_vy (apply_force envPush alpha nodes h f ! a) = 10"
proof -
  from assms(3) obtain i where i: "i < length nodes" "nodes ! i = a" by (auto simp: in_set_conv_nth)
  have "write_back nodes (bodyForce envPush f alpha (map (\<lambda>a. h ! a) nodes)) h ! (nodes ! i)
        = write_kin (h ! (nodes ! i)) (bodyForce envPush f alpha (map (\<lambda>a. h ! a) nodes) ! i)"
    by (rule write_back_nth) (use assms i in \<open>simp_all add: bodyForce_envPush\<close>)
  then show ?thesis
    using assms(1) i by (cases f) (simp_all add: apply_force_def bodyForce_envPush write_kin_def)
qed

lemma forcesApplied_envPush:
  assumes "sim_forces sim = fs @ [(name, f)]"
    and "case f of Link ls len base gain mw \<Rightarrow> False | _ \<Rightarrow> True"
    and "distinct (sim_nodes sim)" "a \<in> set (sim_nodes sim)" "a < length h"
  shows "node_x (forcesApplied envPush sim h ! a) = node_x (h ! a) \<and>
         node_y (forcesApplied envPush sim h ! a) = node_y (h ! a) \<and>
         node_vx (forcesApplied envPush sim h ! a) = 10 \<and>
         node_vy (forcesApplied envPush sim h ! a) = 10"
proof -
  define alpha where "alpha = sim_alpha sim + (sim_alphaTarget sim - sim_alpha sim) * sim_alphaDecay sim"
  define h' where "h' = foldl (apply_force envPush alpha (sim_nodes sim)) h (map snd fs)"
  have fa: "forcesApplied envPush sim h = apply_force envPush alpha (sim_nodes sim) h' f"
    by (simp add: forcesApplied_def assms(1) alpha_def h'_def)
  have 1: "agree UNIV keepsPos h h'"
    unfolding h'_def
    by (rule agree_foldl) (auto simp: keepsPos_refl apply_force_envPush_pos intro: keepsPos_trans)
  have 2: "agree UNIV keepsPos h' (forcesApplied envPush sim h)"
    unfolding fa by (rule apply_force_envPush_pos)
  have len: "a < length h'" using 1 assms(5) by (simp add: agree_def)
  from agree_trans [OF keepsPos_trans 1 2]
       apply_force_envPush_vel [OF assms(2,3,4) len, of alpha]
  show ?thesis by (simp add: agree_def keepsPos_def fa)
qed



lemma active_builtA_init: "\<not> active init_state"
  by (simp add: init_state_def)

lemma transform_loadAndBuild:
  "\<not> active s \<Longrightarrow> transform (loadAndBuild tun resp data s) = transform s"
  by (auto simp: loadAndBuild_def Let_def initSimulation_def split: option.splits prod.splits)

lemma transform_builtA: "transform builtA = zoomIdentity"
  by (simp add: builtA_def transform_loadAndBuild init_state_def)

lemma heap_builtA_1:
  "node_x (heap builtA ! Suc 0) = 500" "node_y (heap builtA ! Suc 0) = - 500"
  using heap_builtA_x heap_builtA_y by (auto simp: map_eq_Cons_conv)

text \<open>
  Node B of Scenario A, at (500, -500), with forces that push every node: it stays put
  through three ticks of a drag, follows a drag move to the pointer at (10, 20), and
  after the drag has ended the next tick moves it to (505.5, -494.5).
\<close>

theorem drag_pin_unpin_witness:
  "(\<exists>sim. simulation builtA = Some sim \<and> 1 \<in> set (sim_nodes sim) \<and> distinct (sim_nodes sim)) \<and>
   1 < length (heap builtA) \<and>
   (\<exists>s1. startDrag 1 builtA = Ok s1 \<and>
      positionOf 1 ((timerStep envPush ^^ 3) s1) = (500, - 500) \<and>
      positionOf 1 ((timerStep envPush ^^ Suc 2) (onDragMove 10 20 s1)) = (10, 20) \<and>
      (\<exists>s2. onDragEnd s1 = Ok s2 \<and> pinOf 1 s2 = (None, None) \<and>
         positionOf 1 (timerStep envPush s2) = (505.5, - 494.5)))"
proof -
  from loadAndBuild_sim [OF active_builtA_init, of TUNING layoutA dataA]
  obtain sim ls mw where
    sim: "simulation builtA = Some sim" "sim_nodes sim = [0, 1, 2]"
      "sim_velocityDecay sim = 1 - 0.45"
      "sim_forces sim = [(''charge'', ManyBody (- 10) (SIM_SPREAD TUNING * 1.5) 0.9),
                         (''link'', Link ls 25 0.008 0.04 mw),
                         (''center'', Center 0.008)] @ [(''collide'', Collide 0.5 0.15)]"
    by (auto simp: builtA_def [symmetric] simNodes_builtA)
  have mem: "1 \<in> set (sim_nodes sim)" and dist: "distinct (sim_nodes sim)"
    by (simp_all add: sim(2))
  have len: "1 < length (heap builtA)" by (simp add: length_heap_builtA)
  from drag_pin_unpin [OF sim(1) mem dist len, of envPush]
  obtain s1 s2 sim2 where
    s1: "startDrag 1 builtA = Ok s1"
    and stay: "\<forall>n. positionOf 1 ((timerStep envPush ^^ n) s1) = positionOf 1 builtA"
    and move: "\<forall>mx my n. positionOf 1 ((timerStep envPush ^^ Suc n) (onDragMove mx my s1))
                 = (fromScreenX s1 mx, fromScreenY s1 my)"
    and s2: "onDragEnd s1 = Ok s2" "simulation s2 = Some sim2" "pinOf 1 s2 = (None, None)"
    and free: "positionOf 1 (timerStep envPush s2) =
                (node_x (forcesApplied envPush sim2 (heap s2) ! 1)
                   + node_vx (forcesApplied envPush sim2 (heap s2) ! 1) * sim_velocityDecay sim2,
                 node_y (forcesApplied envPush sim2 (heap s2) ! 1)
                   + node_vy (forcesApplied envPush sim2 (heap s2) ! 1) * sim_velocityDecay sim2)"
    by blast
  have s1eq: "s1 = builtA\<lparr> draggedNode := Some 1,
      heap := (heap builtA)[1 := (heap builtA ! 1)\<lparr> node_fx := Some (node_x (heap builtA ! 1)),
                                                     node_fy := Some (node_y (heap builtA ! 1)) \<rparr>],
      simulation := Some (restart (set_alphaTarget 0.3 sim)), dragListeners := True \<rparr>"
    using s1 sim(1) by (simp add: startDrag_def Let_def)
  have t1: "transform s1 = zoomIdentity" by (simp add: s1eq transform_builtA)
  have sim2eq: "sim2 = set_alphaTarget 0 (restart (set_alphaTarget 0.3 sim))"
    and h2: "heap s2 = (heap s1)[1 := (heap s1 ! 1)\<lparr> node_fx := None, node_fy := None \<rparr>]"
    using s2(1,2) by (auto simp: onDragEnd_def Let_def s1eq)
  have sim2f: "sim_nodes sim2 = [0, 1, 2]" "sim_velocityDecay sim2 = 1 - 0.45"
    "sim_forces sim2 = [(''charge'', ManyBody (- 10) (SIM_SPREAD TUNING * 1.5) 0.9),
                         (''link'', Link ls 25 0.008 0.04 mw),
                         (''center'', Center 0.008)] @ [(''collide'', Collide 0.5 0.15)]"
    using sim by (simp_all add: sim2eq set_alphaTarget_def restart_def)
  have len2: "1 < length (heap s2)" using len by (simp add: h2 s1eq)
  have p2: "node_x (heap s2 ! 1) = 500" "node_y (heap s2 ! 1) = - 500"
    using len heap_builtA_1 by (simp_all add: h2 s1eq)
  have f: "node_x (forcesApplied envPush sim2 (heap s2) ! 1) = 500 \<and>
           node_y (forcesApplied envPush sim2 (heap s2) ! 1) = - 500 \<and>
           node_vx (forcesApplied envPush sim2 (heap s2) ! 1) = 10 \<and>
           node_vy (forcesApplied envPush sim2 (heap s2) ! 1) = 10"
    using forcesApplied_envPush [OF sim2f(3) _ _ _ len2] p2 by (simp add: sim2f)
  have pos: "positionOf 1 builtA = (500, - 500)" by (simp add: positionOf_def heap_builtA_1)
  have a: "positionOf 1 ((timerStep envPush ^^ 3) s1) = (500, - 500)" using stay [rule_format, of 3] pos by simp
  have b: "positionOf 1 ((timerStep envPush ^^ Suc 2) (onDragMove 10 20 s1)) = (10, 20)"
    using move [rule_format, where mx = 10 and my = 20 and n = 2]
    by (simp add: fromScreenX_def fromScreenY_def t1 zoomIdentity_def)
  have c: "positionOf 1 (timerStep envPush s2) = (505.5, - 494.5)"
    using free f by (simp add: sim2f)
  show ?thesis using sim(1) mem dist len s1 a b s2 c by blast
qed


subsection \<open>Deactivation\<close>


lemma render_inactive: "\<not> active s \<Longrightarrow> render s = s"
  by (simp add: render_def)

lemma renderIfIdle_inactive: "\<not> active s \<Longrightarrow> renderIfIdle s = s"
  by (simp add: renderIfIdle_def render_inactive split: option.splits)

lemma quiet_runFrame: "quiet s \<Longrightarrow> quiet (runFrame s) \<and> tickCount (runFrame s) = tickCount s"
  by (auto simp: quiet_def stopped_def runFrame_def frameCallback_def
      split: list.splits frame_cb.splits option.splits)

lemma runFrame_inactive: "\<not> active s \<Longrightarrow> runFrame s = s\<lparr> pendingFrames := tl (pendingFrames s) \<rparr>"
  by (auto simp: runFrame_def frameCallback_def split: list.splits frame_cb.splits)

lemma quiet_timerStep: "quiet s \<Longrightarrow> timerStep env s = s"
  by (auto simp: quiet_def stopped_def timerStep_def split: option.splits)

lemma quiet_onKeyDown: "quiet s \<Longrightarrow> onKeyDown key s = s"
  by (simp add: quiet_def onKeyDown_def)

lemma recalcNodeSizes_quiet:
  "active (recalcNodeSizes tun s) = active s" "stopped (recalcNodeSizes tun s) = stopped s"
  "tickCount (recalcNodeSizes tun s) = tickCount s"
  by (auto simp: recalcNodeSizes_def Let_def withSim_def stopped_def set_force_def
      split: option.splits)

lemma quiet_setSizeMode:
  "quiet s \<Longrightarrow> quiet (setSizeMode tun mode s) \<and> tickCount (setSizeMode tun mode s) = tickCount s"
proof -
  assume q: "quiet s"
  have s: "stopped (s\<lparr> sizeMode := mode \<rparr>) = stopped s" by (simp add: stopped_def)
  show ?thesis
    using q by (simp add: quiet_def setSizeMode_def Let_def recalcNodeSizes_quiet s)
qed

lemma quiet_setLayoutMode:
  "quiet s \<Longrightarrow> quiet (setLayoutMode tun data mode s) \<and>
     tickCount (setLayoutMode tun data mode s) = tickCount s"
  by (simp add: quiet_def stopped_def setLayoutMode_def Let_def)

lemma quiet_setGroupMode:
  "quiet s \<Longrightarrow> quiet (setGroupMode mode s) \<and> tickCount (setGroupMode mode s) = tickCount s"
  by (simp add: quiet_def stopped_def setGroupMode_def Let_def)

lemma quiet_onDragMove:
  "quiet s \<Longrightarrow> quiet (onDragMove mx my s) \<and> tickCount (onDragMove mx my s) = tickCount s"
  by (simp add: quiet_def stopped_def onDragMove_def split: option.splits)

lemma quiet_onDragEnd:
  "quiet s \<Longrightarrow> quiet (stateOf (onDragEnd s)) \<and> tickCount (stateOf (onDragEnd s)) = tickCount s"
  by (auto simp: quiet_def stopped_def onDragEnd_def Let_def stateOf_def set_alphaTarget_def
      split: option.splits)

lemma quiet_onMouseMove:
  "quiet s \<Longrightarrow> quiet (onMouseMove mx my s) \<and> tickCount (onMouseMove mx my s) = tickCount s"
  by (simp add: quiet_def stopped_def onMouseMove_def Let_def renderIfIdle_inactive)

lemma quiet_onMouseLeave:
  "quiet s \<Longrightarrow> quiet (onMouseLeave s) \<and> tickCount (onMouseLeave s) = tickCount s"
  by (simp add: quiet_def stopped_def onMouseLeave_def renderIfIdle_inactive)

lemma quiet_touchHoldFire:
  "quiet s \<Longrightarrow> quiet (touchHoldFire s) \<and> tickCount (touchHoldFire s) = tickCount s"
  by (simp add: quiet_def stopped_def touchHoldFire_def renderIfIdle_inactive split: option.splits)

lemma quiet_loadAndBuild:
  "quiet s \<Longrightarrow> quiet (loadAndBuild tun resp data s) \<and>
     tickCount (loadAndBuild tun resp data s) = tickCount s"
  by (auto simp: quiet_def stopped_def loadAndBuild_def Let_def initSimulation_def
      split: option.splits prod.splits)

lemma quiet_onFilterChange: "quiet s \<Longrightarrow> onFilterChange s = s"
  by (simp add: quiet_def onFilterChange_def)

lemma quiet_onResize: "quiet s \<Longrightarrow> onResize w h s = s"
  by (simp add: quiet_def onResize_def)

lemma quiet_handle:
  "quiet s \<Longrightarrow> quiet (handle env tun data s e) \<and> tickCount (handle env tun data s e) = tickCount s"
  by (cases e)
     (simp_all add: handle_def quiet_runFrame quiet_timerStep quiet_onKeyDown quiet_setSizeMode
        quiet_setLayoutMode quiet_setGroupMode quiet_onDragMove quiet_onDragEnd quiet_onMouseMove
        quiet_onMouseLeave quiet_touchHoldFire quiet_loadAndBuild quiet_onFilterChange
        quiet_onResize)

lemma quiet_events:
  "quiet s \<Longrightarrow> quiet (foldl (handle env tun data) s es) \<and>
     tickCount (foldl (handle env tun data) s es) = tickCount s"
proof (induction es arbitrary: s)
  case Nil
  then show ?case by simp
next
  case (Cons e es)
  from quiet_handle [OF Cons.prems, of env tun data e] Cons.IH [of "handle env tun data s e"]
  show ?case by simp
qed

lemma deactivate_fields:
  "active (deactivate s) = False" "stopped (deactivate s)" "touchHoldTimer (deactivate s) = None"
  "hoveredNode (deactivate s) = hoveredNode s" "draggedNode (deactivate s) = draggedNode s"
  "pendingFrames (deactivate s) = pendingFrames s" "heap (deactivate s) = heap s"
  "tickCount (deactivate s) = tickCount s" "selectedNode (deactivate s) = selectedNode s"
  by (auto simp: deactivate_def Let_def withSim_def stopped_def stop_def split: option.splits)

text \<open>
  What \<^verbatim>\<open>deactivate\<close> does achieve: the view is inactive, the simulation is stopped
  and the touch-hold timer is cancelled. A requested animation frame is not cancelled,
  but when it runs it only leaves the queue. And whatever events follow, other than an
  activation and a pointer press on the canvas, the view stays inactive, the
  simulation stays stopped and no tick is counted.
\<close>

lemma deactivate_quiet:
  "let s' = deactivate s; s'' = foldl (handle env tun data) s' es
   in \<not> active s' \<and> stopped s' \<and> touchHoldTimer s' = None \<and>
      runFrame s' = s'\<lparr> pendingFrames := tl (pendingFrames s') \<rparr> \<and>
      \<not> active s'' \<and> stopped s'' \<and> tickCount s'' = tickCount s'"
proof -
  have q: "quiet (deactivate s)" by (simp add: quiet_def deactivate_fields)
  from quiet_events [OF q, of env tun data es] runFrame_inactive [of "deactivate s"]
  show ?thesis by (simp add: Let_def quiet_def deactivate_fields)
qed



lemma loadAndBuild_inactive_frame:
  "\<not> active s \<Longrightarrow> pendingFrames (loadAndBuild tun resp data s) = pendingFrames s \<and>
     hoveredNode (loadAndBuild tun resp data s) = hoveredNode s \<and>
     draggedNode (loadAndBuild tun resp data s) = draggedNode s"
  by (auto simp: loadAndBuild_def Let_def initSimulation_def split: option.splits prod.splits)

lemma builtA_idle:
  "pendingFrames builtA = []" "tickCount builtA = 0" "hoveredNode builtA = None"
  "draggedNode builtA = None"
  using loadAndBuild_inactive_frame [OF active_builtA_init, of TUNING "Some layoutA" "Some dataA"]
        quiet_loadAndBuild [of init_state TUNING "Some layoutA" "Some dataA"]
  by (simp_all add: builtA_def init_state_def quiet_def stopped_def)

lemma activate_fields:
  "heap (activate w h s) = heap s" "simNodes (activate w h s) = simNodes s"
  "layoutLoaded (activate w h s) = layoutLoaded s" "active (activate w h s)"
  "pendingFrames (activate w h s) = pendingFrames s @ [FrameActivate]"
  "tickCount (activate w h s) = tickCount s" "simulation (activate w h s) = simulation s"
  "hoveredNode (activate w h s) = hoveredNode s" "draggedNode (activate w h s) = draggedNode s"
  by (simp_all add: activate_def resize_def Let_def)

lemma render_pending: "pendingFrames s \<noteq> [] \<Longrightarrow> pendingFrames (render s) \<noteq> []"
  by (simp add: render_def Let_def)

lemma render_tickCount: "tickCount (render s) = tickCount s"
  by (simp add: render_def Let_def)

lemma findTarget_gameB: "findTarget lowerASCII gameB (activate w h builtA) = Some (Suc 0)"
  by (simp add: findTarget_def activate_fields simNodes_builtA heap_builtA_nth same_game_def
      titleMatches_def title_gameB lower_letters)

lemma selectGame_gameB:
  "hoveredNode (snd (selectGame lowerASCII gameB (activate w h builtA))) = Some (Suc 0)"
  "draggedNode (snd (selectGame lowerASCII gameB (activate w h builtA))) = None"
  "pendingFrames (snd (selectGame lowerASCII gameB (activate w h builtA))) \<noteq> []"
  "tickCount (snd (selectGame lowerASCII gameB (activate w h builtA))) = 0"
  "simulation (snd (selectGame lowerASCII gameB (activate w h builtA))) = simulation builtA"
  by (simp_all add: selectGame_def findTarget_gameB activate_fields simNodes_builtA
      layoutLoaded_builtA Let_def render_frame render_pending render_tickCount builtA_idle)

lemma startDrag_fields:
  "hoveredNode (stateOf (startDrag a s)) = hoveredNode s"
  "draggedNode (stateOf (startDrag a s)) = Some a"
  "pendingFrames (stateOf (startDrag a s)) = pendingFrames s"
  "tickCount (stateOf (startDrag a s)) = tickCount s"
  by (simp_all add: startDrag_def Let_def stateOf_def split: option.splits)

lemma busyA_fields:
  "hoveredNode busyA = Some (Suc 0)" "draggedNode busyA = Some (Suc 0)"
  "pendingFrames busyA \<noteq> []" "tickCount busyA = 0"
  by (simp_all add: busyA_def foundA_def startDrag_fields selectGame_gameB)

lemma heap_builtA_r: "map node_r (heap builtA) = [31 / 4, 31 / 4, 31 / 4]"
  by (simp add: builtA_def loadAndBuild_heap snd_builtPair_A init_state_def upt_rec
      fixSimIdx_def newNode_def plainNode_def initNode_def Let_def TUNING_def scaleSqrt_def
      pow_half_def)

lemma activate_size: "width (activate w h s) = w" "height (activate w h s) = h"
  by (simp_all add: activate_def resize_def Let_def)

lemma foundA_fields:
  "heap foundA = heap builtA" "simNodes foundA = [0, 1, 2]" "layoutLoaded foundA"
  "transform foundA = \<lparr> t_k = 6, t_x = - 2600, t_y = 3300 \<rparr>"
  "simulation foundA = simulation builtA" "hoveredNode foundA = Some 1"
  "draggedNode foundA = None" "tickCount foundA = 0" "active foundA"
  "pendingFrames foundA \<noteq> []"
  by (simp_all add: foundA_def selectGame_def findTarget_gameB activate_fields activate_size
      simNodes_builtA layoutLoaded_builtA Let_def render_frame render_pending render_tickCount
      builtA_idle heap_builtA_1 scale_def translate_def zoomIdentity_def)

lemma sqrt_million: "sqrt 1000000 = (1000::real)"
  using real_sqrt_unique [of 1000 1000000] by simp

lemma sqrt_two_million: "1000 \<le> sqrt 2000000"
  by (rule real_le_rsqrt) simp

lemma heap_builtA_xyr:
  "node_x (heap builtA ! 0) = - 500" "node_y (heap builtA ! 0) = - 500"
  "node_x (heap builtA ! Suc 0) = 500" "node_y (heap builtA ! Suc 0) = - 500"
  "node_x (heap builtA ! 2) = - 500" "node_y (heap builtA ! 2) = 500"
  "node_r (heap builtA ! 0) = 31 / 4" "node_r (heap builtA ! Suc 0) = 31 / 4"
  "node_r (heap builtA ! 2) = 31 / 4"
  using heap_builtA_x heap_builtA_y heap_builtA_r by (auto simp: map_eq_Cons_conv)

lemma deactivate_fields2:
  "simNodes (deactivate s) = simNodes s" "layoutLoaded (deactivate s) = layoutLoaded s"
  "transform (deactivate s) = transform s"
  "simulation (deactivate s) = map_option stop (simulation s)"
  by (auto simp: deactivate_def Let_def withSim_def split: option.splits)

lemma hitTest_centre: "hitTest 400 300 (deactivate foundA) = Some 1"
  using sqrt_two_million
  by (simp add: hitTest_def deactivate_fields deactivate_fields2 foundA_fields hitStep_def
      fromScreenX_def fromScreenY_def Let_def heap_builtA_xyr sqrt_million)

lemma loadAndBuild_onTick:
  assumes "\<not> active s"
  shows "\<exists>sim. simulation (loadAndBuild tun (Some ld) (Some sd) s) = Some sim \<and> sim_onTick sim"
proof -
  define s1 where "s1 = (case ld_communities ld of None \<Rightarrow> s
       | Some c \<Rightarrow> s\<lparr> communitiesData := Some c,
            numCommunities := (case ld_num_communities ld of None \<Rightarrow> 0 | Some n \<Rightarrow> n) \<rparr>)"
  have a1: "\<not> active s1" using assms by (simp add: s1_def split: option.splits)
  define base where "base = length (heap s1)"
  define nodes where "nodes = [base ..< base + length (snd (builtPair tun ld sd))]"
  define rl where "rl = builtLinks tun ld sd"
  have len: "length nodes = length (snd (builtPair tun ld sd))" by (simp add: nodes_def)
  have ok: "forceLink_initialize nodes (map unresolved (take (MAX_FORCE_LINKS tun) rl))
            = Some (map (resolved nodes) (take (MAX_FORCE_LINKS tun) rl))"
    by (rule forceLink_initialize_unresolved)
       (metis builtLinks_below in_set_takeD len rl_def)
  show ?thesis
    using ok a1
    by (simp add: loadAndBuild_def Let_def builtLinks_def [symmetric] builtPair_def [symmetric]
        initSimulation_def buildForceLinks_take forceSimulation_def defaultForces_def
        set_force_def length_fixSimIdx s1_def [symmetric] base_def [symmetric]
        nodes_def [symmetric] rl_def [symmetric])
qed

lemma timerStep_counts:
  "simulation s = Some sim \<Longrightarrow> sim_running sim \<Longrightarrow> sim_onTick sim \<Longrightarrow>
   tickCount (timerStep env s) = tickCount s + 1"
  by (simp add: timerStep_def tick_def Let_def onTick_def render_tickCount withSim_def)

lemma heap_foundA_pos: "node_x (heap foundA ! Suc 0) = 500" "node_y (heap foundA ! Suc 0) = - 500"
  by (simp_all add: foundA_fields heap_builtA_1)

lemma busyA_pin: "pinOf 1 busyA = (Some 500, Some (- 500))"
proof -
  obtain sim where "simulation foundA = Some sim"
    using loadAndBuild_onTick [OF active_builtA_init, of TUNING layoutA dataA]
    by (auto simp: foundA_fields builtA_def)
  then show ?thesis
    by (simp add: busyA_def startDrag_def Let_def stateOf_def pinOf_def foundA_fields
        length_heap_builtA heap_builtA_1)
qed

lemma press_after_deactivate:
  "let s = deactivate foundA; s1 = stateOf (onPointerDown 400 300 s)
   in \<not> active s \<and> stopped s \<and> \<not> active s1 \<and> \<not> stopped s1 \<and>
      tickCount (timerStep env s1) = tickCount s + 1"
proof -
  obtain sim where sim: "simulation foundA = Some sim" "sim_onTick sim"
    using loadAndBuild_onTick [OF active_builtA_init, of TUNING layoutA dataA]
    by (auto simp: foundA_fields builtA_def)
  define s where "s = deactivate foundA"
  have ss: "simulation s = Some (stop sim)" by (simp add: s_def deactivate_fields2 sim)
  define s1 where "s1 = stateOf (onPointerDown 400 300 s)"
  have s1s: "simulation s1 = Some (restart (set_alphaTarget 0.3 (stop sim)))"
    "active s1 = active s" "tickCount s1 = tickCount s"
    using hitTest_centre ss
    by (simp_all add: s1_def s_def [symmetric] onPointerDown_def startDrag_def Let_def stateOf_def)
  have run: "sim_running (restart (set_alphaTarget 0.3 (stop sim)))"
    "sim_onTick (restart (set_alphaTarget 0.3 (stop sim)))"
    using sim(2) by (simp_all add: restart_def set_alphaTarget_def stop_def)
  from timerStep_counts [OF s1s(1) run, of env]
  have "tickCount (timerStep env s1) = tickCount s + 1" by (simp add: s1s)
  moreover have "\<not> active s" "stopped s" by (simp_all add: s_def deactivate_fields)
  moreover have "\<not> stopped s1" using run by (simp add: stopped_def s1s)
  ultimately show ?thesis by (simp add: Let_def s_def [symmetric] s1_def [symmetric] s1s)
qed

text \<open>
  Claim C7. \<^verbatim>\<open>deactivate\<close> does not do what the claim asks of it. With node B
  hovered and dragged and the frame of \<^verbatim>\<open>activate\<close> still requested, \<^verbatim>\<open>deactivate\<close>
  leaves the hovered node, the dragged node, the fixed position of the dragged node
  and the requested frame as they are. And the simulation can tick before the next
  activation: with node B at the centre of the viewport, a pointer press there on the
  deactivated view starts a drag, whose \<^verbatim>\<open>startDrag\<close> restarts the stopped
  simulation without looking at \<^verbatim>\<open>active\<close>, and the next firing of the timer is a
  tick, which \<^verbatim>\<open>onTick\<close> counts.
\<close>

theorem deactivate_keeps_hover_and_drag:
  "hoveredNode (deactivate busyA) = Some 1 \<and> draggedNode (deactivate busyA) = Some 1 \<and>
   pinOf 1 (deactivate busyA) = (Some 500, Some (- 500)) \<and>
   pendingFrames (deactivate busyA) \<noteq> [] \<and>
   (let s = deactivate foundA; s1 = stateOf (onPointerDown 400 300 s)
    in \<not> active s \<and> stopped s \<and> \<not> active s1 \<and> \<not> stopped s1 \<and>
       tickCount (timerStep env s1) = tickCount s + 1)"
  using press_after_deactivate [of env] busyA_pin
  by (simp add: deactivate_fields busyA_fields pinOf_def)


subsection \<open>The fresh export and the live nodes\<close>

lemma pulled_agree:
  "pulled h \<Longrightarrow> agree {1, 2} (=) h h' \<Longrightarrow> pulled h' \<and> node_vx (h' ! 1) = node_vx (h ! 1)"
  by (simp add: pulled_def agree_def Let_def)

lemma link_strength_BC: "link_strength 0.008 0.04 600 linkBC = 6 / 125"
  by (simp add: link_strength_def linkBC_def)

lemma link_force_one_BC:
  assumes "pulled h"
  shows "link_force_one env alpha [linkBC] 25 0.008 0.04 600 h linkBC =
           link_pull env alpha 25 (6 / 125) (1 / 2) 1 2 h"
  using assms
  by (simp add: link_force_one_def linkBC_def link_count_def end_index_def Let_def pulled_def
      link_strength_def)

lemma link_pull_pulled:
  assumes p: "pulled h" and a: "0 < alpha" "alpha \<le> 1"
  shows "pulled (link_pull env alpha 25 (6 / 125) (1 / 2) 1 2 h) \<and>
         node_vx (link_pull env alpha 25 (6 / 125) (1 / 2) 1 2 h ! 1) < node_vx (h ! 1)"
proof -
  define ex where "ex = node_x (h ! 2) + node_vx (h ! 2) - node_x (h ! 1) - node_vx (h ! 1)"
  define ey where "ey = node_y (h ! 2) + node_vy (h ! 2) - node_y (h ! 1) - node_vy (h ! 1)"
  define l0 where "l0 = sqrt (ex * ex + ey * ey)"
  define l where "l = (l0 - 25) / l0 * alpha * (6 / 125)"
  have len: "length h = 6" and idx: "node_index (h ! 1) = 1" "node_index (h ! 2) = 2"
    and ex: "ex < 0" and ey: "0 < ey" and far: "625 < ex * ex + ey * ey"
    using p by (simp_all add: pulled_def Let_def ex_def ey_def)
  have "sqrt 625 < l0" unfolding l0_def using far by (simp only: real_sqrt_less_iff)
  moreover have "sqrt 625 = 25" using real_sqrt_unique [of 25 625] by simp
  ultimately have l0: "25 < l0" by simp
  have sq: "l0 * l0 = ex * ex + ey * ey"
    unfolding l0_def using far by simp
  have ll0: "l * l0 = (l0 - 25) * (alpha * (6 / 125))" using l0 by (simp add: l_def)
  have lpos: "0 < l" using l0 a by (simp add: l_def)
  have "(l0 - 25) * (alpha * (6 / 125)) < (l0 - 25) * 1"
    using l0 a by (intro mult_strict_left_mono) simp_all
  then have lt: "l * l0 < l0 - 25" unfolding ll0 by simp
  have "(1 - l) * l0 = l0 - l * l0" by (simp add: algebra_simps)
  then have keep: "25 < (1 - l) * l0" using lt by linarith
  have l1: "l < 1"
  proof (rule ccontr)
    assume "\<not> l < 1"
    then have "(1 - l) * l0 \<le> 0" using l0 by (simp add: mult_nonpos_nonneg)
    then show False using keep by simp
  qed
  have exn: "(ex = 0) = False" and eyn: "(ey = 0) = False" using ex ey by simp_all
  define h' where "h' = link_pull env alpha 25 (6 / 125) (1 / 2) 1 2 h"
  have h': "h' = (h[2 := (h ! 2)\<lparr> node_vx := node_vx (h ! 2) - ex * l * (1 / 2),
                                   node_vy := node_vy (h ! 2) - ey * l * (1 / 2) \<rparr>])
                  [1 := (h ! 1)\<lparr> node_vx := node_vx (h ! 1) + ex * l * (1 - 1 / 2),
                                 node_vy := node_vy (h ! 1) + ey * l * (1 - 1 / 2) \<rparr>]"
    unfolding h'_def link_pull_def Let_def ex_def [symmetric] ey_def [symmetric] exn eyn if_False
      l0_def [symmetric] l_def [symmetric]
    using len by simp
  have n1: "h' ! 1 = (h ! 1)\<lparr> node_vx := node_vx (h ! 1) + ex * l * (1 - 1 / 2),
                              node_vy := node_vy (h ! 1) + ey * l * (1 - 1 / 2) \<rparr>"
    and n2: "h' ! 2 = (h ! 2)\<lparr> node_vx := node_vx (h ! 2) - ex * l * (1 / 2),
                              node_vy := node_vy (h ! 2) - ey * l * (1 / 2) \<rparr>"
    and len': "length h' = 6"
    using len by (simp_all add: h')
  have ex': "node_x (h' ! 2) + node_vx (h' ! 2) - node_x (h' ! 1) - node_vx (h' ! 1) = ex * (1 - l)"
    unfolding n1 n2 ex_def by (simp add: algebra_simps)
  have ey': "node_y (h' ! 2) + node_vy (h' ! 2) - node_y (h' ! 1) - node_vy (h' ! 1) = ey * (1 - l)"
    unfolding n1 n2 ey_def by (simp add: algebra_simps)
  have a1: "ex * (1 - l) < 0" using ex l1 by (simp add: mult_neg_pos)
  have a2: "0 < ey * (1 - l)" using ey l1 by simp
  have "25 * 25 < ((1 - l) * l0) * ((1 - l) * l0)"
    using keep by (intro mult_strict_mono) simp_all
  also have "\<dots> = (1 - l) * (1 - l) * (l0 * l0)" by (simp add: algebra_simps)
  also have "\<dots> = ex * (1 - l) * (ex * (1 - l)) + ey * (1 - l) * (ey * (1 - l))"
    unfolding sq by (simp add: algebra_simps)
  finally have a3: "625 < ex * (1 - l) * (ex * (1 - l)) + ey * (1 - l) * (ey * (1 - l))" by simp
  have "ex * l < 0" using ex lpos by (simp add: mult_neg_pos)
  then have dec: "node_vx (h' ! 1) < node_vx (h ! 1)" unfolding n1 by simp
  have "pulled h'"
    unfolding pulled_def Let_def ex' ey' using len' idx a1 a2 a3 unfolding n1 n2 by simp
  then show ?thesis using dec by (simp add: h'_def)
qed

lemma write_back_live:
  "pulled h \<Longrightarrow> pulled (write_back [3, 4, 5] ks h) \<and>
     node_vx (write_back [3, 4, 5] ks h ! 1) = node_vx (h ! 1)"
  by (rule pulled_agree, assumption)
     (rule agree_weaken [OF write_back_agree_out], auto)

lemma integrate_live:
  "pulled h \<Longrightarrow> pulled (foldl (integrate_at vd) h [3, 4, 5]) \<and>
     node_vx (foldl (integrate_at vd) h [3, 4, 5] ! 1) = node_vx (h ! 1)"
  by (rule pulled_agree, assumption)
     (simp add: agree_def integrate_at_length integrate_at_nth)

lemma tick_pulled:
  assumes p: "pulled h" and a: "0 < sim_alpha sim" "sim_alpha sim \<le> 1"
    and t: "sim_alphaTarget sim = 0" and d: "sim_alphaDecay sim = 0.028"
    and n: "sim_nodes sim = [3, 4, 5]"
    and f: "sim_forces sim = [(n1, ManyBody b1 b2 b3), (n2, Link [linkBC] 25 0.008 0.04 600),
                              (n3, Center c1), (n4, Collide d1 d2)]"
  shows "pulled (snd (tick env sim h)) \<and> node_vx (snd (tick env sim h) ! 1) < node_vx (h ! 1) \<and>
         fst (tick env sim h) = sim\<lparr> sim_alpha := sim_alpha sim * 0.972 \<rparr>"
proof -
  define alpha where "alpha = sim_alpha sim + (sim_alphaTarget sim - sim_alpha sim) * sim_alphaDecay sim"
  have al: "alpha = sim_alpha sim * 0.972" by (simp add: alpha_def t d algebra_simps)
  have a': "0 < alpha" "alpha \<le> 1" using a by (simp_all add: al)
  define h1 where "h1 = apply_force env alpha [3, 4, 5] h (ManyBody b1 b2 b3)"
  define h2 where "h2 = apply_force env alpha [3, 4, 5] h1 (Link [linkBC] 25 0.008 0.04 600)"
  define h3 where "h3 = apply_force env alpha [3, 4, 5] h2 (Center c1)"
  define h4 where "h4 = apply_force env alpha [3, 4, 5] h3 (Collide d1 d2)"
  have s1: "pulled h1 \<and> node_vx (h1 ! 1) = node_vx (h ! 1)"
    unfolding h1_def apply_force_def using write_back_live [OF p] by simp
  have e2: "h2 = link_pull env alpha 25 (6 / 125) (1 / 2) 1 2 h1"
    using link_force_one_BC [of h1 env alpha] s1 by (simp add: h2_def apply_force_def)
  have s2: "pulled h2 \<and> node_vx (h2 ! 1) < node_vx (h1 ! 1)"
    unfolding e2 using link_pull_pulled [OF _ a'] s1 by blast
  have s3: "pulled h3 \<and> node_vx (h3 ! 1) = node_vx (h2 ! 1)"
    unfolding h3_def apply_force_def using write_back_live [of h2] s2 by simp
  have s4: "pulled h4 \<and> node_vx (h4 ! 1) = node_vx (h3 ! 1)"
    unfolding h4_def apply_force_def using write_back_live [of h3] s3 by simp
  have tk: "tick env sim h = (sim\<lparr> sim_alpha := alpha \<rparr>, foldl (integrate_at (sim_velocityDecay sim)) h4 [3, 4, 5])"
    by (simp add: tick_def Let_def n f alpha_def [symmetric] h1_def h2_def h3_def h4_def)
  from integrate_live [of h4 "sim_velocityDecay sim"] s4 s3 s2 s1 show ?thesis
    by (simp add: tk al)
qed

lemma settle_pulled:
  assumes "pulled h" "0 < sim_alpha sim" "sim_alpha sim \<le> 1"
    "sim_alphaTarget sim = 0" "sim_alphaDecay sim = 0.028" "sim_nodes sim = [3, 4, 5]"
    "sim_forces sim = [(n1, ManyBody b1 b2 b3), (n2, Link [linkBC] 25 0.008 0.04 600),
                       (n3, Center c1), (n4, Collide d1 d2)]"
  shows "pulled (snd (settle env n sim h)) \<and>
         node_vx (snd (settle env n sim h) ! 1) \<le> node_vx (h ! 1) \<and>
         (0 < n \<and> 0.001 < sim_alpha sim \<longrightarrow> node_vx (snd (settle env n sim h) ! 1) < node_vx (h ! 1))"
  using assms
proof (induction n arbitrary: sim h)
  case 0
  then show ?case by simp
next
  case (Suc n)
  show ?case
  proof (cases "sim_alpha sim > 0.001")
    case False
    then show ?thesis using Suc.prems(1) by simp
  next
    case True
    define sim' where "sim' = sim\<lparr> sim_alpha := sim_alpha sim * 0.972 \<rparr>"
    define h' where "h' = snd (tick env sim h)"
    from tick_pulled [OF Suc.prems, of env]
    have tp: "pulled h'" "node_vx (h' ! 1) < node_vx (h ! 1)" "tick env sim h = (sim', h')"
      by (simp_all add: h'_def sim'_def prod_eq_iff)
    have "pulled (snd (settle env n sim' h')) \<and> node_vx (snd (settle env n sim' h') ! 1) \<le> node_vx (h' ! 1)"
      using Suc.IH [of h' sim'] tp(1) Suc.prems by (simp add: sim'_def)
    then show ?thesis using True tp by simp
  qed
qed

lemma heap_builtA_kin:
  "map node_index (heap builtA) = [0, 1, 2]" "map node_vx (heap builtA) = [0, 0, 0]"
  "map node_vy (heap builtA) = [0, 0, 0]"
  by (simp_all add: builtA_def loadAndBuild_heap snd_builtPair_A init_state_def upt_rec
      fixSimIdx_def newNode_def plainNode_def initNode_def Let_def)

lemma heap_builtA_12:
  "node_index (heap builtA ! Suc 0) = 1" "node_index (heap builtA ! 2) = 2"
  "node_vx (heap builtA ! Suc 0) = 0" "node_vx (heap builtA ! 2) = 0"
  "node_vy (heap builtA ! Suc 0) = 0" "node_vy (heap builtA ! 2) = 0"
  "node_x (heap builtA ! Suc 0) = 500" "node_x (heap builtA ! 2) = - 500"
  "node_y (heap builtA ! Suc 0) = - 500" "node_y (heap builtA ! 2) = 500"
  using heap_builtA_kin heap_builtA_x heap_builtA_y by (auto simp: map_eq_Cons_conv)

lemma max_links_TUNING: "MAX_FORCE_LINKS TUNING = 20000"
  by (simp add: TUNING_def)

lemma forceLinks_builtA: "forceLinks builtA = [linkBC]"
  unfolding builtA_def loadAndBuild_forceLinks
  by (simp add: builtA_def [symmetric] simNodes_builtA builtLinks_A resolved_def linkBC_def
      max_links_TUNING)

lemma pulled_start: "pulled (initializeNodes 0 [3, 4, 5] (heap builtA @ heap builtA))"
proof -
  define h0 where "h0 = heap builtA @ heap builtA"
  have "agree (- set [3, 4, 5]) (=) h0 (initializeNodes 0 [3, 4, 5] h0)"
    by (rule initializeNodes_agree_out)
  then have ag: "agree {1, 2} (=) h0 (initializeNodes 0 [3, 4, 5] h0)"
    by (rule agree_weaken) auto
  have "pulled h0"
    by (simp add: pulled_def h0_def Let_def length_heap_builtA nth_append heap_builtA_12)
  from pulled_agree [OF this ag] show ?thesis by (simp add: h0_def)
qed

lemma freshLayout_builtA:
  "freshLayout env TUNING builtA =
     Some ([3, 4, 5],
       snd (settle env 500
         \<lparr> sim_nodes = [3, 4, 5], sim_alpha = 1, sim_alphaMin = 0.001, sim_alphaDecay = 0.028,
           sim_alphaTarget = 0, sim_velocityDecay = 1 - 0.45,
           sim_forces = [(''charge'', ManyBody (- 10) (SIM_SPREAD TUNING * 1.5) 0.9),
                         (''link'', Link [linkBC] 25 0.008 0.04 600),
                         (''center'', Center 0.008), (''collide'', Collide 0.5 0.15)],
           sim_running = False, sim_onTick = False \<rparr>
         (initializeNodes 0 [3, 4, 5] (heap builtA @ heap builtA))))"
proof -
  have ne: "heap builtA \<noteq> []" using length_heap_builtA by auto
  show ?thesis
    by (simp add: freshLayout_def Let_def nodes_of_builtA length_heap_builtA forceLinks_builtA
        forceSimulation_def maxWeightOf_def linkBC_def resolve_def defaultForces_def set_force_def
        upt_rec ne)
qed

lemma exportRender_heap:
  "layoutLoaded s \<Longrightarrow> simNodes s \<noteq> [] \<Longrightarrow> freshLayout env tun s = Some (nodes, h1) \<Longrightarrow>
   heap (snd (exportRender env tun w h ''fresh'' s)) = h1"
  by (simp add: exportRender_def split: option.splits)

text \<open>
  Claim C10. \<^verbatim>\<open>exportRender\<close> with the layout source \<^verbatim>\<open>'fresh'\<close> does write the live
  simulation state. The nodes are copied, but the copied links keep as their ends the
  node objects that d3 had put into \<^verbatim>\<open>forceLinks\<close>, which are the live ones; so the
  link force of the fresh simulation reads and writes the velocities of live nodes,
  while the fresh simulation integrates its copies. After Scenario A is loaded, node B
  is a live node whose velocity \<open>vx\<close> is 0; after a fresh export it is negative,
  whatever the size of the export canvas and whatever the other forces do.
\<close>

theorem exportRender_fresh_writes_live_velocity:
  "1 \<in> set (simNodes builtA) \<and> node_vx (heap builtA ! 1) = 0 \<and>
   node_vx (heap (snd (exportRender env TUNING w h ''fresh'' builtA)) ! 1) < 0"
proof -
  define sim where "sim =
         \<lparr> sim_nodes = [3, 4, 5], sim_alpha = 1, sim_alphaMin = 0.001, sim_alphaDecay = 0.028,
           sim_alphaTarget = 0, sim_velocityDecay = 1 - 0.45,
           sim_forces = [(''charge'', ManyBody (- 10) (SIM_SPREAD TUNING * 1.5) 0.9),
                         (''link'', Link [linkBC] 25 0.008 0.04 600),
                         (''center'', Center 0.008), (''collide'', Collide 0.5 0.15)],
           sim_running = False, sim_onTick = False \<rparr>"
  define hA where "hA = initializeNodes 0 [3, 4, 5] (heap builtA @ heap builtA)"
  have fr: "freshLayout env TUNING builtA = Some ([3, 4, 5], snd (settle env 500 sim hA))"
    unfolding sim_def hA_def by (rule freshLayout_builtA)
  have sim: "sim_alpha sim = 1" "sim_alphaTarget sim = 0" "sim_alphaDecay sim = 0.028"
     "sim_nodes sim = [3, 4, 5]"
     "sim_forces sim = [(''charge'', ManyBody (- 10) (SIM_SPREAD TUNING * 1.5) 0.9),
                       (''link'', Link [linkBC] 25 0.008 0.04 600),
                       (''center'', Center 0.008), (''collide'', Collide 0.5 0.15)]"
    by (simp_all add: sim_def)
  have a: "0 < sim_alpha sim" "sim_alpha sim \<le> 1" by (simp_all add: sim)
  have p: "pulled hA" unfolding hA_def by (rule pulled_start)
  have v0: "node_vx (hA ! Suc 0) = 0"
    using initializeNodes_agree_out [of "[3, 4, 5]" "heap builtA @ heap builtA" 0]
    by (simp add: hA_def agree_def nth_append length_heap_builtA heap_builtA_12)
  from settle_pulled [OF p a sim(2,3,4,5), of env 500]
  have "node_vx (snd (settle env 500 sim hA) ! Suc 0) < 0" by (simp add: sim v0)
  moreover have "heap (snd (exportRender env TUNING w h ''fresh'' builtA)) = snd (settle env 500 sim hA)"
    using exportRender_heap [OF layoutLoaded_builtA _ fr] by (simp add: simNodes_builtA)
  ultimately show ?thesis by (simp add: simNodes_builtA heap_builtA_12)
qed

text \<open>
  With forces that leave every node of the fresh simulation as it is, and an export
  canvas of 800 by 600 pixels.
\<close>

theorem exportRender_fresh_writes_live_velocity_witness:
  "node_vx (heap (snd (exportRender envStill TUNING 800 600 ''fresh'' builtA)) ! 1) < 0"
  using exportRender_fresh_writes_live_velocity [of envStill 800 600] by simp

end
